theory Spec2Isabelle
  imports Complex_Main "HOL-Library.Multiset"
begin

section \<open>Values, errors and the environment\<close>

text \<open>
  The documents handled by the form engine are JSON values as Python sees them after
  parsing. A Python \<^verbatim>\<open>dict\<close> with string keys is an association list kept in
  insertion order; equality of association lists is finer than Python's equality of
  dicts (which ignores the order), so an equation proved here holds in Python as well.
  A Python \<^verbatim>\<open>str\<close> is represented by its UTF-8 encoding, a \<^typ>\<open>string\<close> of
  bytes; two strs are equal exactly when their encodings are.
\<close>

datatype json =
    JNull
  | JBool bool
  | JInt int
  | JFloat real
  | JStr string
  | JList "json list"
  | JDict "(string \<times> json) list"

type_synonym dict = "(string \<times> json) list"

text \<open>
  Every exception the modelled code can raise is a value. \<open>HTTPException\<close> carries the
  status code and the detail; the others are the Python and SQLAlchemy exceptions that
  escape the handlers. \<open>NonStringKey\<close> marks the one place the value model stops:
  \<^verbatim>\<open>dict(x)\<close> on a sequence of pairs whose key is not a string.
\<close>

datatype error =
    HTTPException nat string
  | TypeError
  | ValueError
  | KeyError
  | AttributeError
  | IntegrityError
  | MultipleResultsFound
  | NonStringKey

text \<open>
  Library functions the repository calls but does not define are parameters:
  \<^verbatim>\<open>str(uuid.uuid4())\<close> is the \<open>n\<close>-th element of a stream of identifiers (the
  counter is threaded through every function that draws one), \<^verbatim>\<open>uuid.UUID(s)\<close>
  succeeding is \<open>is_uuid\<close>, \<^verbatim>\<open>json.loads\<close> returns \<open>None\<close> where it raises, and
  \<open>py_repr\<close> is \<^verbatim>\<open>str(x)\<close> on floats, lists and dicts. The tables of the Unicode
  database are parameters as well: \<open>lower\<close> is \<^verbatim>\<open>str.lower\<close>, \<open>casefold\<close> is
  \<^verbatim>\<open>str.casefold\<close>, and \<open>is_digit\<close> tells whether a character is a decimal digit,
  the class \<^verbatim>\<open>\d\<close> of the module \<^verbatim>\<open>re\<close>. Nothing is assumed about any of them.
\<close>

record env =
  uuid4 :: "nat \<Rightarrow> string"
  is_uuid :: "string \<Rightarrow> bool"
  json_loads :: "string \<Rightarrow> json option"
  py_repr :: "json \<Rightarrow> string"
  lower :: "string \<Rightarrow> string"
  casefold :: "string \<Rightarrow> string"
  is_digit :: "string \<Rightarrow> bool"

definition rbind :: "error + 'a \<Rightarrow> ('a \<Rightarrow> error + 'b) \<Rightarrow> error + 'b" where
  "rbind m f = (case m of Inl e \<Rightarrow> Inl e | Inr x \<Rightarrow> f x)"

subsection \<open>Python strings\<close>

text \<open>
  A character of a str is, in the encoding, a byte followed by the continuation bytes
  (\<open>0x80\<close> to \<open>0xBF\<close>) that come after it. \<open>chars\<close> cuts a string into its characters,
  each a string of one to four bytes, so that \<^verbatim>\<open>len\<close>, indexing, iteration and the
  character classes count characters, as Python does, and not bytes.
\<close>

definition is_cont :: "char \<Rightarrow> bool" where
  "is_cont c = (digit7 c \<and> \<not> digit6 c)"

fun chars :: "string \<Rightarrow> string list" where
  "chars [] = []"
| "chars (c # cs) =
     (case chars cs of
        [] \<Rightarrow> [[c]]
      | ch # chs \<Rightarrow> if is_cont (hd ch) then (c # ch) # chs else [c] # ch # chs)"

definition py_len :: "string \<Rightarrow> nat" where
  "py_len s = length (chars s)"

text \<open>
  The characters \<^verbatim>\<open>str.strip\<close> and \<^verbatim>\<open>str.split\<close> take for whitespace
  (\<^verbatim>\<open>str.isspace\<close>): U+0009 to U+000D, U+001C to U+0020, U+0085, U+00A0, U+1680,
  U+2000 to U+200A, U+2028, U+2029, U+202F, U+205F and U+3000.
\<close>

definition is_space :: "string \<Rightarrow> bool" where
  "is_space ch = (ch \<in> set
     [[CHR 0x09], [CHR 0x0A], [CHR 0x0B], [CHR 0x0C], [CHR 0x0D],
      [CHR 0x1C], [CHR 0x1D], [CHR 0x1E], [CHR 0x1F], [CHR 0x20],
      [CHR 0xC2, CHR 0x85], [CHR 0xC2, CHR 0xA0], [CHR 0xE1, CHR 0x9A, CHR 0x80],
      [CHR 0xE2, CHR 0x80, CHR 0x80], [CHR 0xE2, CHR 0x80, CHR 0x81],
      [CHR 0xE2, CHR 0x80, CHR 0x82], [CHR 0xE2, CHR 0x80, CHR 0x83],
      [CHR 0xE2, CHR 0x80, CHR 0x84], [CHR 0xE2, CHR 0x80, CHR 0x85],
      [CHR 0xE2, CHR 0x80, CHR 0x86], [CHR 0xE2, CHR 0x80, CHR 0x87],
      [CHR 0xE2, CHR 0x80, CHR 0x88], [CHR 0xE2, CHR 0x80, CHR 0x89],
      [CHR 0xE2, CHR 0x80, CHR 0x8A], [CHR 0xE2, CHR 0x80, CHR 0xA8],
      [CHR 0xE2, CHR 0x80, CHR 0xA9], [CHR 0xE2, CHR 0x80, CHR 0xAF],
      [CHR 0xE2, CHR 0x81, CHR 0x9F], [CHR 0xE3, CHR 0x80, CHR 0x80]])"

text \<open>
  The line boundaries of \<^verbatim>\<open>str.splitlines\<close>: U+000A to U+000D, U+001C to U+001E,
  U+0085, U+2028 and U+2029; a carriage return followed by a line feed is one boundary.
\<close>

definition is_linebreak :: "string \<Rightarrow> bool" where
  "is_linebreak ch = (ch \<in> set
     [[CHR 0x0A], [CHR 0x0B], [CHR 0x0C], [CHR 0x0D], [CHR 0x1C], [CHR 0x1D], [CHR 0x1E],
      [CHR 0xC2, CHR 0x85], [CHR 0xE2, CHR 0x80, CHR 0xA8], [CHR 0xE2, CHR 0x80, CHR 0xA9]])"

definition trim :: "string list \<Rightarrow> string list" where
  "trim cs = rev (dropWhile is_space (rev (dropWhile is_space cs)))"

definition strip :: "string \<Rightarrow> string" where
  "strip s = concat (trim (chars s))"

fun split_acc :: "string \<Rightarrow> string list \<Rightarrow> string list" where
  "split_acc cur [] = (if cur = [] then [] else [cur])"
| "split_acc cur (c # cs) =
     (if is_space c then (if cur = [] then split_acc [] cs else cur # split_acc [] cs)
      else split_acc (cur @ c) cs)"

definition split_ws :: "string \<Rightarrow> string list" where
  "split_ws s = split_acc [] (chars s)"

fun str_join :: "string \<Rightarrow> string list \<Rightarrow> string" where
  "str_join sep [] = []"
| "str_join sep [x] = x"
| "str_join sep (x # y # ys) = x @ sep @ str_join sep (y # ys)"

fun splitlines_acc :: "string \<Rightarrow> string list \<Rightarrow> string list" where
  "splitlines_acc cur [] = (if cur = [] then [] else [cur])"
| "splitlines_acc cur [c] = (if is_linebreak c then [cur] else [cur @ c])"
| "splitlines_acc cur (c # d # cs) =
     (if c = [CHR 0x0D] \<and> d = [CHR 0x0A] then cur # splitlines_acc [] cs
      else if is_linebreak c then cur # splitlines_acc [] (d # cs)
      else splitlines_acc (cur @ c) (d # cs))"

definition splitlines :: "string \<Rightarrow> string list" where
  "splitlines s = splitlines_acc [] (chars s)"

fun digits :: "nat \<Rightarrow> string" where
  "digits n = (if n < 10 then [''0123456789'' ! n]
               else digits (n div 10) @ [''0123456789'' ! (n mod 10)])"

definition str_of_int :: "int \<Rightarrow> string" where
  "str_of_int i = (if i < 0 then CHR ''-'' # digits (nat (- i)) else digits (nat i))"

fun py_str :: "env \<Rightarrow> json \<Rightarrow> string" where
  "py_str e (JStr s) = s"
| "py_str e JNull = ''None''"
| "py_str e (JBool b) = (if b then ''True'' else ''False'')"
| "py_str e (JInt i) = str_of_int i"
| "py_str e v = py_repr e v"

subsection \<open>Python dictionaries\<close>

definition has_key :: "dict \<Rightarrow> string \<Rightarrow> bool" where
  "has_key d k = (map_of d k \<noteq> None)"

definition py_get :: "dict \<Rightarrow> string \<Rightarrow> json" where
  "py_get d k = (case map_of d k of None \<Rightarrow> JNull | Some v \<Rightarrow> v)"

definition py_get_default :: "dict \<Rightarrow> string \<Rightarrow> json \<Rightarrow> json" where
  "py_get_default d k dflt = (case map_of d k of None \<Rightarrow> dflt | Some v \<Rightarrow> v)"

fun dict_set :: "('k \<times> 'v) list \<Rightarrow> 'k \<Rightarrow> 'v \<Rightarrow> ('k \<times> 'v) list" where
  "dict_set [] k v = [(k, v)]"
| "dict_set ((k', v') # d) k v = (if k' = k then (k, v) # d else (k', v') # dict_set d k v)"

definition dict_setdefault :: "dict \<Rightarrow> string \<Rightarrow> json \<Rightarrow> dict" where
  "dict_setdefault d k v = (case map_of d k of None \<Rightarrow> d @ [(k, v)] | Some _ \<Rightarrow> d)"

fun dict_pop :: "dict \<Rightarrow> string \<Rightarrow> dict" where
  "dict_pop [] k = []"
| "dict_pop ((k', v') # d) k = (if k' = k then d else (k', v') # dict_pop d k)"

fun truthy :: "json \<Rightarrow> bool" where
  "truthy JNull = False"
| "truthy (JBool b) = b"
| "truthy (JInt i) = (i \<noteq> 0)"
| "truthy (JFloat r) = (r \<noteq> 0)"
| "truthy (JStr s) = (s \<noteq> [])"
| "truthy (JList xs) = (xs \<noteq> [])"
| "truthy (JDict d) = (d \<noteq> [])"

fun unhashable :: "json \<Rightarrow> bool" where
  "unhashable (JList xs) = True"
| "unhashable (JDict d) = True"
| "unhashable v = False"

text \<open>Iterating a value: a list gives its elements, a string its characters, a dict its keys.\<close>

fun py_iter :: "json \<Rightarrow> error + json list" where
  "py_iter (JList xs) = Inr xs"
| "py_iter (JStr s) = Inr (map JStr (chars s))"
| "py_iter (JDict d) = Inr (map (\<lambda>kv. JStr (fst kv)) d)"
| "py_iter v = Inl TypeError"

text \<open>\<^verbatim>\<open>dict(x)\<close>: a copy of a dict, or the dict built from a sequence of pairs.\<close>

fun dict_of_pairs :: "json list \<Rightarrow> dict \<Rightarrow> error + dict" where
  "dict_of_pairs [] acc = Inr acc"
| "dict_of_pairs (p # ps) acc =
     (case py_iter p of
        Inl e \<Rightarrow> Inl TypeError
      | Inr [JStr k, v] \<Rightarrow> dict_of_pairs ps (dict_set acc k v)
      | Inr [k, v] \<Rightarrow> if unhashable k then Inl TypeError else Inl NonStringKey
      | Inr other \<Rightarrow> Inl ValueError)"

fun py_dict :: "json \<Rightarrow> error + dict" where
  "py_dict (JDict d) = Inr d"
| "py_dict v = rbind (py_iter v) (\<lambda>ps. dict_of_pairs ps [])"

section \<open>Canonicalizer (utils.py)\<close>

definition split_nonempty_lines :: "string \<Rightarrow> string list" where
  "split_nonempty_lines text = map strip (filter (\<lambda>line. strip line \<noteq> []) (splitlines text))"

fun single_char :: "json \<Rightarrow> bool" where
  "single_char (JStr s) = (py_len s \<le> 1)"
| "single_char v = False"

fun str_chars :: "json \<Rightarrow> string" where
  "str_chars (JStr s) = s"
| "str_chars v = []"

definition normalize_options :: "env \<Rightarrow> dict \<Rightarrow> dict" where
  "normalize_options e q =
     (case py_get q ''options'' of
        JStr s \<Rightarrow> dict_set q ''options'' (JList (map JStr (split_nonempty_lines s)))
      | JList opts \<Rightarrow>
          if opts \<noteq> [] \<and> list_all single_char opts
          then dict_set q ''options''
                 (JList (map JStr (split_nonempty_lines (concat (map str_chars opts)))))
          else dict_set q ''options''
                 (JList (map JStr (filter (\<lambda>s. s \<noteq> []) (map (\<lambda>x. strip (py_str e x)) opts))))
      | other \<Rightarrow> q)"

definition normalize_value_map :: "env \<Rightarrow> dict \<Rightarrow> dict" where
  "normalize_value_map e q =
     (case py_get q ''value_map'' of
        JNull \<Rightarrow> dict_set q ''value_map'' (JDict [])
      | JDict m \<Rightarrow> dict_set q ''value_map'' (JDict m)
      | JStr s \<Rightarrow>
          (case json_loads e s of
             Some (JDict m) \<Rightarrow> dict_set q ''value_map'' (JDict m)
           | other \<Rightarrow> dict_set q ''value_map'' (JDict []))
      | other \<Rightarrow> dict_set q ''value_map'' (JDict []))"

definition normalize_dropdown_options :: "env \<Rightarrow> dict \<Rightarrow> error + dict" where
  "normalize_dropdown_options e question =
     (let qtype = py_get question ''type'' in
      if unhashable qtype then Inl TypeError
      else
        let q1 = (if qtype = JStr ''dropdown'' \<or> qtype = JStr ''dropdown_mapped''
                  then normalize_options e question else question);
            q2 = (if qtype = JStr ''dropdown_mapped'' then normalize_value_map e q1 else q1)
        in Inr q2)"

fun ensure_questions :: "env \<Rightarrow> json list \<Rightarrow> nat \<Rightarrow> error + (json list \<times> nat)" where
  "ensure_questions e [] n = Inr ([], n)"
| "ensure_questions e (q # qs) n =
     rbind (py_dict q) (\<lambda>d.
     rbind (normalize_dropdown_options e d) (\<lambda>d'.
     rbind (ensure_questions e qs (Suc n)) (\<lambda>(qs', n').
       Inr (JDict (dict_setdefault d' ''id'' (JStr (uuid4 e n))) # qs', n'))))"

fun ensure_sections :: "env \<Rightarrow> json list \<Rightarrow> nat \<Rightarrow> error + (json list \<times> nat)" where
  "ensure_sections e [] n = Inr ([], n)"
| "ensure_sections e (sec # secs) n =
     rbind (py_dict sec) (\<lambda>s.
     rbind (py_iter (py_get_default s ''questions'' (JList []))) (\<lambda>qs.
     rbind (ensure_questions e qs n) (\<lambda>(qs', n1).
     rbind (ensure_sections e secs n1) (\<lambda>(secs', n2).
       Inr (JDict (dict_set s ''questions'' (JList qs')) # secs', n2)))))"

definition ensure_question_ids :: "env \<Rightarrow> dict \<Rightarrow> nat \<Rightarrow> error + (dict \<times> nat)" where
  "ensure_question_ids e canonical n =
     rbind (py_iter (py_get_default canonical ''sections'' (JList []))) (\<lambda>secs.
     rbind (ensure_sections e secs n) (\<lambda>(secs', n').
       let c1 = dict_set canonical ''sections'' (JList secs');
           nm = py_get c1 ''name''
       in Inr (dict_setdefault c1 ''title'' (if truthy nm then nm else JStr ''Untitled''), n')))"

definition legacy_question :: "env \<Rightarrow> json \<Rightarrow> dict \<Rightarrow> json" where
  "legacy_question e text meta =
     (let qobj = [(''text'', JStr (py_str e text)),
                  (''type'', JStr (py_str e (py_get_default meta ''type'' (JStr ''short_text'')))),
                  (''required'', JBool (truthy (py_get_default meta ''required'' (JBool True))))];
          qobj1 = (case py_get meta ''options'' of
                     JList options \<Rightarrow>
                       dict_set qobj ''options'' (JList (map (\<lambda>x. JStr (py_str e x)) options))
                   | other \<Rightarrow> qobj);
          value_map = (if truthy (py_get meta ''value_map'') then py_get meta ''value_map''
                       else py_get meta ''map'');
          qobj2 = (case value_map of
                     JDict vm \<Rightarrow> dict_set qobj1 ''value_map'' (JDict vm)
                   | other \<Rightarrow> qobj1)
      in JDict qobj2)"

fun legacy_item :: "env \<Rightarrow> json \<Rightarrow> json list" where
  "legacy_item e (JDict [(q_text, meta)]) =
     [legacy_question e (JStr q_text) (case meta of JDict m \<Rightarrow> m | other \<Rightarrow> [])]"
| "legacy_item e (JDict item) =
     (if has_key item ''question'' then [legacy_question e (py_get item ''question'') item]
      else [])"
| "legacy_item e v = []"

definition legacy_section :: "env \<Rightarrow> string \<times> json \<Rightarrow> json" where
  "legacy_section e st =
     JDict [(''title'', JStr (fst st)),
            (''questions'', JList (case snd st of
                                     JList items \<Rightarrow> concat (map (legacy_item e) items)
                                   | other \<Rightarrow> []))]"

definition to_canonical_question_set ::
    "env \<Rightarrow> json \<Rightarrow> string \<Rightarrow> nat \<Rightarrow> error + (dict \<times> nat)" where
  "to_canonical_question_set e raw fallback_name n =
     (case raw of
        JDict d \<Rightarrow>
          if has_key d ''sections'' \<and> has_key d ''title'' then ensure_question_ids e d n
          else (case d of
                  [(title, inner)] \<Rightarrow>
                    ensure_question_ids e
                      [(''title'', JStr title),
                       (''sections'', JList (case inner of
                                               JDict secs \<Rightarrow> map (legacy_section e) secs
                                             | other \<Rightarrow> []))] n
                | other \<Rightarrow>
                    ensure_question_ids e
                      [(''title'', JStr fallback_name),
                       (''sections'', JList [JDict [(''title'', JStr ''Section''),
                                                    (''questions'', JList [])]])] n)
      | other \<Rightarrow>
          ensure_question_ids e
            [(''title'', JStr fallback_name),
             (''sections'', JList [JDict [(''title'', JStr ''Section''),
                                          (''questions'', JList [])]])] n)"

definition canonical_project_custom_questions ::
    "env \<Rightarrow> json \<Rightarrow> nat \<Rightarrow> error + (dict \<times> nat)" where
  "canonical_project_custom_questions e raw n =
     (case raw of
        JDict d \<Rightarrow>
          if has_key d ''sections'' \<and> has_key d ''title'' then ensure_question_ids e d n
          else ensure_question_ids e [(''title'', JStr ''Custom''), (''sections'', JList [])] n
      | other \<Rightarrow>
          ensure_question_ids e [(''title'', JStr ''Custom''), (''sections'', JList [])] n)"

section \<open>Auto-question helpers (utils.py, main.py)\<close>

definition normalize_label :: "env \<Rightarrow> json \<Rightarrow> string" where
  "normalize_label e label = casefold e (str_join '' '' (split_ws (strip (py_str e label))))"

definition yes_no_word :: "env \<Rightarrow> json \<Rightarrow> json option" where
  "yes_no_word e v =
     (case v of
        JStr s \<Rightarrow>
          (let vv = lower e (strip s) in
           if vv \<in> set [''true'', ''t'', ''1'', ''yes'', ''y''] then Some (JStr ''yes'')
           else if vv \<in> set [''false'', ''f'', ''0'', ''no'', ''n''] then Some (JStr ''no'')
           else None)
      | other \<Rightarrow> None)"

definition normalize_yes_no :: "env \<Rightarrow> json \<Rightarrow> json" where
  "normalize_yes_no e v =
     (if v = JBool True then JStr ''yes''
      else if v = JBool False then JStr ''no''
      else (case yes_no_word e v of
              Some r \<Rightarrow> r
            | None \<Rightarrow>
                if v \<in> set [JInt 0, JInt 1, JFloat 0, JFloat 1]
                then (if v = JInt 1 \<or> v = JFloat 1 then JStr ''yes'' else JStr ''no'')
                else v))"

text \<open>The block both inference functions run on a structured payload.\<close>

definition structured_payload :: "env \<Rightarrow> dict \<Rightarrow> json \<Rightarrow> dict \<times> json" where
  "structured_payload e question raw =
     (case raw of
        JDict meta \<Rightarrow>
          (let qtype = (if truthy (py_get meta ''type'') then py_get meta ''type''
                        else py_get meta ''qtype'');
               val = (if has_key meta ''value'' then py_get meta ''value''
                      else py_get_default meta ''answer'' (JDict meta));
               q1 = (if truthy qtype then dict_set question ''type'' (JStr (py_str e qtype))
                     else question);
               q2 = (case py_get meta ''options'' of
                       JList opts \<Rightarrow> dict_set q1 ''options'' (JList opts)
                     | other \<Rightarrow> q1);
               q3 = (case py_get meta ''value_map'' of
                       JDict vm \<Rightarrow> dict_set q2 ''value_map'' (JDict vm)
                     | other \<Rightarrow> q2)
           in (q3, val))
      | other \<Rightarrow> (question, raw))"

text \<open>utils.py: a date is any string of ten characters (stripped) whose fifth is a hyphen.\<close>

definition date_like :: "string \<Rightarrow> bool" where
  "date_like s = (py_len (strip s) = 10 \<and> chars (strip s) ! 4 = ''-'')"

text \<open>main.py: \<^verbatim>\<open>re.fullmatch(r"\d{4}-\d{2}-\d{2}", raw.strip())\<close>.\<close>

definition date_pattern :: "env \<Rightarrow> string \<Rightarrow> bool" where
  "date_pattern e s =
     (case chars s of
        [y1, y2, y3, y4, h1, m1, m2, h2, d1, d2] \<Rightarrow>
          is_digit e y1 \<and> is_digit e y2 \<and> is_digit e y3 \<and> is_digit e y4 \<and> h1 = ''-''
          \<and> is_digit e m1 \<and> is_digit e m2 \<and> h2 = ''-'' \<and> is_digit e d1 \<and> is_digit e d2
      | other \<Rightarrow> False)"

definition infer_question_from_value :: "env \<Rightarrow> json \<Rightarrow> json \<Rightarrow> nat \<Rightarrow> dict \<times> json" where
  "infer_question_from_value e label raw0 n =
     (let question0 = [(''id'', JStr (uuid4 e n)),
                       (''text'', JStr (strip (py_str e label))),
                       (''required'', JBool False)];
          (question1, raw) = structured_payload e question0 raw0;
          (question, raw1) =
            (if \<not> has_key question1 ''type'' then
               (case raw of
                  JBool b \<Rightarrow> (dict_set question1 ''type'' (JStr ''yes_no''), normalize_yes_no e raw)
                | JInt i \<Rightarrow> (dict_set question1 ''type'' (JStr ''numeric''), raw)
                | JFloat r \<Rightarrow> (dict_set question1 ''type'' (JStr ''numeric''), raw)
                | JStr s \<Rightarrow>
                    if date_like s then (dict_set question1 ''type'' (JStr ''date''), raw)
                    else (dict_set question1 ''type''
                            (JStr (if py_len s > 80 then ''long_text'' else ''short_text'')), raw)
                | other \<Rightarrow> (dict_set question1 ''type'' (JStr ''short_text''), raw))
             else (question1, raw))
      in (question, if py_get question ''type'' = JStr ''yes_no'' then normalize_yes_no e raw1 else raw1))"

definition main_infer_question_from_value :: "env \<Rightarrow> json \<Rightarrow> json \<Rightarrow> nat \<Rightarrow> dict \<times> json" where
  "main_infer_question_from_value e label raw0 n =
     (let q0 = [(''id'', JStr (uuid4 e n)),
                (''text'', JStr (strip (py_str e label))),
                (''required'', JBool False)];
          (q1, raw) = structured_payload e q0 raw0;
          (q, raw1) =
            (if \<not> has_key q1 ''type'' then
               (case raw of
                  JBool b \<Rightarrow> (dict_set q1 ''type'' (JStr ''yes_no''), normalize_yes_no e raw)
                | JInt i \<Rightarrow> (dict_set q1 ''type'' (JStr ''numeric''), raw)
                | JFloat r \<Rightarrow> (dict_set q1 ''type'' (JStr ''numeric''), raw)
                | JStr s \<Rightarrow>
                    if date_pattern e (strip s) then (dict_set q1 ''type'' (JStr ''date''), raw)
                    else (dict_set q1 ''type''
                            (JStr (if py_len s > 80 then ''long_text'' else ''short_text'')), raw)
                | other \<Rightarrow> (dict_set q1 ''type'' (JStr ''short_text''), raw))
             else (q1, raw))
      in (q, if py_get q ''type'' = JStr ''yes_no'' then normalize_yes_no e raw1 else raw1))"


section \<open>Database (models.py)\<close>

text \<open>
  The tables the form engine reads and writes. A row keeps the columns the modelled
  functions use. The state is the committed content of the database: the session is
  created with \<^verbatim>\<open>autoflush=False\<close> (db.py), so a query never sees a change that
  has not been committed or flushed.
\<close>

record question_set =
  qs_id :: nat
  qs_name :: string
  qs_deleted_at :: "nat option"
  qs_data :: json

record project_question_set =
  pqs_id :: nat
  pqs_project_id :: nat
  pqs_question_set_id :: nat
  pqs_position :: int

record project =
  p_id :: nat
  p_name :: string
  p_focalpoint_code :: "int option"
  p_closed :: bool
  p_deleted_at :: "nat option"
  p_custom_questions :: json

record record_row =
  rec_project_id :: nat
  rec_created_by_user_id :: "nat option"
  rec_answers :: dict

record user =
  u_id :: nat
  u_is_admin :: bool

record user_project_access =
  upa_user_id :: nat
  upa_project_id :: nat
  upa_access_type :: string

record db =
  question_sets :: "question_set list"
  project_question_sets :: "project_question_set list"
  projects :: "project list"
  records :: "record_row list"
  accesses :: "user_project_access list"

definition get_project :: "db \<Rightarrow> nat \<Rightarrow> project option" where
  "get_project s project_id = find (\<lambda>p. p_id p = project_id) (projects s)"

definition get_question_set :: "db \<Rightarrow> nat \<Rightarrow> question_set option" where
  "get_question_set s i = find (\<lambda>q. qs_id q = i) (question_sets s)"

definition set_custom_questions :: "db \<Rightarrow> nat \<Rightarrow> json \<Rightarrow> db" where
  "set_custom_questions s project_id cq =
     s\<lparr>projects := map (\<lambda>p. if p_id p = project_id then p\<lparr>p_custom_questions := cq\<rparr> else p)
                       (projects s)\<rparr>"

subsection \<open>Access to a project (crud.py, main.py)\<close>

definition get_user_access :: "db \<Rightarrow> nat \<Rightarrow> nat list \<times> nat list" where
  "get_user_access s user_id =
     (let acc = filter (\<lambda>a. upa_user_id a = user_id) (accesses s)
      in (map upa_project_id (filter (\<lambda>a. upa_access_type a = ''assigned'') acc),
          map upa_project_id (filter (\<lambda>a. upa_access_type a = ''banned'') acc)))"

text \<open>
  The rows \<open>accessible_projects_query\<close> selects (\<open>include_deleted\<close> at its default,
  false). The query also orders them by name; \<open>_require_project_access\<close> adds the
  condition on the primary key, under which at most one row is left.
\<close>

definition accessible_projects_query :: "db \<Rightarrow> nat \<Rightarrow> bool \<Rightarrow> project list" where
  "accessible_projects_query s user_id include_closed =
     (let (assigned, banned) = get_user_access s user_id
      in filter (\<lambda>p. (include_closed \<or> \<not> p_closed p) \<and> p_deleted_at p = None
                       \<and> (assigned = [] \<or> p_id p \<in> set assigned)
                       \<and> (banned = [] \<or> p_id p \<notin> set banned))
           (projects s))"

definition require_project_access ::
    "db \<Rightarrow> user \<Rightarrow> nat \<Rightarrow> bool \<Rightarrow> nat \<Rightarrow> string \<Rightarrow> error + project" where
  "require_project_access s user project_id include_closed on_forbidden_status on_forbidden_detail =
     (case filter (\<lambda>p. p_id p = project_id)
             (accessible_projects_query s (u_id user) include_closed) of
        [] \<Rightarrow> Inl (HTTPException on_forbidden_status on_forbidden_detail)
      | allowed # rest \<Rightarrow> Inr allowed)"

section \<open>Merge engine (crud.py)\<close>

definition em_dash :: string where
  "em_dash = [CHR 0xE2, CHR 0x80, CHR 0x94]"

definition retitle :: "env \<Rightarrow> json \<Rightarrow> dict \<Rightarrow> json" where
  "retitle e prefix sec =
     JDict [(''title'', JStr (py_str e prefix @ '' '' @ em_dash @ '' ''
                              @ py_str e (py_get_default sec ''title'' (JStr ''Section'')))),
            (''questions'', py_get_default sec ''questions'' (JList []))]"

fun as_dict :: "json \<Rightarrow> error + dict" where
  "as_dict (JDict d) = Inr d"
| "as_dict v = Inl AttributeError"

fun retitle_sections :: "env \<Rightarrow> json \<Rightarrow> json list \<Rightarrow> error + json list" where
  "retitle_sections e prefix [] = Inr []"
| "retitle_sections e prefix (sec # secs) =
     rbind (as_dict sec) (\<lambda>s.
     rbind (retitle_sections e prefix secs) (\<lambda>rest. Inr (retitle e prefix s # rest)))"

fun merge_sets :: "env \<Rightarrow> nat \<Rightarrow> json list \<Rightarrow> error + json list" where
  "merge_sets e idx [] = Inr []"
| "merge_sets e idx (sdata # sets) =
     rbind (as_dict sdata) (\<lambda>d.
     rbind (py_iter (py_get_default d ''sections'' (JList []))) (\<lambda>secs.
     rbind (retitle_sections e
              (py_get_default d ''title'' (JStr (''Set '' @ digits (idx + 1)))) secs) (\<lambda>here.
     rbind (merge_sets e (idx + 1) sets) (\<lambda>rest. Inr (here @ rest)))))"

definition project_links :: "db \<Rightarrow> nat \<Rightarrow> project_question_set list" where
  "project_links s project_id =
     sort_key pqs_position
       (filter (\<lambda>l. pqs_project_id l = project_id) (project_question_sets s))"

definition assigned_sets :: "db \<Rightarrow> nat \<Rightarrow> json list" where
  "assigned_sets s project_id =
     concat (map (\<lambda>link. case get_question_set s (pqs_question_set_id link) of
                            Some qs \<Rightarrow> [qs_data qs] | None \<Rightarrow> [])
                 (project_links s project_id))"

definition merged_project_form :: "env \<Rightarrow> db \<Rightarrow> nat \<Rightarrow> nat \<Rightarrow> error + (dict \<times> nat)" where
  "merged_project_form e s project_id n =
     (case get_project s project_id of
        None \<Rightarrow> Inl (HTTPException 404 ''Project not found'')
      | Some p \<Rightarrow>
          rbind (canonical_project_custom_questions e (p_custom_questions p) n) (\<lambda>(custom, n').
          rbind (merge_sets e 0 (assigned_sets s project_id)) (\<lambda>merged_sets.
          rbind (py_iter (py_get_default custom ''sections'' (JList []))) (\<lambda>csecs.
          rbind (retitle_sections e (JStr ''Custom'') csecs) (\<lambda>merged_custom.
            Inr ([(''title'', JStr (p_name p)),
                  (''sections'', JList (merged_sets @ merged_custom))], n'))))))"

text \<open>
  The lookup maps a question id to a dict of five fixed keys; as a value of type
  \<^typ>\<open>dict\<close> its entries are \<open>JDict\<close>s.
\<close>

definition question_info :: "dict \<Rightarrow> json" where
  "question_info q =
     JDict (map (\<lambda>k. (k, py_get q k)) [''text'', ''type'', ''required'', ''options'', ''value_map''])"

fun lookup_questions :: "env \<Rightarrow> json list \<Rightarrow> dict \<Rightarrow> error + dict" where
  "lookup_questions e [] out = Inr out"
| "lookup_questions e (JDict q # qs) out =
     (case map_of q ''id'' of
        None \<Rightarrow> Inl KeyError
      | Some i \<Rightarrow> lookup_questions e qs (dict_set out (py_str e i) (question_info q)))"
| "lookup_questions e (v # qs) out = Inl TypeError"

fun lookup_sections :: "env \<Rightarrow> json list \<Rightarrow> dict \<Rightarrow> error + dict" where
  "lookup_sections e [] out = Inr out"
| "lookup_sections e (sec # secs) out =
     rbind (as_dict sec) (\<lambda>s.
     rbind (py_iter (py_get_default s ''questions'' (JList []))) (\<lambda>qs.
     rbind (lookup_questions e qs out) (\<lambda>out'. lookup_sections e secs out')))"

definition question_lookup_from_form :: "env \<Rightarrow> dict \<Rightarrow> error + dict" where
  "question_lookup_from_form e form =
     rbind (py_iter (py_get_default form ''sections'' (JList []))) (\<lambda>secs.
       lookup_sections e secs [])"

section \<open>Project custom questions (crud.py)\<close>

fun append_to_section :: "string \<Rightarrow> json \<Rightarrow> json list \<Rightarrow> error + json list" where
  "append_to_section section_title q [] =
     Inr [JDict [(''title'', JStr section_title), (''questions'', JList [q])]]"
| "append_to_section section_title q (sec # secs) =
     rbind (as_dict sec) (\<lambda>s.
       if py_get s ''title'' = JStr section_title then
         rbind (if truthy (py_get s ''questions'') then py_iter (py_get s ''questions'') else Inr [])
           (\<lambda>qs. Inr (JDict (dict_set s ''questions'' (JList (qs @ [q]))) # secs))
       else rbind (append_to_section section_title q secs) (\<lambda>rest. Inr (sec # rest)))"

text \<open>The three \<^verbatim>\<open>setdefault\<close> calls of \<open>add_project_custom_question\<close>.\<close>

definition question_with_defaults :: "env \<Rightarrow> dict \<Rightarrow> nat \<Rightarrow> dict" where
  "question_with_defaults e question n =
     dict_setdefault
       (dict_setdefault (dict_setdefault question ''required'' (JBool True))
          ''type'' (JStr ''short_text''))
       ''id'' (JStr (uuid4 e n))"

definition add_project_custom_question ::
    "env \<Rightarrow> db \<Rightarrow> nat \<Rightarrow> string \<Rightarrow> dict \<Rightarrow> nat \<Rightarrow> error + (db \<times> nat)" where
  "add_project_custom_question e s project_id section_title question n =
     (case get_project s project_id of
        None \<Rightarrow> Inl (HTTPException 404 ''Project not found'')
      | Some p \<Rightarrow>
          rbind (canonical_project_custom_questions e (p_custom_questions p) n) (\<lambda>(cq, n').
          rbind (py_iter (py_get_default cq ''sections'' (JList []))) (\<lambda>sections.
          rbind (append_to_section section_title (JDict (question_with_defaults e question n'))
                   sections) (\<lambda>sections'.
            Inr (set_custom_questions s project_id
                   (JDict (dict_set cq ''sections'' (JList sections'))), Suc n')))))"

section \<open>Version registry (crud.py)\<close>

definition next_id :: "question_set list \<Rightarrow> nat" where
  "next_id rows = Suc (fold max (map qs_id rows) 0)"

text \<open>
  The loop of \<open>create_question_set\<close> marks each row for an update or a deletion; the
  query that looks for an assignment to the new version reads the committed table.
\<close>

fun upgrade_rows ::
    "project_question_set list \<Rightarrow> nat \<Rightarrow> project_question_set list \<Rightarrow> error + (nat list \<times> nat list)" where
  "upgrade_rows committed new_id [] = Inr ([], [])"
| "upgrade_rows committed new_id (row # rows) =
     (case filter (\<lambda>l. pqs_project_id l = pqs_project_id row \<and> pqs_question_set_id l = new_id)
             committed of
        [] \<Rightarrow> rbind (upgrade_rows committed new_id rows)
                (\<lambda>(updated, deleted). Inr (pqs_id row # updated, deleted))
      | [exists_new] \<Rightarrow> rbind (upgrade_rows committed new_id rows)
                (\<lambda>(updated, deleted). Inr (updated, pqs_id row # deleted))
      | other \<Rightarrow> Inl MultipleResultsFound)"

text \<open>
  The commit flushes the updates, then the deletions; the unique constraint
  \<^verbatim>\<open>uq_project_question_set\<close> on (project_id, question_set_id) rejects the flush.
\<close>

definition commit_upgrade ::
    "project_question_set list \<Rightarrow> nat \<Rightarrow> nat list \<Rightarrow> nat list \<Rightarrow> error + project_question_set list" where
  "commit_upgrade committed new_id updated deleted =
     (let flushed = map (\<lambda>l. if pqs_id l \<in> set updated then l\<lparr>pqs_question_set_id := new_id\<rparr> else l)
                        committed
      in if distinct (map (\<lambda>l. (pqs_project_id l, pqs_question_set_id l)) flushed)
         then Inr (filter (\<lambda>l. pqs_id l \<notin> set deleted) flushed)
         else Inl IntegrityError)"

definition create_question_set ::
    "env \<Rightarrow> db \<Rightarrow> string \<Rightarrow> json \<Rightarrow> nat \<Rightarrow> (error \<times> db \<times> nat) + (nat \<times> db \<times> nat)" where
  "create_question_set e s name raw_data n =
     (case to_canonical_question_set e raw_data name n of
        Inl err \<Rightarrow> Inl (err, s, n)
      | Inr (canonical, n') \<Rightarrow>
          (let new_id = next_id (question_sets s);
               s1 = s\<lparr>question_sets := question_sets s @
                         [\<lparr>qs_id = new_id, qs_name = name, qs_deleted_at = None,
                           qs_data = JDict canonical\<rparr>]\<rparr>;
               old_ids = map qs_id (filter (\<lambda>q. qs_name q = name \<and> qs_id q \<noteq> new_id
                                                 \<and> qs_deleted_at q = None) (question_sets s1))
           in if old_ids = [] then Inr (new_id, s1, n')
              else
                (case upgrade_rows (project_question_sets s1) new_id
                        (filter (\<lambda>l. pqs_question_set_id l \<in> set old_ids) (project_question_sets s1)) of
                   Inl err \<Rightarrow> Inl (err, s1, n')
                 | Inr (updated, deleted) \<Rightarrow>
                     (case commit_upgrade (project_question_sets s1) new_id updated deleted of
                        Inl err \<Rightarrow> Inl (err, s1, n')
                      | Inr links \<Rightarrow> Inr (new_id, s1\<lparr>project_question_sets := links\<rparr>, n')))))"

section \<open>Answer ingestion (main.py)\<close>

definition auto_fill_one :: "project \<Rightarrow> string \<Rightarrow> json \<Rightarrow> dict \<Rightarrow> dict" where
  "auto_fill_one proj qid qinfo answers =
     (case (case qinfo of JDict qi \<Rightarrow> py_get qi ''auto'' | other \<Rightarrow> JNull) of
        JDict auto \<Rightarrow>
          if py_get auto ''source'' = JStr ''project_name''
          then dict_set answers qid (JStr (p_name proj))
          else if py_get auto ''source'' = JStr ''project_focalpoint_code''
          then (case p_focalpoint_code proj of
                  Some code \<Rightarrow> dict_set answers qid (JInt code)
                | None \<Rightarrow> answers)
          else answers
      | other \<Rightarrow> answers)"

fun auto_fill :: "project \<Rightarrow> dict \<Rightarrow> dict \<Rightarrow> dict" where
  "auto_fill proj [] answers = answers"
| "auto_fill proj ((qid, qinfo) # qlookup) answers =
     auto_fill proj qlookup (auto_fill_one proj qid qinfo answers)"

fun index_labels :: "env \<Rightarrow> dict \<Rightarrow> (string \<times> string) list \<Rightarrow> (string \<times> string) list" where
  "index_labels e [] label_to_qid = label_to_qid"
| "index_labels e ((qid, qinfo) # qlookup) label_to_qid =
     index_labels e qlookup
       (case qinfo of
          JDict qi \<Rightarrow>
            if truthy (py_get qi ''text'')
            then dict_set label_to_qid (normalize_label e (py_get qi ''text'')) qid
            else label_to_qid
        | other \<Rightarrow> label_to_qid)"

record ingest =
  ing_db :: db
  ing_n :: nat
  ing_answers :: dict
  ing_qlookup :: dict
  ing_label_to_qid :: "(string \<times> string) list"

definition existing_qid :: "env \<Rightarrow> (string \<times> string) list \<Rightarrow> json \<Rightarrow> string option" where
  "existing_qid e label_to_qid label =
     (case map_of label_to_qid (normalize_label e label) of
        Some qid \<Rightarrow> if qid \<noteq> [] then Some qid else None
      | None \<Rightarrow> None)"

text \<open>Adding the synthesized question and refreshing the lookup; the answer goes under \<open>key\<close>.\<close>

definition synthesize ::
    "env \<Rightarrow> nat \<Rightarrow> dict \<Rightarrow> string \<Rightarrow> json \<Rightarrow> ingest \<Rightarrow> (error \<times> db \<times> nat) + ingest" where
  "synthesize e project_id qdef key norm_val st =
     (case add_project_custom_question e (ing_db st) project_id ''Auto-created'' qdef (ing_n st) of
        Inl err \<Rightarrow> Inl (err, ing_db st, ing_n st)
      | Inr (s', n1) \<Rightarrow>
          (case merged_project_form e s' project_id n1 of
             Inl err \<Rightarrow> Inl (err, s', n1)
           | Inr (form, n2) \<Rightarrow>
               (case question_lookup_from_form e form of
                  Inl err \<Rightarrow> Inl (err, s', n2)
                | Inr qlookup \<Rightarrow>
                    Inr (st\<lparr>ing_db := s', ing_n := n2,
                            ing_answers := dict_set (ing_answers st) key norm_val,
                            ing_qlookup := qlookup,
                            ing_label_to_qid := index_labels e qlookup (ing_label_to_qid st)\<rparr>))))"

definition has_metadata :: "json \<Rightarrow> bool" where
  "has_metadata raw_val =
     (case raw_val of
        JDict rv \<Rightarrow> truthy (py_get rv ''text'') \<or> truthy (py_get rv ''question'')
      | other \<Rightarrow> False)"

definition unknown_question_detail :: "string \<Rightarrow> string" where
  "unknown_question_detail k =
     ''Unknown question id: '' @ k
     @ ''. Provide question metadata or use a human-readable label as the key.''"

definition resolve_key ::
    "env \<Rightarrow> nat \<Rightarrow> string \<Rightarrow> ingest \<Rightarrow> (error \<times> db \<times> nat) + ingest" where
  "resolve_key e project_id k st0 =
     (case map_of (ing_answers st0) k of
        None \<Rightarrow> Inl (KeyError, ing_db st0, ing_n st0)
      | Some raw_val \<Rightarrow>
          (let st = st0\<lparr>ing_answers := dict_pop (ing_answers st0) k\<rparr> in
           if is_uuid e k \<and> has_metadata raw_val then
             (let rv = (case raw_val of JDict d \<Rightarrow> d | other \<Rightarrow> []);
                  label = (if truthy (py_get rv ''text'') then py_get rv ''text''
                           else py_get rv ''question'');
                  (qdef0, norm_val) =
                     main_infer_question_from_value e label
                       (JDict [(''type'', py_get rv ''type''),
                               (''value'', py_get_default rv ''value'' (py_get rv ''answer''))])
                       (ing_n st);
                  qdef = dict_set qdef0 ''id'' (JStr k);
                  st1 = st\<lparr>ing_n := Suc (ing_n st)\<rparr>
              in case existing_qid e (ing_label_to_qid st) label of
                   Some qid \<Rightarrow> Inr (st1\<lparr>ing_answers := dict_set (ing_answers st1) qid norm_val\<rparr>)
                 | None \<Rightarrow> synthesize e project_id qdef k norm_val st1)
           else if \<not> is_uuid e k then
             (case existing_qid e (ing_label_to_qid st) (JStr k) of
                Some qid \<Rightarrow> Inr (st\<lparr>ing_answers := dict_set (ing_answers st) qid raw_val\<rparr>)
              | None \<Rightarrow>
                  (let (qdef, norm_val) = main_infer_question_from_value e (JStr k) raw_val (ing_n st)
                   in synthesize e project_id qdef (py_str e (py_get qdef ''id'')) norm_val
                        (st\<lparr>ing_n := Suc (ing_n st)\<rparr>)))
           else Inl (HTTPException 400 (unknown_question_detail k), ing_db st, ing_n st)))"

fun resolve_unknown ::
    "env \<Rightarrow> nat \<Rightarrow> string list \<Rightarrow> ingest \<Rightarrow> (error \<times> db \<times> nat) + ingest" where
  "resolve_unknown e project_id [] st = Inr st"
| "resolve_unknown e project_id (k # ks) st =
     (case resolve_key e project_id k st of
        Inl failure \<Rightarrow> Inl failure
      | Inr st' \<Rightarrow> resolve_unknown e project_id ks st')"

definition is_missing :: "dict \<Rightarrow> string \<Rightarrow> bool" where
  "is_missing answers qid =
     (case map_of answers qid of None \<Rightarrow> True | Some v \<Rightarrow> v = JStr [] \<or> v = JNull)"

fun missing_required :: "dict \<Rightarrow> dict \<Rightarrow> error + json list" where
  "missing_required [] answers = Inr []"
| "missing_required ((qid, qinfo) # qlookup) answers =
     rbind (as_dict qinfo) (\<lambda>qi.
     rbind (missing_required qlookup answers) (\<lambda>rest.
       Inr (if truthy (py_get qi ''required'') \<and> is_missing answers qid
            then py_get qi ''text'' # rest else rest)))"

fun is_str :: "json \<Rightarrow> bool" where
  "is_str (JStr s) = True"
| "is_str v = False"

definition join_texts :: "json list \<Rightarrow> error + string" where
  "join_texts xs =
     (if list_all is_str xs then Inr (str_join '', '' (map str_chars xs)) else Inl TypeError)"

definition completeness_check :: "dict \<Rightarrow> dict \<Rightarrow> error + unit" where
  "completeness_check qlookup answers =
     rbind (missing_required qlookup answers) (\<lambda>missing.
       if missing \<noteq> [] then
         rbind (join_texts (take 10 missing)) (\<lambda>joined.
           Inl (HTTPException 400 (''Missing required answers: '' @ joined)))
       else Inr ())"

definition crud_create_record :: "db \<Rightarrow> nat \<Rightarrow> nat option \<Rightarrow> dict \<Rightarrow> db" where
  "crud_create_record s project_id created_by_user_id answers =
     s\<lparr>records := records s @ [\<lparr>rec_project_id = project_id,
                                  rec_created_by_user_id = created_by_user_id,
                                  rec_answers = answers\<rparr>]\<rparr>"

text \<open>
  \<open>create_record\<close> of main.py in parts: the access check, then everything up to the end
  of the loop over the unknown keys (\<open>resolve_answers\<close>; the two together are
  \<open>ingest_answers\<close>), then the completeness check and the insertion. A failure carries
  the state of the database at the moment the exception is raised.
\<close>

definition resolve_answers ::
    "env \<Rightarrow> db \<Rightarrow> nat \<Rightarrow> dict \<Rightarrow> nat \<Rightarrow> (error \<times> db \<times> nat) + ingest" where
  "resolve_answers e s project_id payload n =
     (case merged_project_form e s project_id n of
        Inl err \<Rightarrow> Inl (err, s, n)
      | Inr (form, n1) \<Rightarrow>
          (case question_lookup_from_form e form of
             Inl err \<Rightarrow> Inl (err, s, n1)
           | Inr qlookup \<Rightarrow>
               (let answers = (case get_project s project_id of
                                 Some proj \<Rightarrow> auto_fill proj qlookup payload
                               | None \<Rightarrow> payload);
                    unknown_keys = filter (\<lambda>k. \<not> has_key qlookup k) (map fst answers)
                in resolve_unknown e project_id unknown_keys
                     \<lparr>ing_db = s, ing_n = n1, ing_answers = answers, ing_qlookup = qlookup,
                      ing_label_to_qid = index_labels e qlookup []\<rparr>)))"

definition ingest_answers ::
    "env \<Rightarrow> db \<Rightarrow> user \<Rightarrow> nat \<Rightarrow> dict \<Rightarrow> nat \<Rightarrow> (error \<times> db \<times> nat) + ingest" where
  "ingest_answers e s user project_id payload n =
     (case require_project_access s user project_id (u_is_admin user) 403 ''No access to project'' of
        Inl err \<Rightarrow> Inl (err, s, n)
      | Inr allowed \<Rightarrow> resolve_answers e s project_id payload n)"

definition create_record ::
    "env \<Rightarrow> db \<Rightarrow> user \<Rightarrow> nat \<Rightarrow> dict \<Rightarrow> nat \<Rightarrow> (error \<times> db \<times> nat) + (db \<times> nat)" where
  "create_record e s user project_id payload n =
     (case ingest_answers e s user project_id payload n of
        Inl failure \<Rightarrow> Inl failure
      | Inr st \<Rightarrow>
          (case completeness_check (ing_qlookup st) (ing_answers st) of
             Inl err \<Rightarrow> Inl (err, ing_db st, ing_n st)
           | Inr ok \<Rightarrow>
               Inr (crud_create_record (ing_db st) project_id (Some (u_id user)) (ing_answers st),
                    ing_n st)))"

section \<open>Properties of documents\<close>

text \<open>
  The shape of the pieces \<open>chars\<close> returns: each is a byte followed by continuation
  bytes (\<open>chunk\<close>), and each but the first starts a character (\<open>lead\<close>).
\<close>

definition chunk :: "string \<Rightarrow> bool" where
  "chunk ch = (ch \<noteq> [] \<and> (\<forall>c\<in>set (tl ch). is_cont c))"

definition lead :: "string \<Rightarrow> bool" where
  "lead ch = (chunk ch \<and> \<not> is_cont (hd ch))"

text \<open>
  The predicates in which the properties of the canonicalizer are stated. A value is
  \<open>stripped\<close> when it is a non-empty string without surrounding whitespace;
  \<open>normal_q\<close> describes a question as \<open>normalize_dropdown_options\<close> leaves it; a
  question has \<open>char_array_options\<close> when it is a dropdown whose option list holds two or
  more entries, each a string of at most one character (the shape the canonicalizer takes
  for a string serialised as an array of characters).
\<close>

definition stripped :: "json \<Rightarrow> bool" where
  "stripped x = (\<exists>s. x = JStr s \<and> strip s = s \<and> s \<noteq> [])"

definition opts_ok :: "json \<Rightarrow> bool" where
  "opts_ok v = (case v of JStr s \<Rightarrow> False | JList xs \<Rightarrow> (\<forall>x\<in>set xs. stripped x) | other \<Rightarrow> True)"

definition dropdownish :: "json \<Rightarrow> bool" where
  "dropdownish t = (t = JStr ''dropdown'' \<or> t = JStr ''dropdown_mapped'')"

definition normal_q :: "dict \<Rightarrow> bool" where
  "normal_q q = (\<not> unhashable (py_get q ''type'')
                 \<and> (dropdownish (py_get q ''type'') \<longrightarrow> opts_ok (py_get q ''options''))
                 \<and> (py_get q ''type'' = JStr ''dropdown_mapped'' \<longrightarrow> (\<exists>m. py_get q ''value_map'' = JDict m)))"

definition char_array_options :: "dict \<Rightarrow> bool" where
  "char_array_options q =
     ((py_get q ''type'' = JStr ''dropdown'' \<or> py_get q ''type'' = JStr ''dropdown_mapped'')
      \<and> (case py_get q ''options'' of
            JList opts \<Rightarrow> 2 \<le> length opts \<and> list_all single_char opts
          | other \<Rightarrow> False))"

fun question_dict :: "json \<Rightarrow> dict list" where
  "question_dict (JDict q) = [q]"
| "question_dict v = []"

fun section_questions :: "json \<Rightarrow> dict list" where
  "section_questions (JDict s) =
     (case py_get s ''questions'' of JList qs \<Rightarrow> concat (map question_dict qs) | other \<Rightarrow> [])"
| "section_questions v = []"

definition doc_questions :: "dict \<Rightarrow> dict list" where
  "doc_questions d =
     (case py_get d ''sections'' of JList secs \<Rightarrow> concat (map section_questions secs) | other \<Rightarrow> [])"

fun is_question :: "json \<Rightarrow> bool" where
  "is_question (JDict q) = (\<not> unhashable (py_get q ''type''))"
| "is_question v = False"

fun is_section :: "json \<Rightarrow> bool" where
  "is_section (JDict s) =
     (has_key s ''title'' \<and>
      (case map_of s ''questions'' of Some (JList qs) \<Rightarrow> list_all is_question qs | other \<Rightarrow> False))"
| "is_section v = False"

definition is_canonical :: "dict \<Rightarrow> bool" where
  "is_canonical d =
     (has_key d ''title'' \<and>
      (case map_of d ''sections'' of Some (JList secs) \<Rightarrow> list_all is_section secs | other \<Rightarrow> False))"

definition id_rel :: "env \<Rightarrow> nat \<Rightarrow> nat \<Rightarrow> dict \<Rightarrow> dict \<Rightarrow> bool" where
  "id_rel e lo hi q q' =
     (case map_of q ''id'' of
        Some i \<Rightarrow> map_of q' ''id'' = Some i
      | None \<Rightarrow> (\<exists>k. lo \<le> k \<and> k < hi \<and> map_of q' ''id'' = Some (JStr (uuid4 e k))))"

definition canon_q :: "json \<Rightarrow> bool" where
  "canon_q x = (\<exists>q. x = JDict q \<and> normal_q q \<and> has_key q ''id'')"

definition canon_sec :: "json \<Rightarrow> bool" where
  "canon_sec x = (\<exists>s qs. x = JDict s \<and> map_of s ''questions'' = Some (JList qs) \<and> (\<forall>q\<in>set qs. canon_q q))"

definition canon_doc :: "dict \<Rightarrow> bool" where
  "canon_doc d = (has_key d ''title'' \<and>
                  (\<exists>secs. map_of d ''sections'' = Some (JList secs) \<and> (\<forall>s\<in>set secs. canon_sec s)))"

section \<open>Concrete documents\<close>

text \<open>
  The environment of the worked examples. Its case tables lower the letters A to Z and
  its digits are 0 to 9: what Python does on the strings of the examples, whose
  letters and digits are ASCII.
\<close>

definition ascii_lower_char :: "char \<Rightarrow> char" where
  "ascii_lower_char c = (if c \<in> set ''ABCDEFGHIJKLMNOPQRSTUVWXYZ''
                         then char_of (of_char c + (32::nat)) else c)"

definition ascii_digit :: "string \<Rightarrow> bool" where
  "ascii_digit ch = (ch \<in> set (map (\<lambda>c. [c]) ''0123456789''))"

definition demo_env :: env where
  "demo_env = \<lparr>uuid4 = (\<lambda>n. ''uuid-'' @ digits n), is_uuid = (\<lambda>s. take 5 s = ''uuid-''),
                json_loads = (\<lambda>s. None), py_repr = (\<lambda>v. ''?''),
                lower = map ascii_lower_char, casefold = map ascii_lower_char,
                is_digit = ascii_digit\<rparr>"

definition dropdown_doc :: "json \<Rightarrow> dict" where
  "dropdown_doc opts =
     [(''title'', JStr ''T''),
      (''sections'', JList [JDict [(''title'', JStr ''S''),
         (''questions'', JList [JDict [(''id'', JStr ''q1''), (''text'', JStr ''Pick''),
             (''type'', JStr ''dropdown''), (''options'', opts)]])]])]"

definition inferred :: "env \<Rightarrow> json \<Rightarrow> json \<Rightarrow> nat \<Rightarrow> json \<times> json" where
  "inferred e label raw n =
     (py_get (fst (infer_question_from_value e label raw n)) ''type'',
      snd (infer_question_from_value e label raw n))"

definition main_inferred :: "env \<Rightarrow> json \<Rightarrow> json \<Rightarrow> nat \<Rightarrow> json \<times> json" where
  "main_inferred e label raw n =
     (py_get (fst (main_infer_question_from_value e label raw n)) ''type'',
      snd (main_infer_question_from_value e label raw n))"

definition custom_block :: "db \<Rightarrow> nat \<Rightarrow> dict" where
  "custom_block s project_id =
     (case get_project s project_id of
        Some p \<Rightarrow> (case p_custom_questions p of JDict d \<Rightarrow> d | other \<Rightarrow> [])
      | None \<Rightarrow> [])"

definition demo_question :: dict where
  "demo_question =
     [(''id'', JStr ''q1''), (''text'', JStr ''Project name''), (''type'', JStr ''short_text''),
      (''required'', JBool True), (''auto'', JDict [(''source'', JStr ''project_name'')])]"

definition demo_section :: json where
  "demo_section = JDict [(''title'', JStr ''Main''), (''questions'', JList [JDict demo_question])]"

definition demo_set :: json where
  "demo_set = JDict [(''title'', JStr ''Daily''), (''sections'', JList [demo_section])]"

definition demo_project :: "json \<Rightarrow> project" where
  "demo_project block =
     \<lparr>p_id = 7, p_name = ''Bridge'', p_focalpoint_code = Some 42, p_closed = False,
      p_deleted_at = None, p_custom_questions = block\<rparr>"

definition demo_user :: user where
  "demo_user = \<lparr>u_id = 3, u_is_admin = False\<rparr>"

definition demo_db :: "json \<Rightarrow> db" where
  "demo_db block =
     \<lparr>question_sets = [\<lparr>qs_id = 1, qs_name = ''daily'', qs_deleted_at = None, qs_data = demo_set\<rparr>],
      project_question_sets =
        [\<lparr>pqs_id = 1, pqs_project_id = 7, pqs_question_set_id = 1, pqs_position = 0\<rparr>],
      projects = [demo_project block],
      records = [],
      accesses = [\<lparr>upa_user_id = 3, upa_project_id = 7, upa_access_type = ''assigned''\<rparr>]\<rparr>"

definition custom_doc :: "json list \<Rightarrow> json" where
  "custom_doc secs = JDict [(''title'', JStr ''Custom''), (''sections'', JList secs)]"

definition mood_section :: "string \<Rightarrow> dict \<Rightarrow> json" where
  "mood_section title q = JDict [(''title'', JStr title), (''questions'', JList [JDict q])]"

definition info_entries :: "dict \<Rightarrow> bool" where
  "info_entries ql = (\<forall>kv\<in>set ql. \<exists>q. snd kv = question_info q)"

text \<open>
  The merge as the specification words it: for each assigned version, in position order,
  each of its sections renamed to "version title, dash, section title"; then each section
  of the custom block renamed to "Custom, dash, section title".
\<close>

definition doc_sections :: "json \<Rightarrow> json list" where
  "doc_sections v =
     (case v of
        JDict d \<Rightarrow> (case py_get d ''sections'' of JList secs \<Rightarrow> secs | other \<Rightarrow> [])
      | other \<Rightarrow> [])"

definition doc_title :: "env \<Rightarrow> json \<Rightarrow> string" where
  "doc_title e v = (case v of JDict d \<Rightarrow> py_str e (py_get d ''title'') | other \<Rightarrow> [])"

definition spec_retitle :: "env \<Rightarrow> string \<Rightarrow> json \<Rightarrow> json" where
  "spec_retitle e prefix sec =
     JDict [(''title'', JStr (prefix @ '' '' @ em_dash @ '' '' @ doc_title e sec)),
            (''questions'', (case sec of JDict s \<Rightarrow> py_get s ''questions'' | other \<Rightarrow> JNull))]"

definition spec_merged_sections :: "env \<Rightarrow> json list \<Rightarrow> dict \<Rightarrow> json list" where
  "spec_merged_sections e versions custom =
     concat (map (\<lambda>v. map (spec_retitle e (doc_title e v)) (doc_sections v)) versions)
     @ map (spec_retitle e ''Custom'') (doc_sections (JDict custom))"

definition titled_section :: "json \<Rightarrow> bool" where
  "titled_section sec =
     (case sec of JDict s \<Rightarrow> has_key s ''title'' \<and> has_key s ''questions'' | other \<Rightarrow> False)"

definition titled_doc :: "json \<Rightarrow> bool" where
  "titled_doc v =
     (case v of
        JDict d \<Rightarrow>
          has_key d ''title'' \<and>
          (case map_of d ''sections'' of
             Some (JList secs) \<Rightarrow> list_all titled_section secs
           | other \<Rightarrow> False)
      | other \<Rightarrow> False)"

definition simple_set :: "string \<Rightarrow> json" where
  "simple_set title =
     JDict [(''title'', JStr title),
            (''sections'', JList [JDict [(''title'', JStr ''S''), (''questions'', JList [])]])]"

definition merge_db :: db where
  "merge_db =
     \<lparr>question_sets =
        [\<lparr>qs_id = 1, qs_name = ''a'', qs_deleted_at = None, qs_data = simple_set ''A''\<rparr>,
         \<lparr>qs_id = 2, qs_name = ''b'', qs_deleted_at = None, qs_data = simple_set ''B''\<rparr>],
      project_question_sets =
        [\<lparr>pqs_id = 1, pqs_project_id = 7, pqs_question_set_id = 2, pqs_position = 1\<rparr>,
         \<lparr>pqs_id = 2, pqs_project_id = 7, pqs_question_set_id = 1, pqs_position = 0\<rparr>],
      projects = [demo_project (custom_doc [JDict [(''title'', JStr ''C''), (''questions'', JList [])]])],
      records = [],
      accesses = []\<rparr>"

definition upgrade_db :: db where
  "upgrade_db =
     \<lparr>question_sets =
        [\<lparr>qs_id = 1, qs_name = ''daily'', qs_deleted_at = None, qs_data = simple_set ''v1''\<rparr>,
         \<lparr>qs_id = 2, qs_name = ''daily'', qs_deleted_at = None, qs_data = simple_set ''v2''\<rparr>],
      project_question_sets =
        [\<lparr>pqs_id = 1, pqs_project_id = 7, pqs_question_set_id = 1, pqs_position = 0\<rparr>,
         \<lparr>pqs_id = 2, pqs_project_id = 7, pqs_question_set_id = 2, pqs_position = 1\<rparr>],
      projects = [demo_project (custom_doc [])],
      records = [],
      accesses = []\<rparr>"

definition same_tables :: "db \<Rightarrow> db \<Rightarrow> bool" where
  "same_tables s s' =
     (records s' = records s \<and> question_sets s' = question_sets s
      \<and> project_question_sets s' = project_question_sets s \<and> accesses s' = accesses s)"

definition unanswered :: "dict \<Rightarrow> string \<Rightarrow> bool" where
  "unanswered answers qid =
     (map_of answers qid = None \<or> map_of answers qid = Some (JStr [])
      \<or> map_of answers qid = Some JNull)"

definition violations :: "dict \<Rightarrow> dict \<Rightarrow> json list" where
  "violations qlookup answers =
     concat (map (\<lambda>kv. case snd kv of
                          JDict qi \<Rightarrow>
                            if truthy (py_get qi ''required'') \<and> unanswered answers (fst kv)
                            then [py_get qi ''text''] else []
                        | other \<Rightarrow> [])
                 qlookup)"

definition initial_lookup :: "env \<Rightarrow> db \<Rightarrow> nat \<Rightarrow> nat \<Rightarrow> error + dict" where
  "initial_lookup e s project_id n =
     rbind (merged_project_form e s project_id n) (\<lambda>(form, n1). question_lookup_from_form e form)"

definition all_keys_known :: "env \<Rightarrow> db \<Rightarrow> nat \<Rightarrow> dict \<Rightarrow> nat \<Rightarrow> bool" where
  "all_keys_known e s project_id payload n =
     (case initial_lookup e s project_id n of
        Inl err \<Rightarrow> True
      | Inr qlookup \<Rightarrow> list_all (has_key qlookup) (map fst payload))"

definition demo_ingest :: "dict \<Rightarrow> ingest" where
  "demo_ingest answers =
     \<lparr>ing_db = demo_db (custom_doc []), ing_n = 0, ing_answers = answers,
      ing_qlookup = [(''q1'', question_info demo_question)],
      ing_label_to_qid = [(''project name'', ''q1'')]\<rparr>"

fun has_id :: "json \<Rightarrow> bool" where
  "has_id (JDict q) = has_key q ''id''"
| "has_id v = False"

fun section_has_ids :: "json \<Rightarrow> bool" where
  "section_has_ids (JDict s) =
     (case map_of s ''questions'' of
        None \<Rightarrow> True
      | Some (JList qs) \<Rightarrow> list_all has_id qs
      | Some other \<Rightarrow> False)"
| "section_has_ids v = False"

definition doc_has_ids :: "dict \<Rightarrow> bool" where
  "doc_has_ids d =
     (case map_of d ''sections'' of
        Some (JList secs) \<Rightarrow> list_all section_has_ids secs
      | other \<Rightarrow> False)"

definition block_has_ids :: "json \<Rightarrow> bool" where
  "block_has_ids raw =
     (case raw of
        JDict d \<Rightarrow> if has_key d ''sections'' \<and> has_key d ''title'' then doc_has_ids d else True
      | other \<Rightarrow> True)"

definition project_has_ids :: "db \<Rightarrow> nat \<Rightarrow> bool" where
  "project_has_ids s project_id =
     (case get_project s project_id of
        Some p \<Rightarrow> block_has_ids (p_custom_questions p)
      | None \<Rightarrow> True)"

definition result_of :: "error + ('a \<times> nat) \<Rightarrow> error + 'a" where
  "result_of r = map_sum id fst r"

definition same_form_tables :: "db \<Rightarrow> db \<Rightarrow> bool" where
  "same_form_tables s s' =
     (projects s' = projects s \<and> question_sets s' = question_sets s
      \<and> project_question_sets s' = project_question_sets s \<and> accesses s' = accesses s)"

text \<open>The access check of \<open>create_record\<close> lets the user through.\<close>

definition granted :: "db \<Rightarrow> user \<Rightarrow> nat \<Rightarrow> bool" where
  "granted s user project_id =
     (case require_project_access s user project_id (u_is_admin user) 403 ''No access to project'' of
        Inl err \<Rightarrow> False
      | Inr allowed \<Rightarrow> True)"

definition id_string :: "env \<Rightarrow> dict \<Rightarrow> string" where
  "id_string e q = py_str e (py_get q ''id'')"

definition lookup_step :: "env \<Rightarrow> dict \<Rightarrow> dict \<Rightarrow> dict" where
  "lookup_step e q out = dict_set out (id_string e q) (question_info q)"

definition labelled :: "env \<Rightarrow> string \<Rightarrow> string \<times> json \<Rightarrow> bool" where
  "labelled e lab kv =
     (case snd kv of
        JDict qi \<Rightarrow> truthy (py_get qi ''text'') \<and> normalize_label e (py_get qi ''text'') = lab
      | other \<Rightarrow> False)"

definition kept :: "env \<Rightarrow> dict \<Rightarrow> dict \<Rightarrow> bool" where
  "kept e q q2 = (id_string e q2 = id_string e q \<and> py_get q2 ''text'' = py_get q ''text'')"



text \<open>
  The questions of a stored custom block, as the canonicalizer reads it: a block that is
  not a dict with a title and sections counts as empty.
\<close>

definition block_questions :: "json \<Rightarrow> dict list" where
  "block_questions raw =
     (case raw of
        JDict d \<Rightarrow> if has_key d ''sections'' \<and> has_key d ''title'' then doc_questions d else []
      | other \<Rightarrow> [])"

definition stored_questions :: "db \<Rightarrow> nat \<Rightarrow> dict list" where
  "stored_questions s project_id =
     (case get_project s project_id of
        Some p \<Rightarrow> block_questions (p_custom_questions p)
      | None \<Rightarrow> [])"

definition assigned_questions :: "db \<Rightarrow> nat \<Rightarrow> dict list" where
  "assigned_questions s project_id =
     concat (map section_questions (concat (map doc_sections (assigned_sets s project_id))))"

text \<open>
  A normalized label names a question of the project's stored form: a question of an
  assigned version or of the custom block whose text is not empty and normalizes to it.
\<close>

definition names_label :: "env \<Rightarrow> db \<Rightarrow> nat \<Rightarrow> string \<Rightarrow> bool" where
  "names_label e s project_id lab =
     list_ex (\<lambda>q. truthy (py_get q ''text'') \<and> normalize_label e (py_get q ''text'') = lab)
       (assigned_questions s project_id @ stored_questions s project_id)"

definition names :: "env \<Rightarrow> db \<Rightarrow> nat \<Rightarrow> string \<Rightarrow> bool" where
  "names e s project_id k = names_label e s project_id (normalize_label e (JStr k))"

text \<open>The custom block of \<open>s'\<close> holds every question of the block of \<open>s\<close>, id and text unchanged.\<close>

definition grows :: "env \<Rightarrow> nat \<Rightarrow> db \<Rightarrow> db \<Rightarrow> bool" where
  "grows e project_id s s' =
     (same_tables s s'
      \<and> list_all (\<lambda>q. list_ex (kept e q) (stored_questions s' project_id))
          (stored_questions s project_id))"

definition ing_inv :: "env \<Rightarrow> nat \<Rightarrow> ingest \<Rightarrow> bool" where
  "ing_inv e project_id st =
     (project_has_ids (ing_db st) project_id
      \<and> list_all (\<lambda>kv. names_label e (ing_db st) project_id (fst kv)) (ing_label_to_qid st))"

text \<open>The keys the loop of \<open>create_record\<close> runs over, and the state it starts in.\<close>

definition loop_start :: "env \<Rightarrow> db \<Rightarrow> nat \<Rightarrow> dict \<Rightarrow> nat \<Rightarrow> (string list \<times> ingest) option" where
  "loop_start e s project_id payload n =
     (case merged_project_form e s project_id n of
        Inl err \<Rightarrow> None
      | Inr (form, n1) \<Rightarrow>
          (case question_lookup_from_form e form of
             Inl err \<Rightarrow> None
           | Inr qlookup \<Rightarrow>
               Some (filter (\<lambda>k. \<not> has_key qlookup k) (map fst payload),
                     \<lparr>ing_db = s, ing_n = n1, ing_answers = payload, ing_qlookup = qlookup,
                      ing_label_to_qid = index_labels e qlookup []\<rparr>)))"

text \<open>The question the worked examples synthesize for the label "Mood".\<close>

definition mood_question :: dict where
  "mood_question =
     [(''id'', JStr ''uuid-0''), (''text'', JStr ''Mood''), (''required'', JBool False),
      (''type'', JStr ''short_text'')]"

definition mood_db :: db where
  "mood_db = demo_db (custom_doc [mood_section ''Auto-created'' mood_question])"

definition mood_ingest :: ingest where
  "mood_ingest =
     \<lparr>ing_db = mood_db, ing_n = 3, ing_answers = [(''uuid-0'', JStr ''fine'')],
      ing_qlookup = [(''q1'', question_info demo_question), (''uuid-0'', question_info mood_question)],
      ing_label_to_qid = [(''project name'', ''q1''), (''mood'', ''uuid-0'')]\<rparr>"

section \<open>Basic facts\<close>

lemma rbind_Inr [simp]: "rbind (Inr x) f = f x" by (simp add: rbind_def)

lemma rbind_Inl [simp]: "rbind (Inl x) f = Inl x" by (simp add: rbind_def)

lemma rbind_eq_Inr: "rbind m f = Inr y \<longleftrightarrow> (\<exists>x. m = Inr x \<and> f x = Inr y)"
  by (cases m) simp_all

lemma map_of_dict_set: "map_of (dict_set d k v) = (map_of d)(k \<mapsto> v)"
  by (induction d) (auto simp: fun_eq_iff)

lemma py_get_dict_set: "py_get (dict_set d k v) k' = (if k' = k then v else py_get d k')"
  by (simp add: py_get_def map_of_dict_set)

lemma map_of_dict_setdefault:
  "map_of (dict_setdefault d k v) k' = (if k' = k \<and> map_of d k = None then Some v else map_of d k')"
  by (auto simp: dict_setdefault_def map_add_def split: option.splits)

lemma py_get_dict_setdefault:
  "k' \<noteq> k \<Longrightarrow> py_get (dict_setdefault d k v) k' = py_get d k'"
  by (simp add: py_get_def map_of_dict_setdefault)

lemma dict_set_same: "map_of d k = Some v \<Longrightarrow> dict_set d k v = d"
  by (induction d) (auto split: if_splits)

lemma py_get_dict_set_same: "py_get d k = v \<Longrightarrow> v \<noteq> JNull \<Longrightarrow> dict_set d k v = d"
  by (rule dict_set_same) (auto simp: py_get_def split: option.splits)

lemma dict_setdefault_same: "map_of d k = Some v \<Longrightarrow> dict_setdefault d k w = d"
  by (simp add: dict_setdefault_def)

lemma concat_chars [simp]: "concat (chars s) = s"
  by (induction s) (auto split: list.splits)

lemma chars_eq_Nil [simp]: "chars s = [] \<longleftrightarrow> s = []"
  by (cases s) (auto split: list.splits)

lemma hd_hd_chars: "s \<noteq> [] \<Longrightarrow> hd (hd (chars s)) = hd s"
  by (cases s) (auto split: list.splits)

lemma chars_chunk:
  "\<forall>c\<in>set ts. is_cont c \<Longrightarrow> rest = [] \<or> \<not> is_cont (hd rest) \<Longrightarrow>
   chars (c # ts @ rest) = (c # ts) # chars rest"
proof (induction ts arbitrary: c)
  case Nil
  then show ?case by (cases rest) (auto split: list.splits simp: hd_hd_chars)
next
  case (Cons t ts)
  then have "chars (t # ts @ rest) = (t # ts) # chars rest" by simp
  then show ?case using Cons.prems by simp
qed

lemma chars_concat:
  "list_all chunk cs \<Longrightarrow> list_all lead (tl cs) \<Longrightarrow> chars (concat cs) = cs"
proof (induction cs)
  case Nil
  then show ?case by simp
next
  case (Cons ch cs)
  then obtain c ts where ch: "ch = c # ts" "\<forall>c\<in>set ts. is_cont c"
    by (cases ch) (auto simp: chunk_def)
  have ih: "chars (concat cs) = cs"
    using Cons by (cases cs) (auto simp: lead_def)
  have "concat cs = [] \<or> \<not> is_cont (hd (concat cs))"
  proof (cases cs)
    case Nil
    then show ?thesis by simp
  next
    case (Cons d ds)
    then have "lead d" using \<open>list_all lead (tl (ch # cs))\<close> by simp
    then show ?thesis using Cons by (auto simp: lead_def chunk_def)
  qed
  then show ?case using chars_chunk [OF ch(2), of "concat cs" c] ch ih by simp
qed

lemma chars_shape: "list_all chunk (chars s) \<and> list_all lead (tl (chars s))"
proof (induction s)
  case Nil
  then show ?case by simp
next
  case (Cons c s)
  show ?case
  proof (cases "chars s")
    case Nil
    then show ?thesis by (simp add: chunk_def)
  next
    case (Cons ch chs)
    then obtain d ds where "ch = d # ds" using Cons.IH by (cases ch) (auto simp: chunk_def)
    then show ?thesis using Cons Cons.IH
      by (auto simp: chunk_def lead_def)
  qed
qed

lemma trim_idem: "trim (trim cs) = trim cs"
proof -
  define t where "t = dropWhile is_space cs"
  define u where "u = rev (dropWhile is_space (rev t))"
  have t: "t = u @ rev (takeWhile is_space (rev t))"
    unfolding u_def by (metis rev_append rev_rev_ident takeWhile_dropWhile_id)
  have "dropWhile is_space u = u"
  proof (cases u)
    case Nil
    then show ?thesis by simp
  next
    case (Cons a v)
    then have "t \<noteq> []" using t by auto
    then have "\<not> is_space (hd t)" unfolding t_def by (rule hd_dropWhile)
    moreover have "hd t = a" using t Cons by (metis hd_append2 list.sel(1) list.distinct(1))
    ultimately show ?thesis using Cons by simp
  qed
  moreover have "rev u = dropWhile is_space (rev t)" by (simp add: u_def)
  ultimately have "trim u = u" by (simp add: trim_def u_def)
  then show ?thesis by (simp add: trim_def u_def t_def)
qed

lemma trim_drop_take: "\<exists>i j. trim cs = take j (drop i cs)"
proof -
  have "trim cs = rev (drop (length (takeWhile is_space (rev (dropWhile is_space cs))))
                         (rev (dropWhile is_space cs)))"
    by (simp add: trim_def dropWhile_eq_drop [symmetric])
  also have "\<dots> = take (length (dropWhile is_space cs)
                         - length (takeWhile is_space (rev (dropWhile is_space cs))))
                     (dropWhile is_space cs)"
    by (simp add: rev_drop)
  finally show ?thesis by (metis dropWhile_eq_drop)
qed

lemma list_all_tl_sub:
  assumes "list_all P (tl xs)"
  shows "list_all P (tl (take j (drop i xs)))"
proof -
  have "set (tl (take j (drop i xs))) \<subseteq> set (tl xs)"
  proof (cases i)
    case 0
    then show ?thesis by (cases xs; cases j) (auto dest: in_set_takeD)
  next
    case (Suc k)
    have "set (tl (take j (drop i xs))) \<subseteq> set (take j (drop i xs))"
      by (cases "take j (drop i xs)") auto
    also have "\<dots> \<subseteq> set (drop i xs)" by (rule set_take_subset)
    also have "\<dots> \<subseteq> set (tl xs)" using Suc by (cases xs) (auto dest: in_set_dropD)
    finally show ?thesis .
  qed
  then show ?thesis using assms by (auto simp: list_all_iff)
qed

lemma chars_trim: "chars (concat (trim (chars s))) = trim (chars s)"
proof -
  obtain i j where ij: "trim (chars s) = take j (drop i (chars s))"
    using trim_drop_take by blast
  have "list_all chunk (take j (drop i (chars s)))"
    using chars_shape [of s] by (auto simp: list_all_iff dest: in_set_takeD in_set_dropD)
  moreover have "list_all lead (tl (take j (drop i (chars s))))"
    using chars_shape [of s] by (intro list_all_tl_sub) simp
  ultimately show ?thesis unfolding ij by (rule chars_concat)
qed

lemma strip_idem: "strip (strip s) = strip s"
  by (simp add: strip_def chars_trim trim_idem)

lemma linebreak_space: "is_linebreak c \<Longrightarrow> is_space c"
  by (auto simp: is_linebreak_def is_space_def)

lemma chars_single: "py_len s \<le> 1 \<Longrightarrow> s \<noteq> [] \<Longrightarrow> chars s = [s]"
proof -
  assume a: "py_len s \<le> 1" "s \<noteq> []"
  then obtain ch where ch: "chars s = [ch]"
    by (cases "chars s") (auto simp: py_len_def)
  have "concat [ch] = s" using concat_chars [of s] by (simp only: ch)
  then have "ch = s" by simp
  then show ?thesis using ch by simp
qed

lemma strip_char: "chars s = [s] \<Longrightarrow> strip s = (if is_space s then [] else s)"
  by (simp add: strip_def trim_def)

lemma split_nonempty_lines_char:
  assumes "py_len s \<le> 1" and "s \<noteq> []" and "strip s = s"
  shows "split_nonempty_lines s = [s]"
proof -
  have c: "chars s = [s]" using assms(1,2) by (rule chars_single)
  then have ns: "\<not> is_space s" using assms(2,3) strip_char [OF c] by auto
  then have "\<not> is_linebreak s" using linebreak_space by blast
  then have "splitlines s = [s]" using c by (simp add: splitlines_def)
  then show ?thesis using assms(2,3) by (simp add: split_nonempty_lines_def)
qed

lemma stripped_split_nonempty_lines: "x \<in> set (map JStr (split_nonempty_lines s)) \<Longrightarrow> stripped x"
  by (auto simp: split_nonempty_lines_def stripped_def strip_idem)

lemma stripped_filter:
  "x \<in> set (map JStr (filter (\<lambda>s. s \<noteq> []) (map (\<lambda>x. strip (py_str e x)) opts))) \<Longrightarrow> stripped x"
  by (auto simp: stripped_def strip_idem)

lemma stripped_list_fixed:
  "\<forall>x\<in>set opts. stripped x \<Longrightarrow>
   map JStr (filter (\<lambda>s. s \<noteq> []) (map (\<lambda>x. strip (py_str e x)) opts)) = opts"
  by (induction opts) (auto simp: stripped_def)

lemma opts_ok_normalize_options: "opts_ok (py_get (normalize_options e q) ''options'')"
proof (cases "py_get q ''options''")
  case (JStr s)
  then show ?thesis
    using stripped_split_nonempty_lines
    by (simp add: normalize_options_def py_get_dict_set opts_ok_def)
next
  case (JList opts)
  then show ?thesis
    using stripped_split_nonempty_lines stripped_filter
    by (simp add: normalize_options_def py_get_dict_set opts_ok_def)
qed (simp_all add: normalize_options_def opts_ok_def)

lemma py_get_normalize_options:
  "k \<noteq> ''options'' \<Longrightarrow> py_get (normalize_options e q) k = py_get q k"
  by (cases "py_get q ''options''") (simp_all add: normalize_options_def py_get_dict_set)

lemma py_get_normalize_value_map:
  "k \<noteq> ''value_map'' \<Longrightarrow> py_get (normalize_value_map e q) k = py_get q k"
  by (cases "py_get q ''value_map''")
     (simp_all add: normalize_value_map_def py_get_dict_set split: option.splits json.splits)

lemma value_map_normalize_value_map:
  "\<exists>m. py_get (normalize_value_map e q) ''value_map'' = JDict m"
  by (cases "py_get q ''value_map''")
     (simp_all add: normalize_value_map_def py_get_dict_set split: option.splits json.splits)

lemma normalize_dropdown_options_normal:
  assumes "normalize_dropdown_options e q = Inr q'"
  shows "normal_q q'"
proof -
  let ?t = "py_get q ''type''"
  have h: "\<not> unhashable ?t" using assms by (auto simp: normalize_dropdown_options_def Let_def split: if_splits)
  consider "?t = JStr ''dropdown''" | "?t = JStr ''dropdown_mapped''" | "\<not> dropdownish ?t"
    by (auto simp: dropdownish_def)
  then show ?thesis
  proof cases
    case 1
    then have "q' = normalize_options e q"
      using assms by (simp add: normalize_dropdown_options_def Let_def)
    then show ?thesis using 1 opts_ok_normalize_options [of e q]
      by (simp add: normal_q_def py_get_normalize_options)
  next
    case 2
    then have "q' = normalize_value_map e (normalize_options e q)"
      using assms by (simp add: normalize_dropdown_options_def Let_def)
    then show ?thesis using 2 opts_ok_normalize_options [of e q] value_map_normalize_value_map
      by (simp add: normal_q_def py_get_normalize_options py_get_normalize_value_map)
  next
    case 3
    then have "q' = q"
      using assms h by (simp add: normalize_dropdown_options_def Let_def dropdownish_def)
    then show ?thesis using 3 h by (auto simp: normal_q_def dropdownish_def)
  qed
qed

lemma normalize_options_fixed:
  assumes "opts_ok (py_get q ''options'')" and "\<not> char_array_options q" and "dropdownish (py_get q ''type'')"
  shows "normalize_options e q = q"
proof (cases "py_get q ''options''")
  case (JStr s)
  then show ?thesis using assms by (simp add: opts_ok_def)
next
  case (JList opts)
  have st: "\<forall>x\<in>set opts. stripped x" using assms(1) JList by (simp add: opts_ok_def)
  show ?thesis
  proof (cases "opts \<noteq> [] \<and> list_all single_char opts")
    case True
    then have "length opts < 2" using assms(2,3) JList
      by (auto simp: char_array_options_def dropdownish_def)
    then obtain x where x: "opts = [x]" using True by (cases opts) auto
    then obtain c where c: "x = JStr c" "py_len c \<le> 1" "c \<noteq> []" "strip c = c"
      using st True by (cases x) (auto simp: stripped_def)
    have "normalize_options e q = dict_set q ''options'' (JList opts)"
      using JList True x c by (simp add: normalize_options_def split_nonempty_lines_char)
    then show ?thesis using JList by (simp add: py_get_dict_set_same)
  next
    case False
    then have "\<not> (opts \<noteq> [] \<and> list_all single_char opts)" by simp
    then have "normalize_options e q = dict_set q ''options'' (JList opts)"
      using JList stripped_list_fixed [OF st, of e] by (simp add: normalize_options_def del: de_Morgan_conj)
    then show ?thesis using JList by (simp add: py_get_dict_set_same)
  qed
qed (simp_all add: normalize_options_def)

lemma normalize_value_map_fixed:
  assumes "py_get q ''value_map'' = JDict m"
  shows "normalize_value_map e q = q"
  using assms by (simp add: normalize_value_map_def py_get_dict_set_same)

lemma normalize_dropdown_options_fixed:
  assumes "normal_q q" and "\<not> char_array_options q"
  shows "normalize_dropdown_options e q = Inr q"
proof -
  let ?t = "py_get q ''type''"
  have h: "\<not> unhashable ?t" using assms by (simp add: normal_q_def)
  consider "?t = JStr ''dropdown''" | "?t = JStr ''dropdown_mapped''" | "\<not> dropdownish ?t"
    by (auto simp: dropdownish_def)
  then show ?thesis
  proof cases
    case 1
    then show ?thesis using assms normalize_options_fixed [of q e]
      by (simp add: normalize_dropdown_options_def Let_def normal_q_def dropdownish_def)
  next
    case 2
    then show ?thesis using assms normalize_options_fixed [of q e] normalize_value_map_fixed [of q _ e]
      by (auto simp add: normalize_dropdown_options_def Let_def normal_q_def dropdownish_def)
  next
    case 3
    then show ?thesis using h by (simp add: normalize_dropdown_options_def Let_def dropdownish_def)
  qed
qed

lemma normal_q_setdefault_id: "normal_q (dict_setdefault q ''id'' v) = normal_q q"
  by (simp add: normal_q_def py_get_dict_setdefault)

lemma has_key_setdefault: "has_key (dict_setdefault q k v) k"
  by (simp add: has_key_def map_of_dict_setdefault)

lemma ensure_questions_canon:
  "ensure_questions e qs n = Inr (qs', n') \<Longrightarrow> \<forall>q\<in>set qs'. canon_q q"
proof (induction qs arbitrary: n qs' n')
  case Nil
  then show ?case by simp
next
  case (Cons q qs)
  from Cons.prems obtain d d' rest m where
    d: "py_dict q = Inr d" and d': "normalize_dropdown_options e d = Inr d'"
    and rest: "ensure_questions e qs (Suc n) = Inr (rest, m)"
    and out: "qs' = JDict (dict_setdefault d' ''id'' (JStr (uuid4 e n))) # rest"
    by (auto simp: rbind_eq_Inr)
  have "canon_q (JDict (dict_setdefault d' ''id'' (JStr (uuid4 e n))))"
    using normalize_dropdown_options_normal [OF d']
    by (simp add: canon_q_def normal_q_setdefault_id has_key_setdefault)
  then show ?case using Cons.IH [OF rest] out by simp
qed

lemma ensure_sections_canon:
  "ensure_sections e secs n = Inr (secs', n') \<Longrightarrow> \<forall>s\<in>set secs'. canon_sec s"
proof (induction secs arbitrary: n secs' n')
  case Nil
  then show ?case by simp
next
  case (Cons sec secs)
  from Cons.prems obtain s qs qs' n1 rest m where
    s: "py_dict sec = Inr s"
    and qs: "ensure_questions e qs n = Inr (qs', n1)"
    and rest: "ensure_sections e secs n1 = Inr (rest, m)"
    and out: "secs' = JDict (dict_set s ''questions'' (JList qs')) # rest"
    by (auto simp: rbind_eq_Inr)
  have "canon_sec (JDict (dict_set s ''questions'' (JList qs')))"
    using ensure_questions_canon [OF qs] by (simp add: canon_sec_def map_of_dict_set)
  then show ?case using Cons.IH [OF rest] out by simp
qed

lemma ensure_question_ids_canon:
  assumes "ensure_question_ids e c n = Inr (d, n')"
  shows "canon_doc d"
proof -
  from assms obtain secs secs' where
    secs: "ensure_sections e secs n = Inr (secs', n')"
    and d: "d = dict_setdefault (dict_set c ''sections'' (JList secs')) ''title''
                  (if truthy (py_get (dict_set c ''sections'' (JList secs')) ''name'')
                   then py_get (dict_set c ''sections'' (JList secs')) ''name'' else JStr ''Untitled'')"
    by (auto simp: ensure_question_ids_def rbind_eq_Inr Let_def)
  have "map_of d ''sections'' = Some (JList secs')"
    unfolding d by (simp add: map_of_dict_setdefault map_of_dict_set)
  moreover have "has_key d ''title''" unfolding d by (rule has_key_setdefault)
  ultimately show ?thesis using ensure_sections_canon [OF secs] by (simp add: canon_doc_def)
qed

lemma to_canonical_question_set_canon:
  assumes "to_canonical_question_set e raw fb n = Inr (d, n')"
  shows "canon_doc d"
  using assms ensure_question_ids_canon
  by (auto simp: to_canonical_question_set_def split: json.splits if_splits list.splits prod.splits)

lemma ensure_questions_fixed:
  assumes "\<forall>x\<in>set qs. canon_q x" and "\<forall>q\<in>set (concat (map question_dict qs)). \<not> char_array_options q"
  shows "ensure_questions e qs n = Inr (qs, n + length qs)"
  using assms
proof (induction qs arbitrary: n)
  case Nil
  then show ?case by simp
next
  case (Cons x qs)
  then obtain q where q: "x = JDict q" "normal_q q" "has_key q ''id''"
    by (auto simp: canon_q_def)
  have nc: "\<not> char_array_options q" using Cons.prems(2) q by simp
  have "dict_setdefault q ''id'' (JStr (uuid4 e n)) = q"
    using q(3) by (auto simp: has_key_def dict_setdefault_def)
  moreover have "ensure_questions e qs (Suc n) = Inr (qs, Suc n + length qs)"
    using Cons by simp
  ultimately show ?case
    using q normalize_dropdown_options_fixed [OF q(2) nc, of e] by simp
qed

lemma canon_sec_section_questions:
  "map_of s ''questions'' = Some (JList qs) \<Longrightarrow> section_questions (JDict s) = concat (map question_dict qs)"
  by (simp add: py_get_def)

lemma ensure_sections_fixed:
  assumes "\<forall>x\<in>set secs. canon_sec x" and "\<forall>q\<in>set (concat (map section_questions secs)). \<not> char_array_options q"
  shows "\<exists>m. ensure_sections e secs n = Inr (secs, m)"
  using assms
proof (induction secs arbitrary: n)
  case Nil
  then show ?case by simp
next
  case (Cons x secs)
  then obtain s qs where s: "x = JDict s" "map_of s ''questions'' = Some (JList qs)" "\<forall>q\<in>set qs. canon_q q"
    by (auto simp: canon_sec_def)
  have "set (concat (map question_dict qs)) \<subseteq> set (concat (map section_questions (x # secs)))"
    using canon_sec_section_questions [OF s(2)] s(1) by (simp del: section_questions.simps)
  then have "\<forall>q\<in>set (concat (map question_dict qs)). \<not> char_array_options q"
    using Cons.prems(2) by blast
  then have qs: "ensure_questions e qs n = Inr (qs, n + length qs)"
    using s(3) by (rule ensure_questions_fixed [rotated])
  obtain m where m: "ensure_sections e secs (n + length qs) = Inr (secs, m)"
    using Cons.IH [of "n + length qs"] Cons.prems by auto
  have "dict_set s ''questions'' (JList qs) = s" using s(2) by (rule dict_set_same)
  then show ?case using s qs m by (simp add: py_get_default_def)
qed

lemma ensure_question_ids_fixed:
  assumes "canon_doc d" and "list_all (\<lambda>q. \<not> char_array_options q) (doc_questions d)"
  shows "\<exists>m. ensure_question_ids e d n = Inr (d, m)"
proof -
  from assms(1) obtain secs where
    secs: "map_of d ''sections'' = Some (JList secs)" "\<forall>s\<in>set secs. canon_sec s" and t: "has_key d ''title''"
    by (auto simp: canon_doc_def)
  have "\<forall>q\<in>set (concat (map section_questions secs)). \<not> char_array_options q"
    using assms(2) secs(1) by (simp add: doc_questions_def py_get_def list_all_iff)
  then obtain m where m: "ensure_sections e secs n = Inr (secs, m)"
    using ensure_sections_fixed [OF secs(2), of e n] by auto
  have "dict_set d ''sections'' (JList secs) = d" using secs(1) by (rule dict_set_same)
  moreover have "\<And>v. dict_setdefault d ''title'' v = d"
    using t by (auto simp: has_key_def dict_setdefault_def)
  ultimately show ?thesis using m secs(1)
    by (simp add: ensure_question_ids_def py_get_default_def Let_def)
qed

lemma canon_doc_keys: "canon_doc d \<Longrightarrow> has_key d ''sections'' \<and> has_key d ''title''"
  by (auto simp: canon_doc_def has_key_def)

lemma map_of_normalize_options_id: "map_of (normalize_options e q) ''id'' = map_of q ''id''"
  by (cases "py_get q ''options''") (simp_all add: normalize_options_def map_of_dict_set)

lemma map_of_normalize_value_map_id: "map_of (normalize_value_map e q) ''id'' = map_of q ''id''"
  by (cases "py_get q ''value_map''")
     (simp_all add: normalize_value_map_def map_of_dict_set split: option.splits json.splits)

lemma map_of_normalize_dropdown_options_id:
  "normalize_dropdown_options e q = Inr q' \<Longrightarrow> map_of q' ''id'' = map_of q ''id''"
  by (auto simp: normalize_dropdown_options_def Let_def map_of_normalize_options_id
        map_of_normalize_value_map_id split: if_splits)

lemma normalize_dropdown_options_total:
  "\<not> unhashable (py_get q ''type'') \<Longrightarrow> \<exists>q'. normalize_dropdown_options e q = Inr q'"
  by (simp add: normalize_dropdown_options_def Let_def)

lemma id_rel_mono: "id_rel e lo hi q q' \<Longrightarrow> lo' \<le> lo \<Longrightarrow> hi \<le> hi' \<Longrightarrow> id_rel e lo' hi' q q'"
proof (cases "map_of q ''id''")
  case None
  assume a: "id_rel e lo hi q q'" "lo' \<le> lo" "hi \<le> hi'"
  then obtain k where "lo \<le> k" "k < hi" "map_of q' ''id'' = Some (JStr (uuid4 e k))"
    using None by (auto simp: id_rel_def)
  then have "lo' \<le> k \<and> k < hi' \<and> map_of q' ''id'' = Some (JStr (uuid4 e k))"
    using a by simp
  then show ?thesis using None unfolding id_rel_def by auto
next
  case (Some i)
  assume "id_rel e lo hi q q'"
  then show ?thesis using Some by (simp add: id_rel_def)
qed

lemma ensure_questions_ids:
  assumes "list_all is_question qs"
  shows "\<exists>qs'. ensure_questions e qs n = Inr (qs', n + length qs)
              \<and> list_all2 (id_rel e n (n + length qs))
                  (concat (map question_dict qs)) (concat (map question_dict qs'))"
  using assms
proof (induction qs arbitrary: n)
  case Nil
  then show ?case by simp
next
  case (Cons x qs)
  then obtain q where q: "x = JDict q" "\<not> unhashable (py_get q ''type'')"
    by (cases x) auto
  obtain q' where q': "normalize_dropdown_options e q = Inr q'"
    using normalize_dropdown_options_total [OF q(2)] by blast
  obtain qs' where qs': "ensure_questions e qs (Suc n) = Inr (qs', Suc n + length qs)"
    and rel: "list_all2 (id_rel e (Suc n) (Suc n + length qs))
                (concat (map question_dict qs)) (concat (map question_dict qs'))"
    using Cons.IH [of "Suc n"] Cons.prems by auto
  let ?out = "dict_setdefault q' ''id'' (JStr (uuid4 e n))"
  have "id_rel e n (n + length (x # qs)) q ?out"
    using map_of_normalize_dropdown_options_id [OF q']
    by (auto simp: id_rel_def map_of_dict_setdefault split: option.splits)
  moreover have "list_all2 (id_rel e n (n + length (x # qs)))
                   (concat (map question_dict qs)) (concat (map question_dict qs'))"
    using rel by (rule list_all2_mono) (auto elim: id_rel_mono)
  ultimately show ?case using q q' qs' by simp
qed

lemma ensure_sections_ids:
  assumes "list_all is_section secs"
  shows "\<exists>secs' n'. ensure_sections e secs n = Inr (secs', n') \<and> n \<le> n'
              \<and> list_all2 (id_rel e n n')
                  (concat (map section_questions secs)) (concat (map section_questions secs'))"
  using assms
proof (induction secs arbitrary: n)
  case Nil
  then show ?case by simp
next
  case (Cons x secs)
  then obtain s qs where s: "x = JDict s" "map_of s ''questions'' = Some (JList qs)"
    "list_all is_question qs"
    by (cases x) (auto split: option.splits json.splits)
  obtain qs' where qs': "ensure_questions e qs n = Inr (qs', n + length qs)"
    and rel1: "list_all2 (id_rel e n (n + length qs))
                (concat (map question_dict qs)) (concat (map question_dict qs'))"
    using ensure_questions_ids [OF s(3), of e n] by blast
  obtain secs' n' where secs': "ensure_sections e secs (n + length qs) = Inr (secs', n')"
    and le: "n + length qs \<le> n'"
    and rel2: "list_all2 (id_rel e (n + length qs) n')
                (concat (map section_questions secs)) (concat (map section_questions secs'))"
    using Cons.IH [of "n + length qs"] Cons.prems by auto
  let ?out = "JDict (dict_set s ''questions'' (JList qs'))"
  have a: "section_questions x = concat (map question_dict qs)"
    using s by (simp add: py_get_def)
  have b: "section_questions ?out = concat (map question_dict qs')"
    by (simp add: py_get_dict_set)
  have "list_all2 (id_rel e n n') (section_questions x) (section_questions ?out)"
    unfolding a b using rel1 by (rule list_all2_mono) (use le in \<open>auto elim: id_rel_mono\<close>)
  moreover have "list_all2 (id_rel e n n')
                  (concat (map section_questions secs)) (concat (map section_questions secs'))"
    using rel2 by (rule list_all2_mono) (auto elim: id_rel_mono)
  ultimately have "list_all2 (id_rel e n n')
      (concat (map section_questions (x # secs))) (concat (map section_questions (?out # secs')))"
    by (simp add: list_all2_appendI del: section_questions.simps)
  moreover have "ensure_sections e (x # secs) n = Inr (?out # secs', n')"
    using s qs' secs' by (simp add: py_get_default_def)
  ultimately show ?case using le by (intro exI conjI) (assumption, simp, assumption)
qed

section \<open>Canonicalization\<close>

text \<open>
  C4 (as amended). Whenever canonicalization of an input returns a document in which no
  dropdown question has two or more options that are all single characters, a second
  canonicalization pass (from any position of the identifier stream, with any fallback
  name) returns that same document: ids, titles, options and value maps are unchanged.
\<close>

theorem canonicalize_second_pass_fixed:
  assumes "to_canonical_question_set e raw fallback_name n = Inr (d, n')"
    and "list_all (\<lambda>q. \<not> char_array_options q) (doc_questions d)"
  shows "\<exists>m'. to_canonical_question_set e (JDict d) fallback_name' m = Inr (d, m')"
proof -
  have c: "canon_doc d" using assms(1) by (rule to_canonical_question_set_canon)
  then have "to_canonical_question_set e (JDict d) fallback_name' m = ensure_question_ids e d m"
    using canon_doc_keys [OF c] by (simp add: to_canonical_question_set_def)
  then show ?thesis using ensure_question_ids_fixed [OF c assms(2), of e m] by simp
qed

theorem canonicalize_second_pass_fixed_witness:
  "to_canonical_question_set demo_env
     (JDict (dropdown_doc (JStr (''Red'' @ [CHR 0x0A] @ ''Amber'')))) ''Imported'' 0
     = Inr (dropdown_doc (JList [JStr ''Red'', JStr ''Amber'']), 1)
   \<and> list_all (\<lambda>q. \<not> char_array_options q)
        (doc_questions (dropdown_doc (JList [JStr ''Red'', JStr ''Amber''])))
   \<and> (\<exists>m'. to_canonical_question_set demo_env
              (JDict (dropdown_doc (JList [JStr ''Red'', JStr ''Amber'']))) ''Other'' 7
            = Inr (dropdown_doc (JList [JStr ''Red'', JStr ''Amber'']), m'))"
proof -
  have a: "to_canonical_question_set demo_env
             (JDict (dropdown_doc (JStr (''Red'' @ [CHR 0x0A] @ ''Amber'')))) ''Imported'' 0
           = Inr (dropdown_doc (JList [JStr ''Red'', JStr ''Amber'']), 1)"
    by code_simp
  have b: "list_all (\<lambda>q. \<not> char_array_options q)
             (doc_questions (dropdown_doc (JList [JStr ''Red'', JStr ''Amber''])))"
    by code_simp
  from canonicalize_second_pass_fixed [OF a b, of "''Other''" 7] show ?thesis
    using a b by blast
qed

text \<open>
  C4 as stated fails: the options string "1\<newline>2" canonicalizes to the list \<open>["1", "2"]\<close>,
  which a second pass takes for an array of characters and collapses to \<open>["12"]\<close>.
\<close>

theorem canonicalize_not_idempotent:
  "to_canonical_question_set demo_env
     (JDict (dropdown_doc (JStr [CHR ''1'', CHR 0x0A, CHR ''2'']))) ''Imported'' 0
     = Inr (dropdown_doc (JList [JStr ''1'', JStr ''2'']), 1)
   \<and> to_canonical_question_set demo_env
       (JDict (dropdown_doc (JList [JStr ''1'', JStr ''2'']))) ''Imported'' 1
     = Inr (dropdown_doc (JList [JStr ''12'']), 2)
   \<and> dropdown_doc (JList [JStr ''12'']) \<noteq> dropdown_doc (JList [JStr ''1'', JStr ''2''])"
  by code_simp

text \<open>
  The same happens with characters outside ASCII: the options "\<checkmark>" and "\<times>", one
  character of three bytes and one of two, are taken for an array of characters.
\<close>

lemma canonicalize_collapses_symbols:
  "char_array_options
     [(''type'', JStr ''dropdown''),
      (''options'', JList [JStr [CHR 0xE2, CHR 0x9C, CHR 0x93], JStr [CHR 0xC3, CHR 0x97]])]
   \<and> to_canonical_question_set demo_env
       (JDict (dropdown_doc (JList [JStr [CHR 0xE2, CHR 0x9C, CHR 0x93], JStr [CHR 0xC3, CHR 0x97]])))
       ''Imported'' 0
     = Inr (dropdown_doc (JList [JStr [CHR 0xE2, CHR 0x9C, CHR 0x93, CHR 0xC3, CHR 0x97]]), 1)"
  by code_simp

text \<open>
  C5. Canonicalizing an already-canonical document (a title and a list of sections, each
  with a title and a list of question objects) returns a document whose questions are, in
  order, those of the input with every id that was present unchanged; a question without
  an id receives one drawn from the identifier stream during this call.
\<close>

theorem canonicalize_keeps_ids:
  assumes "is_canonical d"
  shows "\<exists>d' n'. to_canonical_question_set e (JDict d) fallback_name n = Inr (d', n')
                \<and> list_all2 (id_rel e n n') (doc_questions d) (doc_questions d')"
proof -
  from assms obtain secs where t: "has_key d ''title''"
    and secs: "map_of d ''sections'' = Some (JList secs)" "list_all is_section secs"
    by (auto simp: is_canonical_def split: option.splits json.splits)
  obtain secs' n' where run: "ensure_sections e secs n = Inr (secs', n')"
    and rel: "list_all2 (id_rel e n n')
                (concat (map section_questions secs)) (concat (map section_questions secs'))"
    using ensure_sections_ids [OF secs(2), of e n] by blast
  let ?c1 = "dict_set d ''sections'' (JList secs')"
  let ?d' = "dict_setdefault ?c1 ''title''
               (if truthy (py_get ?c1 ''name'') then py_get ?c1 ''name'' else JStr ''Untitled'')"
  have "to_canonical_question_set e (JDict d) fallback_name n = ensure_question_ids e d n"
    using t secs(1) by (simp add: to_canonical_question_set_def has_key_def)
  also have "\<dots> = Inr (?d', n')"
    using run secs(1) by (simp add: ensure_question_ids_def py_get_default_def Let_def)
  finally have res: "to_canonical_question_set e (JDict d) fallback_name n = Inr (?d', n')" .
  have "py_get ?d' ''sections'' = JList secs'"
    by (simp add: py_get_dict_setdefault py_get_dict_set)
  then have "doc_questions ?d' = concat (map section_questions secs')"
    by (simp add: doc_questions_def)
  moreover have "doc_questions d = concat (map section_questions secs)"
    using secs(1) by (simp add: doc_questions_def py_get_def)
  ultimately show ?thesis using res rel by auto
qed

theorem canonicalize_keeps_ids_witness:
  "is_canonical (dropdown_doc (JList [JStr ''1'', JStr ''2'']))
   \<and> (\<exists>d' n'. to_canonical_question_set demo_env
                  (JDict (dropdown_doc (JList [JStr ''1'', JStr ''2'']))) ''Imported'' 0 = Inr (d', n')
              \<and> list_all2 (id_rel demo_env 0 n')
                   (doc_questions (dropdown_doc (JList [JStr ''1'', JStr ''2''])))
                   (doc_questions d'))"
proof -
  have a: "is_canonical (dropdown_doc (JList [JStr ''1'', JStr ''2'']))"
    by code_simp
  from canonicalize_keeps_ids [OF a, of demo_env "''Imported''" 0] show ?thesis
    using a by blast
qed

section \<open>Type inference\<close>

lemma date_pattern_date_like: "date_pattern e (strip s) \<Longrightarrow> date_like s"
  by (auto simp: date_pattern_def date_like_def py_len_def split: list.splits)

lemma normalize_yes_no_bool: "normalize_yes_no e (JBool b) = JStr (if b then ''yes'' else ''no'')"
  by (simp add: normalize_yes_no_def)

lemma strip_words: "strip ''yes'' = ''yes''" "strip ''no'' = ''no''"
  by code_simp+

lemma normalize_yes_no_fixed:
  "lower e ''yes'' = ''yes'' \<Longrightarrow> normalize_yes_no e (JStr ''yes'') = JStr ''yes''"
  "lower e ''no'' = ''no'' \<Longrightarrow> normalize_yes_no e (JStr ''no'') = JStr ''no''"
  by (simp_all add: normalize_yes_no_def yes_no_word_def Let_def strip_words)

lemmas infer_defs = inferred_def main_inferred_def infer_question_from_value_def
  main_infer_question_from_value_def structured_payload_def Let_def has_key_def py_get_def
  normalize_yes_no_bool

lemma inferred_bool:
  assumes "lower e ''yes'' = ''yes''" and "lower e ''no'' = ''no''"
  shows "inferred e label (JBool b) n = (JStr ''yes_no'', JStr (if b then ''yes'' else ''no''))"
    and "main_inferred e label (JBool b) n = (JStr ''yes_no'', JStr (if b then ''yes'' else ''no''))"
  using assms by (simp_all add: infer_defs normalize_yes_no_fixed)

lemma inferred_number:
  "inferred e label (JInt i) n = (JStr ''numeric'', JInt i)"
  "inferred e label (JFloat r) n = (JStr ''numeric'', JFloat r)"
  "main_inferred e label (JInt i) n = (JStr ''numeric'', JInt i)"
  "main_inferred e label (JFloat r) n = (JStr ''numeric'', JFloat r)"
  by (simp_all add: infer_defs)

lemma inferred_date:
  "date_pattern e (strip s) \<Longrightarrow> inferred e label (JStr s) n = (JStr ''date'', JStr s)"
  "date_pattern e (strip s) \<Longrightarrow> main_inferred e label (JStr s) n = (JStr ''date'', JStr s)"
  using date_pattern_date_like [of e s] by (simp_all add: infer_defs)

lemma inferred_text:
  "\<not> date_like s \<Longrightarrow> inferred e label (JStr s) n
      = (JStr (if 80 < py_len s then ''long_text'' else ''short_text''), JStr s)"
  "\<not> date_like s \<Longrightarrow> main_inferred e label (JStr s) n
      = (JStr (if 80 < py_len s then ''long_text'' else ''short_text''), JStr s)"
  using date_pattern_date_like [of e s] by (auto simp add: infer_defs)

lemma inferred_other:
  "inferred e label JNull n = (JStr ''short_text'', JNull)"
  "inferred e label (JList xs) n = (JStr ''short_text'', JList xs)"
  "main_inferred e label JNull n = (JStr ''short_text'', JNull)"
  "main_inferred e label (JList xs) n = (JStr ''short_text'', JList xs)"
  by (simp_all add: infer_defs)

lemma normalize_yes_no_words:
  "lower e (strip s) \<in> set [''true'', ''t'', ''1'', ''yes'', ''y''] \<Longrightarrow> normalize_yes_no e (JStr s) = JStr ''yes''"
  "lower e (strip s) \<in> set [''false'', ''f'', ''0'', ''no'', ''n''] \<Longrightarrow> normalize_yes_no e (JStr s) = JStr ''no''"
  "normalize_yes_no e (JInt 1) = JStr ''yes''"
  "normalize_yes_no e (JInt 0) = JStr ''no''"
  by (auto simp add: normalize_yes_no_def yes_no_word_def Let_def)

text \<open>
  C7 (as amended). Type inference on a value without a type override: a boolean gives
  \<open>yes_no\<close> with the value \<open>"yes"\<close> or \<open>"no"\<close>; an int or a float gives \<open>numeric\<close>; a string
  that matches YYYY-MM-DD once surrounding whitespace is stripped gives \<open>date\<close>; a string
  whose stripped form does not have ten characters with a hyphen in fifth place gives
  \<open>long_text\<close> when it has more than 80 characters and \<open>short_text\<close> otherwise; null and
  lists give \<open>short_text\<close>. Normalization to yes/no accepts the words true, t, 1, yes, y and
  false, f, 0, no, n in any case and with surrounding whitespace, and the integers 1 and 0.
  Both copies of the inference function (utils.py and main.py) satisfy this. Lengths and
  positions count characters; whitespace is Unicode whitespace; lower-casing and the
  digits of the pattern are those of the environment, of which the statement on booleans
  uses that the words \<open>yes\<close> and \<open>no\<close> are already in lower case.
\<close>

theorem infer_question_from_value_types:
  "(lower e ''yes'' = ''yes'' \<and> lower e ''no'' = ''no'' \<longrightarrow>
      inferred e label (JBool b) n = (JStr ''yes_no'', JStr (if b then ''yes'' else ''no''))
      \<and> main_inferred e label (JBool b) n = (JStr ''yes_no'', JStr (if b then ''yes'' else ''no'')))
   \<and> inferred e label (JInt i) n = (JStr ''numeric'', JInt i)
   \<and> main_inferred e label (JInt i) n = (JStr ''numeric'', JInt i)
   \<and> inferred e label (JFloat r) n = (JStr ''numeric'', JFloat r)
   \<and> main_inferred e label (JFloat r) n = (JStr ''numeric'', JFloat r)
   \<and> (date_pattern e (strip s_date) \<longrightarrow>
        inferred e label (JStr s_date) n = (JStr ''date'', JStr s_date)
        \<and> main_inferred e label (JStr s_date) n = (JStr ''date'', JStr s_date))
   \<and> (\<not> date_like s_text \<longrightarrow>
        inferred e label (JStr s_text) n
          = (JStr (if 80 < py_len s_text then ''long_text'' else ''short_text''), JStr s_text)
        \<and> main_inferred e label (JStr s_text) n
          = (JStr (if 80 < py_len s_text then ''long_text'' else ''short_text''), JStr s_text))
   \<and> inferred e label JNull n = (JStr ''short_text'', JNull)
   \<and> main_inferred e label JNull n = (JStr ''short_text'', JNull)
   \<and> inferred e label (JList xs) n = (JStr ''short_text'', JList xs)
   \<and> main_inferred e label (JList xs) n = (JStr ''short_text'', JList xs)
   \<and> (lower e (strip s_yes) \<in> set [''true'', ''t'', ''1'', ''yes'', ''y''] \<longrightarrow>
        normalize_yes_no e (JStr s_yes) = JStr ''yes'')
   \<and> (lower e (strip s_no) \<in> set [''false'', ''f'', ''0'', ''no'', ''n''] \<longrightarrow>
        normalize_yes_no e (JStr s_no) = JStr ''no'')
   \<and> normalize_yes_no e (JInt 1) = JStr ''yes''
   \<and> normalize_yes_no e (JInt 0) = JStr ''no''"
  using inferred_bool [of e label b n] inferred_number inferred_date inferred_text inferred_other
    normalize_yes_no_words(1) [of e s_yes] normalize_yes_no_words(2) [of e s_no]
    normalize_yes_no_words(3,4)
  by (intro conjI impI) (simp_all del: set_simps)

text \<open>
  The witness: a boolean; a date followed by a no-break space (U+00A0), which stripping
  removes; 81 letters, long; 27 em dashes, which are 27 characters in 81 bytes, short;
  and the words " Yes " and "N".
\<close>

theorem infer_question_from_value_types_witness:
  "lower demo_env ''yes'' = ''yes'' \<and> lower demo_env ''no'' = ''no''
   \<and> inferred demo_env (JStr ''Done'') (JBool True) 0 = (JStr ''yes_no'', JStr ''yes'')
   \<and> date_pattern demo_env (strip (''2025-03-01'' @ [CHR 0xC2, CHR 0xA0]))
   \<and> inferred demo_env (JStr ''Deadline'') (JStr (''2025-03-01'' @ [CHR 0xC2, CHR 0xA0])) 0
        = (JStr ''date'', JStr (''2025-03-01'' @ [CHR 0xC2, CHR 0xA0]))
   \<and> \<not> date_like (replicate 81 CHR ''x'')
   \<and> inferred demo_env (JStr ''Notes'') (JStr (replicate 81 CHR ''x'')) 0
        = (JStr ''long_text'', JStr (replicate 81 CHR ''x''))
   \<and> \<not> date_like (concat (replicate 27 em_dash))
   \<and> main_inferred demo_env (JStr ''Rule'') (JStr (concat (replicate 27 em_dash))) 0
        = (JStr ''short_text'', JStr (concat (replicate 27 em_dash)))
   \<and> lower demo_env (strip '' Yes '') \<in> set [''true'', ''t'', ''1'', ''yes'', ''y'']
   \<and> normalize_yes_no demo_env (JStr '' Yes '') = JStr ''yes''
   \<and> lower demo_env (strip ''N'') \<in> set [''false'', ''f'', ''0'', ''no'', ''n'']
   \<and> normalize_yes_no demo_env (JStr ''N'') = JStr ''no''"
proof -
  let ?d = "''2025-03-01'' @ [CHR 0xC2, CHR 0xA0]"
  let ?x = "replicate 81 CHR ''x''"
  let ?m = "concat (replicate 27 em_dash)"
  have w: "lower demo_env ''yes'' = ''yes''" "lower demo_env ''no'' = ''no''" by code_simp+
  have a: "date_pattern demo_env (strip ?d)" by code_simp
  have b: "\<not> date_like ?x" "\<not> date_like ?m" by code_simp+
  have c: "lower demo_env (strip '' Yes '') \<in> set [''true'', ''t'', ''1'', ''yes'', ''y'']" by code_simp
  have d: "lower demo_env (strip ''N'') \<in> set [''false'', ''f'', ''0'', ''no'', ''n'']" by code_simp
  have len: "80 < py_len ?x" "\<not> 80 < py_len ?m" by code_simp+
  note t = infer_question_from_value_types
             [of demo_env _ True 0 0 0 ?d _ "[]" "'' Yes ''" "''N''"]
  from t [of "JStr ''Done''" ?x] t [of "JStr ''Deadline''" ?x] t [of "JStr ''Notes''" ?x]
       t [of "JStr ''Rule''" ?m]
  show ?thesis using w a b c d len
    by (simp del: set_simps replicate.simps length_replicate concat.simps)
qed

text \<open>
  C7 as stated fails on a padded date: the eleven characters " 2025-03-01" do not match
  the pattern YYYY-MM-DD and are not more than 80, yet both inference functions strip
  the string before testing it and answer \<open>date\<close>, not \<open>short_text\<close>.
\<close>

theorem infer_padded_date:
  "inferred demo_env (JStr ''Deadline'') (JStr '' 2025-03-01'') 0 = (JStr ''date'', JStr '' 2025-03-01'')
   \<and> main_inferred demo_env (JStr ''Deadline'') (JStr '' 2025-03-01'') 0
       = (JStr ''date'', JStr '' 2025-03-01'')
   \<and> \<not> date_pattern demo_env '' 2025-03-01''
   \<and> py_len '' 2025-03-01'' \<le> 80"
  by code_simp

text \<open>
  The two copies differ on strings of ten characters with a hyphen in fifth place that
  are not dates: utils.py answers \<open>date\<close>, main.py (the one the endpoint calls) answers
  \<open>short_text\<close>.
\<close>

lemma infer_copies_differ:
  "inferred demo_env (JStr ''Deadline'') (JStr ''abcd-efghi'') 0 = (JStr ''date'', JStr ''abcd-efghi'')
   \<and> main_inferred demo_env (JStr ''Deadline'') (JStr ''abcd-efghi'') 0
       = (JStr ''short_text'', JStr ''abcd-efghi'')"
  by code_simp

section \<open>Synthesized questions and the required flag\<close>

lemma py_get_structured_payload:
  "k \<noteq> ''type'' \<Longrightarrow> k \<noteq> ''options'' \<Longrightarrow> k \<noteq> ''value_map'' \<Longrightarrow>
   py_get (fst (structured_payload e q raw)) k = py_get q k"
  by (cases raw) (simp_all add: structured_payload_def Let_def py_get_dict_set split: json.splits)

lemma infer_question_shape:
  "\<exists>t. fst (infer_question_from_value e label raw n) =
         (let q1 = fst (structured_payload e
                          [(''id'', JStr (uuid4 e n)), (''text'', JStr (strip (py_str e label))),
                           (''required'', JBool False)] raw)
          in if has_key q1 ''type'' then q1 else dict_set q1 ''type'' (JStr t))"
  by (cases "structured_payload e
                [(''id'', JStr (uuid4 e n)), (''text'', JStr (strip (py_str e label))),
                 (''required'', JBool False)] raw")
     (auto simp: infer_question_from_value_def Let_def split: json.splits)

lemma main_infer_question_shape:
  "\<exists>t. fst (main_infer_question_from_value e label raw n) =
         (let q1 = fst (structured_payload e
                          [(''id'', JStr (uuid4 e n)), (''text'', JStr (strip (py_str e label))),
                           (''required'', JBool False)] raw)
          in if has_key q1 ''type'' then q1 else dict_set q1 ''type'' (JStr t))"
  by (cases "structured_payload e
                [(''id'', JStr (uuid4 e n)), (''text'', JStr (strip (py_str e label))),
                 (''required'', JBool False)] raw")
     (auto simp: main_infer_question_from_value_def Let_def split: json.splits)

lemma inferred_required:
  "py_get (fst (infer_question_from_value e label raw n)) ''required'' = JBool False"
  "py_get (fst (main_infer_question_from_value e label raw n)) ''required'' = JBool False"
  using infer_question_shape [of e label raw n] main_infer_question_shape [of e label raw n]
  by (auto simp: Let_def py_get_dict_set py_get_structured_payload split: if_splits)
     (simp_all add: py_get_def)

lemma inferred_text_field:
  "py_get (fst (main_infer_question_from_value e label raw n)) ''text'' = JStr (strip (py_str e label))"
  using main_infer_question_shape [of e label raw n]
  by (auto simp: Let_def py_get_dict_set py_get_structured_payload split: if_splits)
     (simp_all add: py_get_def)


lemma find_map_update:
  "find (\<lambda>p. p_id p = i) ps = Some p \<Longrightarrow>
   find (\<lambda>p. p_id p = i) (map (\<lambda>p. if p_id p = i then p\<lparr>p_custom_questions := cq\<rparr> else p) ps)
     = Some (p\<lparr>p_custom_questions := cq\<rparr>)"
  by (induction ps) (auto split: if_splits)

lemma get_project_set_custom_questions:
  "get_project s i = Some p \<Longrightarrow>
   get_project (set_custom_questions s i cq) i = Some (p\<lparr>p_custom_questions := cq\<rparr>)"
  by (simp add: get_project_def set_custom_questions_def find_map_update)

lemma custom_block_set_custom_questions:
  "get_project s i = Some p \<Longrightarrow> custom_block (set_custom_questions s i (JDict d)) i = d"
  by (simp add: custom_block_def get_project_set_custom_questions)

lemma append_to_section_mem:
  "append_to_section t (JDict q) secs = Inr secs' \<Longrightarrow>
   q \<in> set (concat (map section_questions secs'))"
proof (induction secs arbitrary: secs')
  case Nil
  then show ?case by (auto simp: py_get_def)
next
  case (Cons sec secs)
  from Cons.prems obtain s where s: "sec = JDict s" by (cases sec) auto
  show ?case
  proof (cases "py_get s ''title'' = JStr t")
    case True
    then obtain qs where "secs' = JDict (dict_set s ''questions'' (JList (qs @ [JDict q]))) # secs"
      using Cons.prems s by (auto simp: rbind_eq_Inr split: if_splits intro: that [of "[]", simplified])
    then show ?thesis by (simp add: py_get_dict_set)
  next
    case False
    then obtain rest where "append_to_section t (JDict q) secs = Inr rest" "secs' = sec # rest"
      using Cons.prems s by (auto simp: rbind_eq_Inr)
    then show ?thesis using Cons.IH by simp
  qed
qed

lemma add_project_custom_question_stores:
  assumes "add_project_custom_question e s i t question n = Inr (s', n')"
  shows "\<exists>m. question_with_defaults e question m \<in> set (doc_questions (custom_block s' i))"
proof -
  from assms obtain p where p: "get_project s i = Some p"
    by (auto simp: add_project_custom_question_def split: option.splits)
  from assms p obtain cq m secs secs' where
    app: "append_to_section t (JDict (question_with_defaults e question m)) secs = Inr secs'"
    and s': "s' = set_custom_questions s i (JDict (dict_set cq ''sections'' (JList secs')))"
    by (auto simp: add_project_custom_question_def rbind_eq_Inr)
  have "doc_questions (custom_block s' i) = concat (map section_questions secs')"
    unfolding s' by (simp add: custom_block_set_custom_questions [OF p] doc_questions_def py_get_dict_set)
  then show ?thesis using append_to_section_mem [OF app] by auto
qed

lemma question_with_defaults_required:
  "py_get (question_with_defaults e question m) ''required''
     = (if has_key question ''required'' then py_get question ''required'' else JBool True)"
  by (auto simp: question_with_defaults_def py_get_def has_key_def map_of_dict_setdefault
           split: option.splits)

lemma missing_required_skip:
  "py_get q ''required'' = JBool False \<Longrightarrow>
   missing_required ((qid, question_info q) # ql) answers = missing_required ql answers"
  by (cases "missing_required ql answers") (simp_all add: question_info_def py_get_def)

lemma has_key_required_inferred:
  "has_key (fst (main_infer_question_from_value e label raw n)) ''required''"
  using inferred_required(2) [of e label raw n] by (auto simp: py_get_def has_key_def split: option.splits)

text \<open>
  C10. Every question definition built by type inference (either copy of the inference
  function) has \<open>required = False\<close>, and keeps it when it is stored, since the add
  operation only sets \<open>required\<close> when it is absent; a lookup entry whose \<open>required\<close> is
  \<open>False\<close> contributes nothing to the list of missing answers. A question passed to the
  add operation without a \<open>required\<close> field is stored with \<open>required = True\<close>; the
  stored question is the one given, completed with the defaults.
\<close>

theorem synthesized_questions_optional:
  "py_get (fst (infer_question_from_value e label raw n)) ''required'' = JBool False
   \<and> py_get (fst (main_infer_question_from_value e label raw n)) ''required'' = JBool False
   \<and> py_get (question_with_defaults e (fst (main_infer_question_from_value e label raw n)) m)
        ''required'' = JBool False
   \<and> (py_get q ''required'' = JBool False \<longrightarrow>
        missing_required ((qid, question_info q) # ql) answers = missing_required ql answers)
   \<and> (\<not> has_key question ''required'' \<longrightarrow>
        py_get (question_with_defaults e question m) ''required'' = JBool True)
   \<and> (add_project_custom_question e s i t question m = Inr (s', m') \<longrightarrow>
        (\<exists>k. question_with_defaults e question k \<in> set (doc_questions (custom_block s' i))))"
  using inferred_required [of e label raw n] has_key_required_inferred [of e label raw n]
    add_project_custom_question_stores [of e s i t question m s' m']
    missing_required_skip [of q qid ql answers]
  by (auto simp: question_with_defaults_required simp del: missing_required.simps)


theorem synthesized_questions_optional_witness:
  "py_get [(''text'', JStr ''Mood''), (''required'', JBool False)] ''required'' = JBool False
   \<and> missing_required
        [(''q9'', question_info [(''text'', JStr ''Mood''), (''required'', JBool False)])] [] = Inr []
   \<and> \<not> has_key [(''text'', JStr ''Mood'')] ''required''
   \<and> py_get (question_with_defaults demo_env [(''text'', JStr ''Mood'')] 0) ''required'' = JBool True
   \<and> add_project_custom_question demo_env (demo_db (custom_doc [])) 7 ''Custom''
         [(''text'', JStr ''Mood'')] 0
       = Inr (demo_db (custom_doc [mood_section ''Custom''
                 [(''text'', JStr ''Mood''), (''required'', JBool True),
                  (''type'', JStr ''short_text''), (''id'', JStr ''uuid-0'')]]), 1)
   \<and> (\<exists>k. question_with_defaults demo_env [(''text'', JStr ''Mood'')] k
            \<in> set (doc_questions (custom_block
                  (demo_db (custom_doc [mood_section ''Custom''
                     [(''text'', JStr ''Mood''), (''required'', JBool True),
                      (''type'', JStr ''short_text''), (''id'', JStr ''uuid-0'')]])) 7)))"
proof -
  have a: "py_get [(''text'', JStr ''Mood''), (''required'', JBool False)] ''required'' = JBool False"
    by code_simp
  have b: "\<not> has_key [(''text'', JStr ''Mood'')] ''required''" by code_simp
  have c: "add_project_custom_question demo_env (demo_db (custom_doc [])) 7 ''Custom''
             [(''text'', JStr ''Mood'')] 0
           = Inr (demo_db (custom_doc [mood_section ''Custom''
                 [(''text'', JStr ''Mood''), (''required'', JBool True),
                  (''type'', JStr ''short_text''), (''id'', JStr ''uuid-0'')]]), 1)"
    by code_simp
  show ?thesis
    using synthesized_questions_optional
            [of demo_env "JStr ''Mood''" "JStr ''fine''" 0 0
                "[(''text'', JStr ''Mood''), (''required'', JBool False)]" "''q9''" "[]" "[]"
                "[(''text'', JStr ''Mood'')]" "demo_db (custom_doc [])" 7 "''Custom''" _ 1]
          a b c
    by (simp del: missing_required.simps add: missing_required.simps(1))
qed

section \<open>Auto-fill from the project\<close>

lemma set_dict_set: "set (dict_set d k v) \<subseteq> insert (k, v) (set d)"
  by (induction d) (auto split: if_splits)

lemma info_entries_dict_set:
  "info_entries out \<Longrightarrow> info_entries (dict_set out k (question_info q))"
  using set_dict_set [of out k "question_info q"] by (fastforce simp: info_entries_def)

lemma lookup_questions_info:
  "lookup_questions e qs out = Inr ql \<Longrightarrow> info_entries out \<Longrightarrow> info_entries ql"
proof (induction qs arbitrary: out)
  case Nil
  then show ?case by simp
next
  case (Cons x qs)
  then obtain q i where "x = JDict q" "map_of q ''id'' = Some i"
    "lookup_questions e qs (dict_set out (py_str e i) (question_info q)) = Inr ql"
    by (cases x) (auto split: option.splits)
  then show ?case using Cons.IH Cons.prems(2) info_entries_dict_set by blast
qed

lemma lookup_sections_info:
  "lookup_sections e secs out = Inr ql \<Longrightarrow> info_entries out \<Longrightarrow> info_entries ql"
proof (induction secs arbitrary: out)
  case Nil
  then show ?case by simp
next
  case (Cons sec secs)
  then obtain s qs out' where "lookup_questions e qs out = Inr out'"
    "lookup_sections e secs out' = Inr ql"
    by (auto simp: rbind_eq_Inr)
  then show ?case using Cons.IH Cons.prems(2) lookup_questions_info by blast
qed

lemma question_lookup_from_form_info:
  "question_lookup_from_form e form = Inr ql \<Longrightarrow> info_entries ql"
  using lookup_sections_info [of e _ "[]" ql]
  by (auto simp: question_lookup_from_form_def rbind_eq_Inr info_entries_def)

lemma auto_fill_one_info: "auto_fill_one proj qid (question_info q) answers = answers"
  by (simp add: auto_fill_one_def question_info_def py_get_def)

lemma auto_fill_info: "info_entries ql \<Longrightarrow> auto_fill proj ql answers = answers"
proof (induction ql arbitrary: answers)
  case Nil
  then show ?case by simp
next
  case (Cons kv ql)
  obtain qid qinfo where kv: "kv = (qid, qinfo)" by (cases kv)
  then obtain q where "qinfo = question_info q" using Cons.prems by (auto simp: info_entries_def)
  moreover have "info_entries ql" using Cons.prems by (simp add: info_entries_def)
  ultimately show ?case using Cons.IH kv by (simp add: auto_fill_one_info)
qed

lemma auto_fill_lookup:
  "question_lookup_from_form e form = Inr qlookup \<Longrightarrow> auto_fill proj qlookup answers = answers"
  using question_lookup_from_form_info [of e form qlookup] auto_fill_info [of qlookup proj answers]
  by simp

text \<open>
  C1 does not hold of the code. The form of project 7 has the required question
  "Project name", bound to \<open>project_name\<close>, and the project is named "Bridge"; the auto-fill
  loop of \<open>create_record\<close> should answer the question from the project. It reads the
  binding from the lookup, which \<open>question_lookup_from_form\<close> builds without the \<open>auto\<close>
  field, so nothing is filled: ingestion of an empty submission ends with an empty answer
  map and the submission is rejected because "Project name" has no answer.
\<close>

theorem auto_fill_not_applied:
  "py_get demo_question ''auto'' = JDict [(''source'', JStr ''project_name'')]
   \<and> initial_lookup demo_env (demo_db (custom_doc [])) 7 0
       = Inr [(''q1'', JDict [(''text'', JStr ''Project name''), (''type'', JStr ''short_text''),
                             (''required'', JBool True), (''options'', JNull),
                             (''value_map'', JNull)])]
   \<and> ingest_answers demo_env (demo_db (custom_doc [])) demo_user 7 [] 0 = Inr (demo_ingest [])
   \<and> ing_answers (demo_ingest []) = []
   \<and> create_record demo_env (demo_db (custom_doc [])) demo_user 7 [] 0
       = Inl (HTTPException 400 ''Missing required answers: Project name'', demo_db (custom_doc []), 0)"
  by code_simp

section \<open>The merged form\<close>

lemma retitle_spec:
  "titled_section sec \<Longrightarrow> \<exists>s. sec = JDict s \<and> retitle e prefix s = spec_retitle e (py_str e prefix) sec"
  by (cases sec)
     (auto simp: titled_section_def retitle_def spec_retitle_def doc_title_def py_get_default_def
        py_get_def has_key_def split: option.splits)

lemma retitle_sections_spec:
  "list_all titled_section secs \<Longrightarrow>
   retitle_sections e prefix secs = Inr (map (spec_retitle e (py_str e prefix)) secs)"
proof (induction secs)
  case Nil
  then show ?case by simp
next
  case (Cons sec secs)
  then obtain s where "sec = JDict s" "retitle e prefix s = spec_retitle e (py_str e prefix) sec"
    using retitle_spec [of sec e prefix] by auto
  then show ?case using Cons by simp
qed

lemma merge_sets_spec:
  "list_all titled_doc sets \<Longrightarrow>
   merge_sets e idx sets
     = Inr (concat (map (\<lambda>v. map (spec_retitle e (doc_title e v)) (doc_sections v)) sets))"
proof (induction sets arbitrary: idx)
  case Nil
  then show ?case by simp
next
  case (Cons v sets)
  then obtain d secs where d: "v = JDict d" "has_key d ''title''"
    "map_of d ''sections'' = Some (JList secs)" "list_all titled_section secs"
    by (cases v) (auto simp: titled_doc_def split: option.splits json.splits)
  have t: "py_str e (py_get_default d ''title'' (JStr (''Set '' @ digits (idx + 1)))) = doc_title e v"
    using d(1,2) by (auto simp: doc_title_def py_get_default_def py_get_def has_key_def)
  have s: "doc_sections v = secs" using d(1,3) by (simp add: doc_sections_def py_get_def)
  have "retitle_sections e (py_get_default d ''title'' (JStr (''Set '' @ digits (idx + 1)))) secs
          = Inr (map (spec_retitle e (doc_title e v)) secs)"
    using retitle_sections_spec [OF d(4)] t by simp
  then show ?case using Cons d(1,3) s by (simp add: py_get_default_def del: digits.simps)
qed

lemma assigned_sets_links:
  "assigned_sets s i
     = map qs_data (List.map_filter (\<lambda>l. get_question_set s (pqs_question_set_id l)) (project_links s i))"
proof -
  have "concat (map (\<lambda>link. case get_question_set s (pqs_question_set_id link) of
                            Some qs \<Rightarrow> [qs_data qs] | None \<Rightarrow> []) ls)
        = map qs_data (List.map_filter (\<lambda>l. get_question_set s (pqs_question_set_id l)) ls)" for ls
    by (induction ls) (auto simp: List.map_filter_simps split: option.splits)
  then show ?thesis by (simp add: assigned_sets_def)
qed

text \<open>
  C6. For a project whose assigned versions and canonical custom block have the canonical
  shape (a title and a list of sections, each with a title and questions), the merged
  form is titled with the project's name and its sections are exactly those the
  specification's merge describes: the sections of each assigned version, version after
  version in position order and in their own order within a version, each renamed with
  the version's title, then the custom block's sections renamed with "Custom". The
  assigned versions are those of the project's assignments sorted by position.
\<close>

theorem merged_form_sections:
  assumes "get_project s i = Some p"
    and "canonical_project_custom_questions e (p_custom_questions p) n = Inr (custom, n')"
    and "list_all titled_doc (assigned_sets s i)"
    and "titled_doc (JDict custom)"
  shows "merged_project_form e s i n
           = Inr ([(''title'', JStr (p_name p)),
                   (''sections'', JList (spec_merged_sections e (assigned_sets s i) custom))], n')
         \<and> assigned_sets s i
             = map qs_data (List.map_filter (\<lambda>l. get_question_set s (pqs_question_set_id l))
                              (project_links s i))
         \<and> sorted (map pqs_position (project_links s i))
         \<and> mset (project_links s i)
             = mset (filter (\<lambda>l. pqs_project_id l = i) (project_question_sets s))"
proof -
  from assms(4) obtain secs where secs: "map_of custom ''sections'' = Some (JList secs)"
    "list_all titled_section secs"
    by (auto simp: titled_doc_def split: option.splits json.splits)
  have c: "doc_sections (JDict custom) = secs" using secs(1) by (simp add: doc_sections_def py_get_def)
  have "retitle_sections e (JStr ''Custom'') secs = Inr (map (spec_retitle e ''Custom'') secs)"
    using retitle_sections_spec [OF secs(2), of e "JStr ''Custom''"] by simp
  then have "merged_project_form e s i n
           = Inr ([(''title'', JStr (p_name p)),
                   (''sections'', JList (spec_merged_sections e (assigned_sets s i) custom))], n')"
    using assms(1,2) merge_sets_spec [OF assms(3), of e 0] secs(1) c
    by (simp add: merged_project_form_def spec_merged_sections_def py_get_default_def)
  then show ?thesis
    using assigned_sets_links [of s i] by (simp add: project_links_def)
qed

theorem merged_form_sections_witness:
  "get_project merge_db 7
     = Some (demo_project (custom_doc [JDict [(''title'', JStr ''C''), (''questions'', JList [])]]))
   \<and> canonical_project_custom_questions demo_env
        (custom_doc [JDict [(''title'', JStr ''C''), (''questions'', JList [])]]) 0
       = Inr ([(''title'', JStr ''Custom''),
               (''sections'', JList [JDict [(''title'', JStr ''C''), (''questions'', JList [])]])], 0)
   \<and> list_all titled_doc (assigned_sets merge_db 7)
   \<and> titled_doc (custom_doc [JDict [(''title'', JStr ''C''), (''questions'', JList [])]])
   \<and> merged_project_form demo_env merge_db 7 0
       = Inr ([(''title'', JStr ''Bridge''),
               (''sections'', JList
                  [JDict [(''title'', JStr (''A '' @ em_dash @ '' S'')), (''questions'', JList [])],
                   JDict [(''title'', JStr (''B '' @ em_dash @ '' S'')), (''questions'', JList [])],
                   JDict [(''title'', JStr (''Custom '' @ em_dash @ '' C'')), (''questions'', JList [])]])],
              0)"
proof -
  let ?blk = "custom_doc [JDict [(''title'', JStr ''C''), (''questions'', JList [])]]"
  let ?custom = "[(''title'', JStr ''Custom''),
                  (''sections'', JList [JDict [(''title'', JStr ''C''), (''questions'', JList [])]])]"
  have a: "get_project merge_db 7 = Some (demo_project ?blk)" by code_simp
  have b: "canonical_project_custom_questions demo_env (p_custom_questions (demo_project ?blk)) 0
             = Inr (?custom, 0)" by code_simp
  have c: "list_all titled_doc (assigned_sets merge_db 7)" by code_simp
  have d: "titled_doc (JDict ?custom)" by code_simp
  have e: "spec_merged_sections demo_env (assigned_sets merge_db 7) ?custom
             = [JDict [(''title'', JStr (''A '' @ em_dash @ '' S'')), (''questions'', JList [])],
                JDict [(''title'', JStr (''B '' @ em_dash @ '' S'')), (''questions'', JList [])],
                JDict [(''title'', JStr (''Custom '' @ em_dash @ '' C'')), (''questions'', JList [])]]"
    by code_simp
  have f: "p_name (demo_project ?blk) = ''Bridge''" "p_custom_questions (demo_project ?blk) = ?blk"
    "JDict ?custom = ?blk"
    by code_simp+
  from merged_form_sections [OF a b c d] show ?thesis
    using a b c d e f by simp
qed

section \<open>Upgrade of the assignments to a new version\<close>

text \<open>
  C3 fails on a project assigned to two older versions of the name: both rows are marked
  for the new version (the query inside the loop does not see the first rewrite), the
  commit violates the unique constraint, and the assignments stay as they were: two
  assignments to older versions, none to the new one.
\<close>

theorem create_question_set_two_old_assignments:
  "create_question_set demo_env upgrade_db ''daily'' (simple_set ''v3'') 0
     = Inl (IntegrityError,
            upgrade_db\<lparr>question_sets := question_sets upgrade_db @
              [\<lparr>qs_id = 3, qs_name = ''daily'', qs_deleted_at = None, qs_data = simple_set ''v3''\<rparr>]\<rparr>,
            0)
   \<and> project_question_sets upgrade_db
       = [\<lparr>pqs_id = 1, pqs_project_id = 7, pqs_question_set_id = 1, pqs_position = 0\<rparr>,
          \<lparr>pqs_id = 2, pqs_project_id = 7, pqs_question_set_id = 2, pqs_position = 1\<rparr>]"
  by code_simp

section \<open>The completeness check\<close>

lemma same_tables_refl: "same_tables s s"
  by (simp add: same_tables_def)

lemma same_tables_trans: "same_tables s s' \<Longrightarrow> same_tables s' s'' \<Longrightarrow> same_tables s s''"
  by (simp add: same_tables_def)

lemma same_tables_set_custom_questions: "same_tables s (set_custom_questions s i cq)"
  by (simp add: same_tables_def set_custom_questions_def)

lemma add_project_custom_question_same_tables:
  "add_project_custom_question e s i t q n = Inr (s', n') \<Longrightarrow> same_tables s s'"
  using same_tables_set_custom_questions
  by (auto simp: add_project_custom_question_def rbind_eq_Inr split: option.splits)

lemma synthesize_Inr:
  assumes "synthesize e i qdef key v st = Inr st'"
  shows "same_tables (ing_db st) (ing_db st') \<and> info_entries (ing_qlookup st')"
proof -
  from assms obtain s' n1 form n2 ql where
    a: "add_project_custom_question e (ing_db st) i ''Auto-created'' qdef (ing_n st) = Inr (s', n1)"
    and l: "question_lookup_from_form e form = Inr ql"
    and st': "ing_db st' = s'" "ing_qlookup st' = ql"
    by (auto simp: synthesize_def split: sum.splits prod.splits)
  show ?thesis
    using add_project_custom_question_same_tables [OF a] question_lookup_from_form_info [OF l] st'
    by simp
qed

lemma synthesize_Inl:
  assumes "synthesize e i qdef key v st = Inl (err, s', n')"
  shows "same_tables (ing_db st) s'"
  using assms add_project_custom_question_same_tables [of e "ing_db st" i "''Auto-created''" qdef "ing_n st"]
  by (auto simp: synthesize_def same_tables_refl split: sum.splits prod.splits)

lemma resolve_key_Inr:
  assumes "resolve_key e i k st = Inr st'" and "info_entries (ing_qlookup st)"
  shows "same_tables (ing_db st) (ing_db st') \<and> info_entries (ing_qlookup st')"
proof -
  from assms(1) obtain raw_val where "map_of (ing_answers st) k = Some raw_val"
    by (auto simp: resolve_key_def split: option.splits)
  then show ?thesis
    using assms
    by (auto simp: resolve_key_def Let_def same_tables_refl
             split: if_splits option.splits prod.splits dest!: synthesize_Inr)
qed

lemma resolve_key_Inl:
  assumes "resolve_key e i k st = Inl (err, s', n')"
  shows "same_tables (ing_db st) s'"
  using assms
  by (auto simp: resolve_key_def Let_def same_tables_refl
           split: if_splits option.splits prod.splits dest!: synthesize_Inl)

lemma resolve_unknown_Inr:
  "resolve_unknown e i ks st = Inr st' \<Longrightarrow> info_entries (ing_qlookup st) \<Longrightarrow>
   same_tables (ing_db st) (ing_db st') \<and> info_entries (ing_qlookup st')"
proof (induction ks arbitrary: st)
  case Nil
  then show ?case by (simp add: same_tables_refl)
next
  case (Cons k ks)
  then obtain st1 where 1: "resolve_key e i k st = Inr st1" "resolve_unknown e i ks st1 = Inr st'"
    by (auto split: sum.splits)
  from resolve_key_Inr [OF 1(1) Cons.prems(2)] Cons.IH [OF 1(2)]
  show ?case using same_tables_trans by blast
qed

lemma resolve_unknown_Inl:
  "resolve_unknown e i ks st = Inl (err, s', n') \<Longrightarrow> info_entries (ing_qlookup st) \<Longrightarrow>
   same_tables (ing_db st) s'"
proof (induction ks arbitrary: st)
  case Nil
  then show ?case by simp
next
  case (Cons k ks)
  show ?case
  proof (cases "resolve_key e i k st")
    case (Inl f)
    then show ?thesis using Cons.prems resolve_key_Inl [of e i k st err s' n'] by simp
  next
    case (Inr st1)
    then have "resolve_unknown e i ks st1 = Inl (err, s', n')" using Cons.prems by simp
    then show ?thesis
      using resolve_key_Inr [OF Inr Cons.prems(2)] Cons.IH [of st1] same_tables_trans by blast
  qed
qed

lemma resolve_answers_Inr:
  assumes "resolve_answers e s i payload n = Inr st"
  shows "same_tables s (ing_db st) \<and> info_entries (ing_qlookup st)"
proof -
  from assms obtain form n1 ql answers where
    l: "question_lookup_from_form e form = Inr ql"
    and r: "resolve_unknown e i (filter (\<lambda>k. \<not> has_key ql k) (map fst answers))
              \<lparr>ing_db = s, ing_n = n1, ing_answers = answers, ing_qlookup = ql,
               ing_label_to_qid = index_labels e ql []\<rparr> = Inr st"
    by (auto simp: resolve_answers_def Let_def split: sum.splits prod.splits)
  from resolve_unknown_Inr [OF r] question_lookup_from_form_info [OF l] show ?thesis by simp
qed

lemma resolve_answers_Inl:
  assumes "resolve_answers e s i payload n = Inl (err, s', n')"
  shows "same_tables s s'"
proof (cases "initial_lookup e s i n")
  case (Inl x)
  then show ?thesis using assms
    by (auto simp: resolve_answers_def initial_lookup_def same_tables_refl split: sum.splits prod.splits)
next
  case (Inr ql)
  then obtain form n1 where f: "merged_project_form e s i n = Inr (form, n1)"
    "question_lookup_from_form e form = Inr ql"
    by (auto simp: initial_lookup_def rbind_eq_Inr)
  then obtain answers where
    "resolve_unknown e i (filter (\<lambda>k. \<not> has_key ql k) (map fst answers))
       \<lparr>ing_db = s, ing_n = n1, ing_answers = answers, ing_qlookup = ql,
        ing_label_to_qid = index_labels e ql []\<rparr> = Inl (err, s', n')"
    using assms by (auto simp: resolve_answers_def Let_def)
  from resolve_unknown_Inl [OF this] question_lookup_from_form_info [OF f(2)] show ?thesis by simp
qed

lemma ingest_answers_granted:
  "granted s u i \<Longrightarrow> ingest_answers e s u i payload n = resolve_answers e s i payload n"
  by (auto simp: granted_def ingest_answers_def split: sum.splits)

lemma ingest_answers_denied:
  "\<not> granted s u i \<Longrightarrow>
   ingest_answers e s u i payload n = Inl (HTTPException 403 ''No access to project'', s, n)"
  by (auto simp: granted_def ingest_answers_def require_project_access_def split: sum.splits list.splits)

lemma ingest_answers_Inr_granted: "ingest_answers e s u i payload n = Inr st \<Longrightarrow> granted s u i"
  using ingest_answers_denied [of s u i e payload n] by auto

lemma ingest_answers_Inr:
  assumes "ingest_answers e s u i payload n = Inr st"
  shows "same_tables s (ing_db st) \<and> info_entries (ing_qlookup st)"
  using assms ingest_answers_granted [OF ingest_answers_Inr_granted [OF assms], of e payload n]
    resolve_answers_Inr [of e s i payload n st] by simp

lemma ingest_answers_Inl:
  assumes "ingest_answers e s u i payload n = Inl (err, s', n')"
  shows "same_tables s s'"
proof (cases "granted s u i")
  case True
  then show ?thesis using assms ingest_answers_granted [OF True, of e payload n]
      resolve_answers_Inl [of e s i payload n err s' n'] by simp
next
  case False
  then show ?thesis using assms ingest_answers_denied [OF False, of e payload n]
    by (simp add: same_tables_refl)
qed

lemma is_missing_unanswered: "is_missing answers qid = unanswered answers qid"
  by (auto simp: is_missing_def unanswered_def split: option.splits)

lemma missing_required_violations:
  "info_entries ql \<Longrightarrow> missing_required ql answers = Inr (violations ql answers)"
proof (induction ql)
  case Nil
  then show ?case by (simp add: violations_def)
next
  case (Cons kv ql)
  obtain qid qinfo where kv: "kv = (qid, qinfo)" by (cases kv)
  obtain q where q: "qinfo = question_info q" using Cons.prems kv by (auto simp: info_entries_def)
  have "info_entries ql" using Cons.prems by (simp add: info_entries_def)
  then have "missing_required ql answers = Inr (violations ql answers)" by (rule Cons.IH)
  then show ?case using kv q
    by (simp add: violations_def question_info_def is_missing_unanswered)
qed

lemma completeness_check_violations:
  assumes "info_entries ql"
  shows "completeness_check ql answers =
           (if violations ql answers = [] then Inr ()
            else if list_all is_str (take 10 (violations ql answers))
            then Inl (HTTPException 400 (''Missing required answers: ''
                        @ str_join '', '' (map str_chars (take 10 (violations ql answers)))))
            else Inl TypeError)"
  using missing_required_violations [OF assms, of answers]
  by (simp add: completeness_check_def join_texts_def)

lemma violations_empty_iff:
  "violations ql answers = [] \<longleftrightarrow>
     \<not> (\<exists>kv\<in>set ql. \<exists>qi. snd kv = JDict qi \<and> truthy (py_get qi ''required'')
                       \<and> unanswered answers (fst kv))"
  by (auto simp: violations_def split: json.splits)

text \<open>
  C8. Once the answers have been ingested, the completeness check lets the record be
  created exactly when no question of the (possibly extended) lookup that is required (its
  \<open>required\<close> field is true in Python's sense) is unanswered, that is, has no entry in the
  answer map or the entry \<open>""\<close> or null. Otherwise ingestion fails, no record is created
  (the records table is the one before the call), and, the texts being strings, the error
  is the 400 whose detail lists the texts of the first ten violating questions joined by
  commas.
\<close>

theorem completeness_check_decides:
  assumes "ingest_answers e s u i payload n = Inr st"
  shows "(violations (ing_qlookup st) (ing_answers st) = [] \<longleftrightarrow>
            \<not> (\<exists>kv\<in>set (ing_qlookup st). \<exists>qi. snd kv = JDict qi \<and> truthy (py_get qi ''required'')
                     \<and> unanswered (ing_answers st) (fst kv)))
       \<and> (violations (ing_qlookup st) (ing_answers st) = [] \<longrightarrow>
            create_record e s u i payload n
              = Inr (crud_create_record (ing_db st) i (Some (u_id u)) (ing_answers st), ing_n st))
       \<and> (violations (ing_qlookup st) (ing_answers st) \<noteq> [] \<longrightarrow>
            (\<exists>err. create_record e s u i payload n = Inl (err, ing_db st, ing_n st))
            \<and> (list_all is_str (take 10 (violations (ing_qlookup st) (ing_answers st))) \<longrightarrow>
                 create_record e s u i payload n
                   = Inl (HTTPException 400
                            (''Missing required answers: ''
                             @ str_join '', ''
                                 (map str_chars
                                    (take 10 (violations (ing_qlookup st) (ing_answers st))))),
                          ing_db st, ing_n st)))
       \<and> records (ing_db st) = records s
       \<and> records (crud_create_record (ing_db st) i (Some (u_id u)) (ing_answers st))
           = records s @ [\<lparr>rec_project_id = i, rec_created_by_user_id = Some (u_id u),
                           rec_answers = ing_answers st\<rparr>]"
proof -
  have inv: "same_tables s (ing_db st)" "info_entries (ing_qlookup st)"
    using ingest_answers_Inr [OF assms] by simp_all
  have rec: "records (ing_db st) = records s" using inv(1) by (simp add: same_tables_def)
  show ?thesis
    using completeness_check_violations [OF inv(2), of "ing_answers st"] assms rec
      violations_empty_iff [of "ing_qlookup st" "ing_answers st"]
    by (simp add: create_record_def crud_create_record_def)
qed

theorem completeness_check_decides_witness:
  "ingest_answers demo_env (demo_db (custom_doc [])) demo_user 7 [] 0 = Inr (demo_ingest [])
   \<and> violations (ing_qlookup (demo_ingest [])) (ing_answers (demo_ingest [])) = [JStr ''Project name'']
   \<and> list_all is_str (take 10 (violations (ing_qlookup (demo_ingest [])) (ing_answers (demo_ingest []))))
   \<and> create_record demo_env (demo_db (custom_doc [])) demo_user 7 [] 0
       = Inl (HTTPException 400 ''Missing required answers: Project name'', demo_db (custom_doc []), 0)
   \<and> ingest_answers demo_env (demo_db (custom_doc [])) demo_user 7 [(''q1'', JStr ''Bridge'')] 0
       = Inr (demo_ingest [(''q1'', JStr ''Bridge'')])
   \<and> violations (ing_qlookup (demo_ingest [(''q1'', JStr ''Bridge'')]))
        (ing_answers (demo_ingest [(''q1'', JStr ''Bridge'')])) = []
   \<and> create_record demo_env (demo_db (custom_doc [])) demo_user 7 [(''q1'', JStr ''Bridge'')] 0
       = Inr (crud_create_record (demo_db (custom_doc [])) 7 (Some 3) [(''q1'', JStr ''Bridge'')], 0)"
proof -
  let ?s = "demo_db (custom_doc [])"
  have a: "ingest_answers demo_env ?s demo_user 7 [] 0 = Inr (demo_ingest [])" by code_simp
  have b: "violations (ing_qlookup (demo_ingest [])) (ing_answers (demo_ingest []))
             = [JStr ''Project name'']" by code_simp
  have c: "ingest_answers demo_env ?s demo_user 7 [(''q1'', JStr ''Bridge'')] 0
             = Inr (demo_ingest [(''q1'', JStr ''Bridge'')])" by code_simp
  have d: "violations (ing_qlookup (demo_ingest [(''q1'', JStr ''Bridge'')]))
             (ing_answers (demo_ingest [(''q1'', JStr ''Bridge'')])) = []" by code_simp
  have f: "ing_db (demo_ingest []) = ?s" "ing_n (demo_ingest []) = 0"
    "ing_db (demo_ingest [(''q1'', JStr ''Bridge'')]) = ?s"
    "ing_n (demo_ingest [(''q1'', JStr ''Bridge'')]) = 0"
    "ing_answers (demo_ingest [(''q1'', JStr ''Bridge'')]) = [(''q1'', JStr ''Bridge'')]"
    "u_id demo_user = 3"
    by (simp_all add: demo_ingest_def demo_user_def)
  from completeness_check_decides [OF a] completeness_check_decides [OF c]
  show ?thesis using a b c d f by simp
qed

section \<open>The custom block during ingestion\<close>

lemma create_record_Inl_same_tables:
  assumes "create_record e s u i payload n = Inl (err, s', n')"
  shows "same_tables s s'"
proof (cases "ingest_answers e s u i payload n")
  case (Inl f)
  then show ?thesis using assms ingest_answers_Inl [of e s u i payload n err s' n']
    by (simp add: create_record_def)
next
  case (Inr st)
  then have "s' = ing_db st" using assms by (auto simp: create_record_def split: sum.splits)
  then show ?thesis using ingest_answers_Inr [OF Inr] by simp
qed

lemma resolve_answers_known_keys:
  assumes "initial_lookup e s i n = Inr ql" and "list_all (has_key ql) (map fst payload)"
  shows "\<exists>n1. resolve_answers e s i payload n
               = Inr \<lparr>ing_db = s, ing_n = n1, ing_answers = payload, ing_qlookup = ql,
                      ing_label_to_qid = index_labels e ql []\<rparr>"
proof -
  from assms(1) obtain form n1 where f: "merged_project_form e s i n = Inr (form, n1)"
    "question_lookup_from_form e form = Inr ql"
    by (auto simp: initial_lookup_def rbind_eq_Inr)
  have af: "\<And>proj. auto_fill proj ql payload = payload"
    using auto_fill_info [OF question_lookup_from_form_info [OF f(2)]] by simp
  have "filter (\<lambda>k. \<not> has_key ql k) (map fst payload) = []"
    using assms(2) by (simp add: list_all_iff filter_empty_conv)
  then show ?thesis using f af by (simp add: resolve_answers_def Let_def split: option.splits)
qed

lemma create_record_known_keys:
  assumes "create_record e s u i payload n = Inl (err, s', n')"
    and "all_keys_known e s i payload n"
  shows "s' = s"
proof (cases "granted s u i")
  case False
  then show ?thesis using assms(1) ingest_answers_denied [OF False, of e payload n]
    by (simp add: create_record_def)
next
  case True
  note ing = ingest_answers_granted [OF True, of e payload n]
  show ?thesis
  proof (cases "initial_lookup e s i n")
    case (Inl x)
    then show ?thesis using assms(1) ing
      by (auto simp: create_record_def resolve_answers_def initial_lookup_def
               split: sum.splits prod.splits)
  next
    case (Inr ql)
    have known: "list_all (has_key ql) (map fst payload)"
      using assms(2) Inr by (simp add: all_keys_known_def)
    from resolve_answers_known_keys [OF Inr known] show ?thesis
      using assms(1) ing by (auto simp: create_record_def split: sum.splits)
  qed
qed

lemma result_of_simps [simp]:
  "result_of (Inl err) = Inl err" "result_of (Inr (x, n)) = Inr x"
  by (simp_all add: result_of_def)

lemma result_of_eq_Inr: "result_of r = Inr x \<longleftrightarrow> (\<exists>n. r = Inr (x, n))"
  by (cases r) (auto simp: result_of_def)

lemma result_of_eq_Inl: "result_of r = Inl err \<longleftrightarrow> r = Inl err"
  by (cases r) (auto simp: result_of_def)





lemma section_has_ids_iter:
  "section_has_ids (JDict s) \<Longrightarrow>
   \<exists>qs. py_iter (py_get_default s ''questions'' (JList [])) = Inr qs \<and> list_all has_id qs"
  by (auto simp: py_get_default_def split: option.splits json.splits)








lemma project_has_ids_same_tables:
  "same_form_tables s s' \<Longrightarrow> project_has_ids s' i = project_has_ids s i"
  by (simp add: project_has_ids_def get_project_def same_form_tables_def)



lemma lookup_questions_fold:
  "lookup_questions e qs out = Inr ql \<Longrightarrow>
   ql = fold (lookup_step e) (concat (map question_dict qs)) out \<and> list_all has_id qs"
proof (induction qs arbitrary: out)
  case Nil
  then show ?case by simp
next
  case (Cons x qs)
  then obtain q i where q: "x = JDict q" "map_of q ''id'' = Some i"
    "lookup_questions e qs (dict_set out (py_str e i) (question_info q)) = Inr ql"
    by (cases x) (auto split: option.splits)
  have "dict_set out (py_str e i) (question_info q) = lookup_step e q out"
    using q(2) by (simp add: lookup_step_def id_string_def py_get_def)
  then show ?case using Cons.IH [OF q(3)] q(1,2) by (simp add: has_key_def)
qed

lemma iter_questions:
  assumes "py_iter (py_get_default s ''questions'' (JList [])) = Inr qs"
    and "list_all has_id qs"
  shows "section_questions (JDict s) = concat (map question_dict qs)"
proof (cases "map_of s ''questions''")
  case None
  then show ?thesis using assms by (auto simp: py_get_default_def py_get_def)
next
  case (Some v)
  then show ?thesis using assms
    by (cases v; cases qs) (auto simp: py_get_default_def py_get_def)
qed

lemma lookup_sections_fold:
  "lookup_sections e secs out = Inr ql \<Longrightarrow>
   ql = fold (lookup_step e) (concat (map section_questions secs)) out"
proof (induction secs arbitrary: out)
  case Nil
  then show ?case by simp
next
  case (Cons sec secs)
  then obtain s qs out' where s: "sec = JDict s"
    "py_iter (py_get_default s ''questions'' (JList [])) = Inr qs"
    "lookup_questions e qs out = Inr out'" "lookup_sections e secs out' = Inr ql"
    by (cases sec) (auto simp: rbind_eq_Inr)
  from lookup_questions_fold [OF s(3)] iter_questions [OF s(2)]
  have "out' = fold (lookup_step e) (section_questions sec) out" using s(1) by simp
  then show ?case using Cons.IH [OF s(4)] by simp
qed

lemma question_lookup_fold:
  "question_lookup_from_form e [(''title'', t), (''sections'', JList secs)] = Inr ql \<Longrightarrow>
   ql = fold (lookup_step e) (concat (map section_questions secs)) []"
  using lookup_sections_fold [of e secs "[]" ql]
  by (simp add: question_lookup_from_form_def py_get_default_def)






lemma index_labels_step:
  "index_labels e (kv # ql) m =
     index_labels e ql (if \<exists>qi. snd kv = JDict qi \<and> truthy (py_get qi ''text'')
                        then dict_set m (normalize_label e (py_get (case snd kv of JDict qi \<Rightarrow> qi) ''text''))
                               (fst kv)
                        else m)"
  by (cases kv; cases "snd kv") auto

lemma index_labels_Some:
  "map_of (index_labels e ql m) lab = Some x \<Longrightarrow>
   map_of m lab = Some x \<or> (\<exists>kv\<in>set ql. fst kv = x \<and> labelled e lab kv)"
proof (induction ql arbitrary: m)
  case Nil
  then show ?case by simp
next
  case (Cons kv ql)
  show ?case
  proof (cases "\<exists>qi. snd kv = JDict qi \<and> truthy (py_get qi ''text'')")
    case True
    then obtain qi where qi: "snd kv = JDict qi" "truthy (py_get qi ''text'')" by blast
    have "map_of (index_labels e ql (dict_set m (normalize_label e (py_get qi ''text'')) (fst kv))) lab = Some x"
      using Cons.prems qi by (cases kv) simp
    from Cons.IH [OF this] show ?thesis
      using qi by (auto simp: map_of_dict_set labelled_def split: if_splits)
  next
    case False
    then have "map_of (index_labels e ql m) lab = Some x"
      using Cons.prems by (cases kv; cases "snd kv") auto
    from Cons.IH [OF this] show ?thesis by auto
  qed
qed




lemma py_get_normalize_dropdown_options:
  "normalize_dropdown_options e q = Inr q' \<Longrightarrow> k \<noteq> ''options'' \<Longrightarrow> k \<noteq> ''value_map'' \<Longrightarrow>
   py_get q' k = py_get q k"
  by (auto simp: normalize_dropdown_options_def Let_def py_get_normalize_options
        py_get_normalize_value_map split: if_splits)

lemma ensure_questions_kept:
  "list_all has_id qs \<Longrightarrow> ensure_questions e qs n = Inr (qs2, n2) \<Longrightarrow>
   list_all2 (kept e) (concat (map question_dict qs)) (concat (map question_dict qs2))"
proof (induction qs arbitrary: n qs2)
  case Nil
  then show ?case by simp
next
  case (Cons x qs)
  then obtain q where q: "x = JDict q" "has_key q ''id''" by (cases x) auto
  from Cons.prems(2) q obtain q' rest where
    q': "normalize_dropdown_options e q = Inr q'"
    and rest: "ensure_questions e qs (Suc n) = Inr (rest, n2)"
    and out: "qs2 = JDict (dict_setdefault q' ''id'' (JStr (uuid4 e n))) # rest"
    by (auto simp: rbind_eq_Inr)
  have "map_of q' ''id'' = map_of q ''id''"
    using q' by (rule map_of_normalize_dropdown_options_id)
  then have same: "dict_setdefault q' ''id'' (JStr (uuid4 e n)) = q'"
    using q(2) by (auto simp: has_key_def dict_setdefault_def)
  have "kept e q q'"
    using py_get_normalize_dropdown_options [OF q'] by (simp add: kept_def id_string_def)
  moreover have "list_all2 (kept e) (concat (map question_dict qs)) (concat (map question_dict rest))"
    using Cons.IH [OF _ rest] Cons.prems(1) by simp
  ultimately show ?case using q out same by simp
qed

lemma ensure_sections_kept:
  "list_all section_has_ids secs \<Longrightarrow> ensure_sections e secs n = Inr (secs2, n2) \<Longrightarrow>
   list_all2 (kept e) (concat (map section_questions secs)) (concat (map section_questions secs2))"
proof (induction secs arbitrary: n secs2)
  case Nil
  then show ?case by simp
next
  case (Cons x secs)
  then obtain s where s: "x = JDict s" "section_has_ids (JDict s)" by (cases x) auto
  obtain qs where qs: "py_iter (py_get_default s ''questions'' (JList [])) = Inr qs"
    "list_all has_id qs"
    using section_has_ids_iter [OF s(2)] by blast
  from Cons.prems(2) s(1) qs(1) obtain qs2 n1 rest where
    q2: "ensure_questions e qs n = Inr (qs2, n1)"
    and rest: "ensure_sections e secs n1 = Inr (rest, n2)"
    and out: "secs2 = JDict (dict_set s ''questions'' (JList qs2)) # rest"
    by (auto simp: rbind_eq_Inr)
  have a: "section_questions x = concat (map question_dict qs)"
    using iter_questions [OF qs] s(1) by simp
  have b: "section_questions (JDict (dict_set s ''questions'' (JList qs2)))
             = concat (map question_dict qs2)"
    by (simp add: py_get_dict_set)
  have "list_all2 (kept e) (section_questions x)
          (section_questions (JDict (dict_set s ''questions'' (JList qs2))))"
    unfolding a b using qs(2) q2 by (rule ensure_questions_kept)
  moreover have "list_all2 (kept e) (concat (map section_questions secs))
                   (concat (map section_questions rest))"
    using Cons.IH [OF _ rest] Cons.prems(1) by simp
  ultimately show ?case using out by (simp add: list_all2_appendI del: section_questions.simps)
qed

lemma canon_q_has_id: "canon_q x \<Longrightarrow> has_id x"
  by (auto simp: canon_q_def)

lemma canon_sec_has_ids: "canon_sec x \<Longrightarrow> section_has_ids x"
  by (auto simp: canon_sec_def list_all_iff canon_q_has_id)

lemma canon_doc_sections:
  "canon_doc d \<Longrightarrow> \<exists>secs. map_of d ''sections'' = Some (JList secs) \<and> (\<forall>x\<in>set secs. canon_sec x)
                         \<and> py_iter (py_get_default d ''sections'' (JList [])) = Inr secs"
  by (auto simp: canon_doc_def py_get_default_def)

lemma canonical_project_custom_questions_canon:
  "canonical_project_custom_questions e raw n = Inr (custom, n1) \<Longrightarrow> canon_doc custom"
  using ensure_question_ids_canon
  by (auto simp: canonical_project_custom_questions_def split: json.splits if_splits)

lemma retitle_sections_questions:
  "retitle_sections e prefix secs = Inr rc \<Longrightarrow>
   concat (map section_questions rc) = concat (map section_questions secs)"
proof (induction secs arbitrary: rc)
  case Nil
  then show ?case by simp
next
  case (Cons x secs)
  then obtain s rest where s: "x = JDict s" "retitle_sections e prefix secs = Inr rest"
    "rc = retitle e prefix s # rest"
    by (cases x) (auto simp: rbind_eq_Inr)
  have "section_questions (retitle e prefix s) = section_questions (JDict s)"
    by (auto simp: retitle_def py_get_def py_get_default_def split: option.splits)
  then show ?case using s Cons.IH [OF s(2)] by (simp del: section_questions.simps)
qed

text \<open>The parts of a merged form.\<close>

lemma merged_project_form_parts:
  assumes "merged_project_form e s i n = Inr (form, n1)"
  shows "\<exists>p custom csecs ms rc.
           get_project s i = Some p
           \<and> canonical_project_custom_questions e (p_custom_questions p) n = Inr (custom, n1)
           \<and> map_of custom ''sections'' = Some (JList csecs) \<and> (\<forall>x\<in>set csecs. canon_sec x)
           \<and> merge_sets e 0 (assigned_sets s i) = Inr ms
           \<and> form = [(''title'', JStr (p_name p)), (''sections'', JList (ms @ rc))]
           \<and> concat (map section_questions rc) = concat (map section_questions csecs)"
proof -
  from assms obtain p where p: "get_project s i = Some p"
    by (auto simp: merged_project_form_def split: option.splits)
  from assms p obtain custom ms csecs rc where
    c: "canonical_project_custom_questions e (p_custom_questions p) n = Inr (custom, n1)"
    and ms: "merge_sets e 0 (assigned_sets s i) = Inr ms"
    and it: "py_iter (py_get_default custom ''sections'' (JList [])) = Inr csecs"
    and rc: "retitle_sections e (JStr ''Custom'') csecs = Inr rc"
    and form: "form = [(''title'', JStr (p_name p)), (''sections'', JList (ms @ rc))]"
    by (auto simp: merged_project_form_def rbind_eq_Inr)
  obtain secs where secs: "map_of custom ''sections'' = Some (JList secs)" "\<forall>x\<in>set secs. canon_sec x"
    "py_iter (py_get_default custom ''sections'' (JList [])) = Inr secs"
    using canon_doc_sections [OF canonical_project_custom_questions_canon [OF c]] by blast
  then have "secs = csecs" using it by simp
  then show ?thesis using p c ms form secs retitle_sections_questions [OF rc] by blast
qed

lemma initial_lookup_parts:
  assumes "initial_lookup e s i n = Inr ql"
  shows "\<exists>p custom n1 csecs ms.
           get_project s i = Some p
           \<and> canonical_project_custom_questions e (p_custom_questions p) n = Inr (custom, n1)
           \<and> map_of custom ''sections'' = Some (JList csecs) \<and> (\<forall>x\<in>set csecs. canon_sec x)
           \<and> merge_sets e 0 (assigned_sets s i) = Inr ms
           \<and> ql = fold (lookup_step e)
                    (concat (map section_questions ms) @ concat (map section_questions csecs)) []"
proof -
  from assms obtain form n1 where f: "merged_project_form e s i n = Inr (form, n1)"
    "question_lookup_from_form e form = Inr ql"
    by (auto simp: initial_lookup_def rbind_eq_Inr)
  from merged_project_form_parts [OF f(1)] obtain p custom csecs ms rc where
    parts: "get_project s i = Some p"
      "canonical_project_custom_questions e (p_custom_questions p) n = Inr (custom, n1)"
      "map_of custom ''sections'' = Some (JList csecs)" "\<forall>x\<in>set csecs. canon_sec x"
      "merge_sets e 0 (assigned_sets s i) = Inr ms"
      "form = [(''title'', JStr (p_name p)), (''sections'', JList (ms @ rc))]"
      "concat (map section_questions rc) = concat (map section_questions csecs)"
    by blast
  have "ql = fold (lookup_step e) (concat (map section_questions (ms @ rc))) []"
    using f(2) parts(6) question_lookup_fold by blast
  then have "ql = fold (lookup_step e)
                    (concat (map section_questions ms) @ concat (map section_questions csecs)) []"
    using parts(7) by simp
  then show ?thesis using parts by blast
qed

lemma has_key_dict_setdefault: "has_key (dict_setdefault d k v) k' \<longleftrightarrow> has_key d k' \<or> k' = k"
  by (auto simp: has_key_def map_of_dict_setdefault)

lemma py_get_dict_setdefault_has:
  "has_key d k' \<Longrightarrow> py_get (dict_setdefault d k v) k' = py_get d k'"
  by (auto simp: has_key_def py_get_def map_of_dict_setdefault)

lemma has_key_question_with_defaults_id: "has_key (question_with_defaults e q n) ''id''"
  by (simp add: question_with_defaults_def has_key_dict_setdefault)

lemma py_get_question_with_defaults:
  "has_key q k \<Longrightarrow> py_get (question_with_defaults e q n) k = py_get q k"
  by (simp add: question_with_defaults_def py_get_dict_setdefault_has has_key_dict_setdefault)

lemma append_to_section_canon:
  assumes "\<forall>x\<in>set secs. canon_sec x" and "has_key qn ''id''"
  shows "\<exists>secs' A B. append_to_section t (JDict qn) secs = Inr secs'
            \<and> concat (map section_questions secs) = A @ B
            \<and> concat (map section_questions secs') = A @ [qn] @ B
            \<and> list_all section_has_ids secs'"
  using assms(1)
proof (induction secs)
  case Nil
  have "append_to_section t (JDict qn) [] = Inr [JDict [(''title'', JStr t), (''questions'', JList [JDict qn])]]"
    by simp
  moreover have "concat (map section_questions [JDict [(''title'', JStr t), (''questions'', JList [JDict qn])]])
                   = [] @ [qn] @ []"
    by (simp add: py_get_def)
  moreover have "list_all section_has_ids [JDict [(''title'', JStr t), (''questions'', JList [JDict qn])]]"
    using assms(2) by simp
  ultimately show ?case by (metis append_Nil concat.simps(1) list.simps(8))
next
  case (Cons x secs)
  then obtain s qs where s: "x = JDict s" "map_of s ''questions'' = Some (JList qs)"
    "\<forall>q\<in>set qs. canon_q q"
    by (auto simp: canon_sec_def)
  have ids: "list_all section_has_ids (x # secs)"
    using Cons.prems by (simp add: list_all_iff canon_sec_has_ids)
  have sq: "section_questions x = concat (map question_dict qs)"
    using s by (simp add: py_get_def)
  show ?case
  proof (cases "py_get s ''title'' = JStr t")
    case True
    let ?new = "JDict (dict_set s ''questions'' (JList (qs @ [JDict qn])))"
    have it: "(if truthy (py_get s ''questions'') then py_iter (py_get s ''questions'') else Inr [])
                = Inr qs"
      using s(2) by (simp add: py_get_def)
    have run: "append_to_section t (JDict qn) (x # secs) = Inr (?new # secs)"
      using s(1) True it by simp
    have nq: "section_questions ?new = concat (map question_dict qs) @ [qn]"
      by (simp add: py_get_dict_set)
    have "list_all has_id qs" using s(3) by (simp add: list_all_iff canon_q_has_id)
    then have nid: "section_has_ids ?new" using assms(2) by (simp add: map_of_dict_set)
    have "concat (map section_questions (x # secs))
            = concat (map question_dict qs) @ concat (map section_questions secs)"
      using sq by (simp del: section_questions.simps)
    moreover have "concat (map section_questions (?new # secs))
            = concat (map question_dict qs) @ [qn] @ concat (map section_questions secs)"
      using nq by (simp del: section_questions.simps)
    moreover have "list_all section_has_ids (?new # secs)" using nid ids by simp
    ultimately show ?thesis using run by blast
  next
    case False
    obtain rest A B where rest: "append_to_section t (JDict qn) secs = Inr rest"
      "concat (map section_questions secs) = A @ B"
      "concat (map section_questions rest) = A @ [qn] @ B"
      "list_all section_has_ids rest"
      using Cons.IH Cons.prems by auto
    have run: "append_to_section t (JDict qn) (x # secs) = Inr (x # rest)"
      using s(1) False rest(1) by simp
    have "concat (map section_questions (x # secs)) = (section_questions x @ A) @ B"
      using rest(2) by (simp del: section_questions.simps)
    moreover have "concat (map section_questions (x # rest)) = (section_questions x @ A) @ [qn] @ B"
      using rest(3) by (simp del: section_questions.simps)
    moreover have "list_all section_has_ids (x # rest)" using ids rest(4) by simp
    ultimately show ?thesis using run by blast
  qed
qed

lemma add_project_custom_question_parts:
  assumes "get_project s i = Some p"
    and "canonical_project_custom_questions e (p_custom_questions p) n = Inr (cq, n1)"
  shows "\<exists>secs secs' A B.
           map_of cq ''sections'' = Some (JList secs)
           \<and> add_project_custom_question e s i t question n
               = Inr (set_custom_questions s i (JDict (dict_set cq ''sections'' (JList secs'))), Suc n1)
           \<and> concat (map section_questions secs) = A @ B
           \<and> concat (map section_questions secs') = A @ [question_with_defaults e question n1] @ B
           \<and> list_all section_has_ids secs'
           \<and> has_key cq ''title''"
proof -
  have cd: "canon_doc cq" using assms(2) by (rule canonical_project_custom_questions_canon)
  then obtain secs where secs: "map_of cq ''sections'' = Some (JList secs)" "\<forall>x\<in>set secs. canon_sec x"
    "py_iter (py_get_default cq ''sections'' (JList [])) = Inr secs"
    using canon_doc_sections by blast
  obtain secs' A B where app:
    "append_to_section t (JDict (question_with_defaults e question n1)) secs = Inr secs'"
    "concat (map section_questions secs) = A @ B"
    "concat (map section_questions secs') = A @ [question_with_defaults e question n1] @ B"
    "list_all section_has_ids secs'"
    using append_to_section_canon [OF secs(2) has_key_question_with_defaults_id] by blast
  have "add_project_custom_question e s i t question n
          = Inr (set_custom_questions s i (JDict (dict_set cq ''sections'' (JList secs'))), Suc n1)"
    using assms secs(3) app(1) by (simp add: add_project_custom_question_def)
  moreover have "has_key cq ''title''" using cd by (simp add: canon_doc_def)
  ultimately show ?thesis using secs(1) app by blast
qed



lemma has_key_dict_set: "has_key (dict_set d k v) k' \<longleftrightarrow> has_key d k' \<or> k' = k"
  by (auto simp: has_key_def map_of_dict_set)

lemma project_has_ids_after_add:
  assumes "get_project s i = Some p" and "has_key cq ''title''" and "list_all section_has_ids secs'"
  shows "project_has_ids (set_custom_questions s i (JDict (dict_set cq ''sections'' (JList secs')))) i"
  using assms
  by (simp add: project_has_ids_def get_project_set_custom_questions block_has_ids_def
        has_key_dict_set doc_has_ids_def map_of_dict_set)

lemma ensure_question_ids_sections:
  assumes "ensure_question_ids e d n = Inr (d2, n2)" and "map_of d ''sections'' = Some (JList secs)"
  shows "\<exists>secs2. ensure_sections e secs n = Inr (secs2, n2) \<and> map_of d2 ''sections'' = Some (JList secs2)"
proof -
  from assms obtain secs2 where
    run: "ensure_sections e secs n = Inr (secs2, n2)"
    and d2: "d2 = dict_setdefault (dict_set d ''sections'' (JList secs2)) ''title''
                  (if truthy (py_get (dict_set d ''sections'' (JList secs2)) ''name'')
                   then py_get (dict_set d ''sections'' (JList secs2)) ''name'' else JStr ''Untitled'')"
    by (auto simp: ensure_question_ids_def rbind_eq_Inr Let_def py_get_default_def)
  have "map_of d2 ''sections'' = Some (JList secs2)"
    unfolding d2 by (simp add: map_of_dict_setdefault map_of_dict_set)
  then show ?thesis using run by blast
qed



lemma same_form_tables_trans:
  "same_form_tables s s' \<Longrightarrow> same_form_tables s' s'' \<Longrightarrow> same_form_tables s s''"
  by (simp add: same_form_tables_def)


lemma normalize_label_strip: "normalize_label e (JStr (strip k)) = normalize_label e (JStr k)"
  by (simp add: normalize_label_def strip_idem)













lemma py_get_has_key: "py_get d k \<noteq> JNull \<Longrightarrow> has_key d k"
  by (auto simp: py_get_def has_key_def split: option.splits)







lemma retitle_sections_Nil_iff:
  "retitle_sections e prefix (map JStr xs) = Inr here \<Longrightarrow> xs = []"
  by (cases xs) auto

lemma merge_sets_questions:
  "merge_sets e idx sets = Inr ms \<Longrightarrow>
   concat (map section_questions ms) = concat (map section_questions (concat (map doc_sections sets)))"
proof (induction sets arbitrary: idx ms)
  case Nil
  then show ?case by simp
next
  case (Cons v sets)
  from Cons.prems obtain d secs here rest where
    d: "v = JDict d"
    and it: "py_iter (py_get_default d ''sections'' (JList [])) = Inr secs"
    and here: "retitle_sections e (py_get_default d ''title'' (JStr (''Set '' @ digits (idx + 1)))) secs
                 = Inr here"
    and rest: "merge_sets e (idx + 1) sets = Inr rest" and ms: "ms = here @ rest"
    by (cases v) (auto simp: rbind_eq_Inr simp del: digits.simps)
  have hq: "concat (map section_questions here) = concat (map section_questions secs)"
    using here by (rule retitle_sections_questions)
  have "concat (map section_questions secs) = concat (map section_questions (doc_sections v))"
  proof (cases "map_of d ''sections''")
    case None
    then show ?thesis using it d by (simp add: py_get_default_def doc_sections_def py_get_def)
  next
    case (Some x)
    show ?thesis
    proof (cases x)
      case (JList xs)
      then show ?thesis using it d Some by (simp add: py_get_default_def doc_sections_def py_get_def)
    next
      case (JStr str)
      then have "secs = map JStr (chars str)" using it Some by (simp add: py_get_default_def)
      then have "secs = []" using here retitle_sections_Nil_iff by blast
      then show ?thesis using d Some JStr by (simp add: doc_sections_def py_get_def)
    next
      case (JDict d')
      then have "secs = map JStr (map fst d')" using it Some by (simp add: py_get_default_def comp_def)
      then have "secs = []" using here retitle_sections_Nil_iff by blast
      then show ?thesis using d Some JDict by (simp add: doc_sections_def py_get_def)
    qed (use it Some in \<open>simp_all add: py_get_default_def\<close>)
  qed
  then show ?case using Cons.IH [OF rest] hq ms by simp
qed

lemma set_fold_lookup_step:
  "kv \<in> set (fold (lookup_step e) qs out) \<Longrightarrow>
   kv \<in> set out \<or> (\<exists>q\<in>set qs. snd kv = question_info q)"
proof (induction qs arbitrary: out)
  case Nil
  then show ?case by simp
next
  case (Cons q qs)
  from Cons.IH [of "lookup_step e q out"] Cons.prems
  have "kv \<in> set (lookup_step e q out) \<or> (\<exists>q\<in>set qs. snd kv = question_info q)" by simp
  then show ?case using set_dict_set [of out "id_string e q" "question_info q"]
    by (auto simp: lookup_step_def)
qed

lemma labelled_info:
  "labelled e lab (key, question_info q) \<longleftrightarrow>
     truthy (py_get q ''text'') \<and> normalize_label e (py_get q ''text'') = lab"
  by (simp add: labelled_def question_info_def py_get_def)

lemma stored_questions_canonical:
  assumes p: "get_project s i = Some p" and ids: "project_has_ids s i"
    and c: "canonical_project_custom_questions e (p_custom_questions p) n = Inr (custom, n1)"
    and cs: "map_of custom ''sections'' = Some (JList csecs)"
  shows "list_all2 (kept e) (stored_questions s i) (concat (map section_questions csecs))"
proof -
  have blk: "block_has_ids (p_custom_questions p)" using ids p by (simp add: project_has_ids_def)
  show ?thesis
  proof (cases "\<exists>d. p_custom_questions p = JDict d \<and> has_key d ''sections'' \<and> has_key d ''title''")
    case True
    then obtain d where d: "p_custom_questions p = JDict d" "has_key d ''sections''" "has_key d ''title''"
      by blast
    then obtain secs where secs: "map_of d ''sections'' = Some (JList secs)"
      "list_all section_has_ids secs"
      using blk by (auto simp: block_has_ids_def doc_has_ids_def split: option.splits json.splits)
    have run: "ensure_question_ids e d n = Inr (custom, n1)"
      using c d by (simp add: canonical_project_custom_questions_def)
    from ensure_question_ids_sections [OF run secs(1)] cs
    have "ensure_sections e secs n = Inr (csecs, n1)" by auto
    from ensure_sections_kept [OF secs(2) this]
    show ?thesis using p d secs(1)
      by (simp add: stored_questions_def block_questions_def doc_questions_def py_get_def)
  next
    case False
    then have "canonical_project_custom_questions e (p_custom_questions p) n
                 = ensure_question_ids e [(''title'', JStr ''Custom''), (''sections'', JList [])] n"
      by (auto simp: canonical_project_custom_questions_def split: json.splits)
    then have "csecs = []" using c cs
      by (auto simp: ensure_question_ids_def py_get_default_def Let_def map_of_dict_setdefault
            split: if_splits)
    moreover have "stored_questions s i = []"
      using False p by (auto simp: stored_questions_def block_questions_def split: json.splits)
    ultimately show ?thesis by simp
  qed
qed

lemma kept_text: "kept e q q' \<Longrightarrow> py_get q' ''text'' = py_get q ''text''"
  by (simp add: kept_def)

lemma list_all2_kept_ex:
  "list_all2 (kept e) xs ys \<Longrightarrow> y \<in> set ys \<Longrightarrow> \<exists>x\<in>set xs. kept e x y"
  by (induction rule: list_all2_induct) auto

lemma list_all2_kept_ex':
  "list_all2 (kept e) xs ys \<Longrightarrow> x \<in> set xs \<Longrightarrow> \<exists>y\<in>set ys. kept e x y"
  by (induction rule: list_all2_induct) auto

lemma names_labelI:
  "q \<in> set (assigned_questions s i) \<or> q \<in> set (stored_questions s i) \<Longrightarrow>
   truthy (py_get q ''text'') \<Longrightarrow> normalize_label e (py_get q ''text'') = lab \<Longrightarrow>
   names_label e s i lab"
  by (auto simp: names_label_def list_ex_iff)

lemma lookup_labels:
  assumes look: "initial_lookup e s i n = Inr ql" and ids: "project_has_ids s i"
    and kv: "kv \<in> set ql" and lab: "labelled e lab kv"
  shows "names_label e s i lab"
proof -
  from initial_lookup_parts [OF look] obtain p custom n1 csecs ms where
    p: "get_project s i = Some p"
    and c: "canonical_project_custom_questions e (p_custom_questions p) n = Inr (custom, n1)"
    and cs: "map_of custom ''sections'' = Some (JList csecs)"
    and ms: "merge_sets e 0 (assigned_sets s i) = Inr ms"
    and ql: "ql = fold (lookup_step e)
                    (concat (map section_questions ms) @ concat (map section_questions csecs)) []"
    by blast
  have "kv \<in> set (fold (lookup_step e)
                    (concat (map section_questions ms) @ concat (map section_questions csecs)) [])"
    using kv ql by simp
  from set_fold_lookup_step [OF this]
  obtain q where q: "q \<in> set (concat (map section_questions ms) @ concat (map section_questions csecs))"
    "snd kv = question_info q" by auto
  have t: "truthy (py_get q ''text'')" "normalize_label e (py_get q ''text'') = lab"
    using lab q(2) labelled_info [of e lab "fst kv" q] by (cases kv; simp)+
  consider "q \<in> set (concat (map section_questions ms))" | "q \<in> set (concat (map section_questions csecs))"
    using q(1) by auto
  then show ?thesis
  proof cases
    case 1
    then have "q \<in> set (assigned_questions s i)"
      using merge_sets_questions [OF ms] by (simp add: assigned_questions_def)
    then show ?thesis using t names_labelI by blast
  next
    case 2
    from list_all2_kept_ex [OF stored_questions_canonical [OF p ids c cs] 2]
    obtain q0 where "q0 \<in> set (stored_questions s i)" "kept e q0 q" by blast
    then show ?thesis using t names_labelI [of q0 s i e lab] by (simp add: kept_def)
  qed
qed

lemma kept_refl: "kept e q q"
  by (simp add: kept_def)

lemma kept_trans: "kept e q q' \<Longrightarrow> kept e q' q'' \<Longrightarrow> kept e q q''"
  by (simp add: kept_def)

lemma grows_refl: "grows e i s s"
  by (auto simp: grows_def same_tables_refl list_all_iff list_ex_iff intro: kept_refl)

lemma grows_trans: "grows e i s s' \<Longrightarrow> grows e i s' s'' \<Longrightarrow> grows e i s s''"
  unfolding grows_def list_all_iff list_ex_iff
  by (meson kept_trans same_tables_trans)

lemma assigned_questions_same_tables:
  "same_tables s s' \<Longrightarrow> assigned_questions s' i = assigned_questions s i"
  by (simp add: same_tables_def assigned_questions_def assigned_sets_def project_links_def
        get_question_set_def)

lemma names_label_grows:
  assumes "grows e i s s'" and "names_label e s i lab"
  shows "names_label e s' i lab"
proof -
  from assms(2) obtain q where q: "q \<in> set (assigned_questions s i) \<or> q \<in> set (stored_questions s i)"
    "truthy (py_get q ''text'')" "normalize_label e (py_get q ''text'') = lab"
    by (auto simp: names_label_def list_ex_iff)
  from q(1) show ?thesis
  proof
    assume "q \<in> set (assigned_questions s i)"
    then have "q \<in> set (assigned_questions s' i)"
      using assms(1) assigned_questions_same_tables [of s s' i] by (simp add: grows_def)
    then show ?thesis using q(2,3) names_labelI by blast
  next
    assume "q \<in> set (stored_questions s i)"
    then obtain q' where "q' \<in> set (stored_questions s' i)" "kept e q q'"
      using assms(1) by (auto simp: grows_def list_all_iff list_ex_iff)
    then show ?thesis using q(2,3) names_labelI [of q' s' i e lab] by (simp add: kept_def)
  qed
qed

lemma stored_questions_set_custom_questions:
  assumes "get_project s i = Some p" and "has_key cq ''title''"
  shows "stored_questions (set_custom_questions s i (JDict (dict_set cq ''sections'' (JList secs')))) i
           = concat (map section_questions secs')"
  using assms
  by (simp add: stored_questions_def get_project_set_custom_questions block_questions_def
        has_key_dict_set doc_questions_def py_get_dict_set)

lemma same_tables_set_custom: "same_tables s (set_custom_questions s i cq)"
  by (simp add: same_tables_def set_custom_questions_def)

text \<open>What adding a question does to the stored block.\<close>

lemma add_project_custom_question_block:
  assumes add: "add_project_custom_question e s i t question n = Inr (s', n')"
    and ids: "project_has_ids s i"
  shows "\<exists>A B m. list_all2 (kept e) (stored_questions s i) (A @ B)
           \<and> stored_questions s' i = A @ [question_with_defaults e question m] @ B
           \<and> project_has_ids s' i \<and> same_tables s s'"
proof -
  from add obtain p where p: "get_project s i = Some p"
    by (auto simp: add_project_custom_question_def split: option.splits)
  from add p obtain cq n1 where
    c: "canonical_project_custom_questions e (p_custom_questions p) n = Inr (cq, n1)"
    by (auto simp: add_project_custom_question_def rbind_eq_Inr)
  from add_project_custom_question_parts [OF p c, of t question] obtain secs secs' A B where
    secs: "map_of cq ''sections'' = Some (JList secs)"
    and run: "add_project_custom_question e s i t question n
               = Inr (set_custom_questions s i (JDict (dict_set cq ''sections'' (JList secs'))), Suc n1)"
    and AB: "concat (map section_questions secs) = A @ B"
    and AqB: "concat (map section_questions secs') = A @ [question_with_defaults e question n1] @ B"
    and sids: "list_all section_has_ids secs'"
    and title: "has_key cq ''title''"
    by blast
  have s': "s' = set_custom_questions s i (JDict (dict_set cq ''sections'' (JList secs')))"
    using add run by simp
  have "list_all2 (kept e) (stored_questions s i) (A @ B)"
    using stored_questions_canonical [OF p ids c secs] AB by simp
  moreover have "stored_questions s' i = A @ [question_with_defaults e question n1] @ B"
    unfolding s' using stored_questions_set_custom_questions [OF p title] AqB by simp
  moreover have "project_has_ids s' i"
    unfolding s' using p title sids by (rule project_has_ids_after_add)
  moreover have "same_tables s s'" unfolding s' by (rule same_tables_set_custom)
  ultimately show ?thesis by blast
qed

lemma add_project_custom_question_grows:
  assumes "add_project_custom_question e s i t question n = Inr (s', n')" and "project_has_ids s i"
  shows "grows e i s s' \<and> project_has_ids s' i
         \<and> (\<exists>m. question_with_defaults e question m \<in> set (stored_questions s' i))"
proof -
  from add_project_custom_question_block [OF assms] obtain A B m where
    k: "list_all2 (kept e) (stored_questions s i) (A @ B)"
    and st: "stored_questions s' i = A @ [question_with_defaults e question m] @ B"
    and rest: "project_has_ids s' i" "same_tables s s'"
    by blast
  have "\<forall>q\<in>set (stored_questions s i). \<exists>q'\<in>set (stored_questions s' i). kept e q q'"
  proof
    fix q assume "q \<in> set (stored_questions s i)"
    from list_all2_kept_ex' [OF k this] obtain q' where "q' \<in> set (A @ B)" "kept e q q'" by blast
    then show "\<exists>q'\<in>set (stored_questions s' i). kept e q q'" unfolding st by auto
  qed
  then show ?thesis using st rest by (auto simp: grows_def list_all_iff list_ex_iff)
qed

lemma index_labels_keys:
  "lab \<in> fst ` set (index_labels e ql m) \<Longrightarrow>
   lab \<in> fst ` set m \<or> (\<exists>kv\<in>set ql. labelled e lab kv)"
proof -
  assume "lab \<in> fst ` set (index_labels e ql m)"
  then obtain x where "map_of (index_labels e ql m) lab = Some x"
    by (metis domD dom_map_of_conv_image_fst)
  from index_labels_Some [OF this] show ?thesis
    by (auto dest: map_of_SomeD intro: image_eqI [where x = "(lab, _)"])
qed

lemma ing_inv_grows:
  assumes "ing_inv e i st" and "grows e i (ing_db st) s'" and "project_has_ids s' i"
  shows "list_all (\<lambda>kv. names_label e s' i (fst kv)) (ing_label_to_qid st)"
  using assms names_label_grows by (auto simp: ing_inv_def list_all_iff)

lemma synthesize_inv:
  assumes inv: "ing_inv e i st"
  shows "(\<forall>st'. synthesize e i qdef key v st = Inr st' \<longrightarrow>
            ing_inv e i st' \<and> grows e i (ing_db st) (ing_db st')
            \<and> (\<exists>m. question_with_defaults e qdef m \<in> set (stored_questions (ing_db st') i)))
         \<and> (\<forall>err s' n'. synthesize e i qdef key v st = Inl (err, s', n') \<longrightarrow>
               grows e i (ing_db st) s')"
proof (cases "add_project_custom_question e (ing_db st) i ''Auto-created'' qdef (ing_n st)")
  case (Inl err)
  then show ?thesis by (auto simp: synthesize_def grows_refl)
next
  case (Inr r)
  obtain s1 n1 where r: "r = (s1, n1)" by (cases r)
  have ids: "project_has_ids (ing_db st) i" using inv by (simp add: ing_inv_def)
  from add_project_custom_question_grows [OF Inr [unfolded r] ids]
  have g: "grows e i (ing_db st) s1" and ids1: "project_has_ids s1 i"
    and mem: "\<exists>m. question_with_defaults e qdef m \<in> set (stored_questions s1 i)"
    by auto
  show ?thesis
  proof (cases "initial_lookup e s1 i n1")
    case (Inl err)
    then have "\<exists>n'. synthesize e i qdef key v st = Inl (err, s1, n')"
      using Inr r by (auto simp: synthesize_def initial_lookup_def rbind_def split: sum.splits prod.splits)
    then show ?thesis using g by auto
  next
    case look: (Inr ql')
    then obtain n2 where syn: "synthesize e i qdef key v st
        = Inr (st\<lparr>ing_db := s1, ing_n := n2, ing_answers := dict_set (ing_answers st) key v,
                  ing_qlookup := ql',
                  ing_label_to_qid := index_labels e ql' (ing_label_to_qid st)\<rparr>)"
      using Inr r by (auto simp: synthesize_def initial_lookup_def rbind_def split: sum.splits prod.splits)
    have "names_label e s1 i lab" if "lab \<in> fst ` set (index_labels e ql' (ing_label_to_qid st))" for lab
      using index_labels_keys [OF that]
    proof
      assume "lab \<in> fst ` set (ing_label_to_qid st)"
      then show ?thesis using ing_inv_grows [OF inv g ids1] by (auto simp: list_all_iff)
    next
      assume "\<exists>kv\<in>set ql'. labelled e lab kv"
      then show ?thesis using lookup_labels [OF look ids1] by blast
    qed
    then have "ing_inv e i (st\<lparr>ing_db := s1, ing_n := n2, ing_answers := dict_set (ing_answers st) key v,
                  ing_qlookup := ql',
                  ing_label_to_qid := index_labels e ql' (ing_label_to_qid st)\<rparr>)"
      using ids1 by (auto simp: ing_inv_def list_all_iff)
    then show ?thesis using syn g mem by simp
  qed
qed

lemma ing_inv_answers: "ing_inv e i (st\<lparr>ing_answers := a\<rparr>) = ing_inv e i st"
  by (simp add: ing_inv_def)

lemma ing_inv_n: "ing_inv e i (st\<lparr>ing_n := a\<rparr>) = ing_inv e i st"
  by (simp add: ing_inv_def)

lemma existing_qid_key:
  "existing_qid e m label = Some qid \<Longrightarrow> normalize_label e label \<in> fst ` set m"
  by (auto simp: existing_qid_def split: option.splits if_splits dest!: map_of_SomeD
           intro: image_eqI [where x = "(_, _)"])

lemma names_synthesized:
  assumes "question_with_defaults e (fst (main_infer_question_from_value e (JStr k) raw n)) m
             \<in> set (stored_questions s i)"
    and "strip k \<noteq> []"
  shows "names e s i k"
proof -
  let ?qdef = "fst (main_infer_question_from_value e (JStr k) raw n)"
  have t: "py_get ?qdef ''text'' = JStr (strip k)"
    using inferred_text_field [of e "JStr k" raw n] by simp
  then have "py_get (question_with_defaults e ?qdef m) ''text'' = JStr (strip k)"
    using py_get_question_with_defaults [OF py_get_has_key, of ?qdef "''text''" e m] by simp
  then show ?thesis
    using assms names_labelI [of "question_with_defaults e ?qdef m" s i e "normalize_label e (JStr k)"]
      normalize_label_strip [of e k]
    by (simp add: names_def)
qed

lemma resolve_key_inv:
  assumes inv: "ing_inv e i st"
  shows "(\<forall>st'. resolve_key e i k st = Inr st' \<longrightarrow>
            ing_inv e i st' \<and> grows e i (ing_db st) (ing_db st')
            \<and> (\<not> is_uuid e k \<and> strip k \<noteq> [] \<longrightarrow> names e (ing_db st') i k))
         \<and> (\<forall>err s' n'. resolve_key e i k st = Inl (err, s', n') \<longrightarrow> grows e i (ing_db st) s')"
proof (cases "map_of (ing_answers st) k")
  case None
  then show ?thesis by (simp add: resolve_key_def grows_refl)
next
  case (Some raw_val)
  let ?st = "st\<lparr>ing_answers := dict_pop (ing_answers st) k\<rparr>"
  have inv0: "ing_inv e i ?st" using inv by (simp add: ing_inv_answers)
  show ?thesis
  proof (cases "is_uuid e k \<and> has_metadata raw_val")
    case True
    obtain qdef0 norm_val label where
      inf: "main_infer_question_from_value e label
              (JDict [(''type'', py_get (case raw_val of JDict d \<Rightarrow> d | other \<Rightarrow> []) ''type''),
                      (''value'', py_get_default (case raw_val of JDict d \<Rightarrow> d | other \<Rightarrow> []) ''value''
                                    (py_get (case raw_val of JDict d \<Rightarrow> d | other \<Rightarrow> []) ''answer''))])
              (ing_n ?st) = (qdef0, norm_val)"
      and label: "label = (if truthy (py_get (case raw_val of JDict d \<Rightarrow> d | other \<Rightarrow> []) ''text'')
                           then py_get (case raw_val of JDict d \<Rightarrow> d | other \<Rightarrow> []) ''text''
                           else py_get (case raw_val of JDict d \<Rightarrow> d | other \<Rightarrow> []) ''question'')"
      by (metis surj_pair)
    let ?st1 = "?st\<lparr>ing_n := Suc (ing_n ?st)\<rparr>"
    have inv1: "ing_inv e i ?st1" using inv0 by (simp add: ing_inv_n)
    have rk: "resolve_key e i k st =
        (case existing_qid e (ing_label_to_qid ?st) label of
           Some qid \<Rightarrow> Inr (?st1\<lparr>ing_answers := dict_set (ing_answers ?st1) qid norm_val\<rparr>)
         | None \<Rightarrow> synthesize e i (dict_set qdef0 ''id'' (JStr k)) k norm_val ?st1)"
      using Some True inf label by (simp add: resolve_key_def Let_def)
    show ?thesis
    proof (cases "existing_qid e (ing_label_to_qid ?st) label")
      case None
      then show ?thesis
        using rk synthesize_inv [OF inv1, of "dict_set qdef0 ''id'' (JStr k)" k norm_val] True
        by simp
    next
      case (Some qid)
      then show ?thesis using rk inv True by (simp add: ing_inv_def grows_refl)
    qed
  next
    case False
    show ?thesis
    proof (cases "is_uuid e k")
      case True
      then show ?thesis using Some False by (simp add: resolve_key_def Let_def grows_refl)
    next
      case nu: False
      show ?thesis
      proof (cases "existing_qid e (ing_label_to_qid ?st) (JStr k)")
        case (Some qid)
        then have rk: "resolve_key e i k st
                        = Inr (?st\<lparr>ing_answers := dict_set (ing_answers ?st) qid raw_val\<rparr>)"
          using \<open>map_of (ing_answers st) k = Some raw_val\<close> nu by (simp add: resolve_key_def Let_def)
        have "normalize_label e (JStr k) \<in> fst ` set (ing_label_to_qid st)"
          using existing_qid_key [OF Some] by simp
        then have "names e (ing_db st) i k"
          using inv by (auto simp: ing_inv_def list_all_iff names_def)
        then show ?thesis using rk inv by (simp add: ing_inv_def grows_refl)
      next
        case None
        obtain qdef norm_val where
          inf: "main_infer_question_from_value e (JStr k) raw_val (ing_n ?st) = (qdef, norm_val)"
          by (metis surj_pair)
        let ?st1 = "?st\<lparr>ing_n := Suc (ing_n ?st)\<rparr>"
        have inv1: "ing_inv e i ?st1" using inv0 by (simp add: ing_inv_n)
        have rk: "resolve_key e i k st
                    = synthesize e i qdef (py_str e (py_get qdef ''id'')) norm_val ?st1"
          using \<open>map_of (ing_answers st) k = Some raw_val\<close> nu None inf
          by (simp add: resolve_key_def Let_def)
        have qd: "qdef = fst (main_infer_question_from_value e (JStr k) raw_val (ing_n ?st))"
          using inf by simp
        from synthesize_inv [OF inv1, of qdef "py_str e (py_get qdef ''id'')" norm_val]
        show ?thesis unfolding rk using names_synthesized [of e k raw_val "ing_n ?st" _ _ i] qd
          by auto
      qed
    qed
  qed
qed

lemma resolve_unknown_inv:
  assumes "ing_inv e i st"
  shows "(\<forall>st'. resolve_unknown e i ks st = Inr st' \<longrightarrow>
            ing_inv e i st' \<and> grows e i (ing_db st) (ing_db st')
            \<and> (\<forall>k\<in>set ks. \<not> is_uuid e k \<and> strip k \<noteq> [] \<longrightarrow> names e (ing_db st') i k))
         \<and> (\<forall>err s' n'. resolve_unknown e i ks st = Inl (err, s', n') \<longrightarrow> grows e i (ing_db st) s')"
  using assms
proof (induction ks arbitrary: st)
  case Nil
  then show ?case by (simp add: grows_refl)
next
  case (Cons k ks)
  note rk = resolve_key_inv [OF Cons.prems, of k]
  show ?case
  proof (cases "resolve_key e i k st")
    case (Inl f)
    obtain err s' n' where f: "f = (err, s', n')" by (cases f)
    then show ?thesis using Inl rk by auto
  next
    case (Inr st1)
    then have inv1: "ing_inv e i st1" and g1: "grows e i (ing_db st) (ing_db st1)"
      and nm: "\<not> is_uuid e k \<and> strip k \<noteq> [] \<longrightarrow> names e (ing_db st1) i k"
      using rk by auto
    note ih = Cons.IH [OF inv1]
    have run: "resolve_unknown e i (k # ks) st = resolve_unknown e i ks st1" using Inr by simp
    show ?thesis
    proof (intro conjI allI impI)
      fix st' assume a: "resolve_unknown e i (k # ks) st = Inr st'"
      then have b: "resolve_unknown e i ks st1 = Inr st'" using run by simp
      then show "ing_inv e i st'" using ih by blast
      show g: "grows e i (ing_db st) (ing_db st')" using ih b g1 grows_trans by blast
      have "grows e i (ing_db st1) (ing_db st')" using ih b by blast
      then have "\<not> is_uuid e k \<and> strip k \<noteq> [] \<longrightarrow> names e (ing_db st') i k"
        using nm names_label_grows by (auto simp: names_def)
      then show "\<forall>k\<in>set (k # ks). \<not> is_uuid e k \<and> strip k \<noteq> [] \<longrightarrow> names e (ing_db st') i k"
        using ih b by auto
    next
      fix err s' n' assume "resolve_unknown e i (k # ks) st = Inl (err, s', n')"
      then have "resolve_unknown e i ks st1 = Inl (err, s', n')" using run by simp
      then show "grows e i (ing_db st) s'" using ih g1 grows_trans by blast
    qed
  qed
qed

section \<open>Failed ingestion\<close>

lemma resolve_unknown_append:
  "resolve_unknown e i (ks1 @ ks2) st =
     (case resolve_unknown e i ks1 st of
        Inl failure \<Rightarrow> Inl failure
      | Inr st1 \<Rightarrow> resolve_unknown e i ks2 st1)"
  by (induction ks1 arbitrary: st) (auto split: sum.splits)

lemma resolve_answers_loop_start:
  "loop_start e s i payload n = Some (ks, st0) \<Longrightarrow>
   resolve_answers e s i payload n = resolve_unknown e i ks st0"
proof -
  assume a: "loop_start e s i payload n = Some (ks, st0)"
  then obtain form n1 ql where f: "merged_project_form e s i n = Inr (form, n1)"
    "question_lookup_from_form e form = Inr ql"
    by (auto simp: loop_start_def split: sum.splits prod.splits)
  have "\<And>proj. auto_fill proj ql payload = payload"
    using auto_fill_info [OF question_lookup_from_form_info [OF f(2)]] by simp
  then show ?thesis using a f
    by (auto simp: loop_start_def resolve_answers_def Let_def split: option.splits)
qed

lemma resolve_answers_no_start:
  "loop_start e s i payload n = None \<Longrightarrow> resolve_answers e s i payload n = Inl (err, s', n') \<Longrightarrow> s' = s"
  by (auto simp: loop_start_def resolve_answers_def split: sum.splits prod.splits)

lemma loop_start_inv:
  assumes "loop_start e s i payload n = Some (ks, st0)" and ids: "project_has_ids s i"
  shows "ing_inv e i st0 \<and> ing_db st0 = s"
proof -
  from assms(1) obtain form n1 ql where f: "merged_project_form e s i n = Inr (form, n1)"
    "question_lookup_from_form e form = Inr ql"
    and st0: "st0 = \<lparr>ing_db = s, ing_n = n1, ing_answers = payload, ing_qlookup = ql,
                      ing_label_to_qid = index_labels e ql []\<rparr>"
    by (auto simp: loop_start_def split: sum.splits prod.splits)
  have look: "initial_lookup e s i n = Inr ql" using f by (simp add: initial_lookup_def)
  have "names_label e s i lab" if "lab \<in> fst ` set (index_labels e ql [])" for lab
    using index_labels_keys [OF that] lookup_labels [OF look ids] by auto
  then show ?thesis using ids st0 by (auto simp: ing_inv_def list_all_iff)
qed

lemma grows_kept:
  "grows e i s s' \<Longrightarrow> \<forall>q\<in>set (stored_questions s i). \<exists>q'\<in>set (stored_questions s' i). kept e q q'"
  by (simp add: grows_def list_all_iff list_ex_iff)

lemma create_record_failure_cases:
  assumes fail: "create_record e s u i payload n = Inl (err, s', n')" and g: "granted s u i"
    and start: "loop_start e s i payload n = Some (ks, st0)"
  shows "resolve_unknown e i ks st0 = Inl (err, s', n')
         \<or> (\<exists>st. resolve_unknown e i ks st0 = Inr st \<and> s' = ing_db st)"
  using fail ingest_answers_granted [OF g, of e payload n] resolve_answers_loop_start [OF start]
  by (auto simp: create_record_def split: sum.splits)

lemma failed_call_grows:
  assumes fail: "create_record e s u i payload n = Inl (err, s', n')" and ids: "project_has_ids s i"
  shows "grows e i s s'"
proof (cases "granted s u i")
  case False
  then have "s' = s" using fail ingest_answers_denied [OF False, of e payload n]
    by (simp add: create_record_def)
  then show ?thesis by (simp add: grows_refl)
next
  case True
  show ?thesis
  proof (cases "loop_start e s i payload n")
    case None
    have "resolve_answers e s i payload n = Inl (err, s', n')"
    proof (cases "resolve_answers e s i payload n")
      case (Inl f)
      then show ?thesis using fail ingest_answers_granted [OF True, of e payload n]
        by (simp add: create_record_def)
    next
      case (Inr st)
      then show ?thesis using None
        by (auto simp: loop_start_def resolve_answers_def split: sum.splits prod.splits)
    qed
    then have "s' = s" using None resolve_answers_no_start by blast
    then show ?thesis by (simp add: grows_refl)
  next
    case (Some r)
    obtain ks st0 where r: "r = (ks, st0)" by (cases r)
    from loop_start_inv [OF Some [unfolded r] ids] have inv: "ing_inv e i st0" and db: "ing_db st0 = s"
      by auto
    from create_record_failure_cases [OF fail True Some [unfolded r]]
    show ?thesis using resolve_unknown_inv [OF inv, of ks] db by auto
  qed
qed

lemma failed_call_names:
  assumes fail: "create_record e s u i payload n = Inl (err, s', n')" and ids: "project_has_ids s i"
    and g: "granted s u i"
    and start: "loop_start e s i payload n = Some (ks1 @ ks2, st0)"
    and pre: "resolve_unknown e i ks1 st0 = Inr st1"
    and k: "k \<in> set ks1" "\<not> is_uuid e k" "strip k \<noteq> []"
  shows "names e s' i k"
proof -
  from loop_start_inv [OF start ids] have inv: "ing_inv e i st0" by simp
  from resolve_unknown_inv [OF inv, of ks1] pre k
  have inv1: "ing_inv e i st1" and nm: "names e (ing_db st1) i k" by auto
  have split: "resolve_unknown e i (ks1 @ ks2) st0 = resolve_unknown e i ks2 st1"
    using pre by (simp add: resolve_unknown_append)
  from create_record_failure_cases [OF fail g start]
  have "grows e i (ing_db st1) s'"
    using resolve_unknown_inv [OF inv1, of ks2] split by auto
  then show ?thesis using nm names_label_grows by (auto simp: names_def)
qed

text \<open>
  C2 (as amended). Answer ingestion is not atomic. A call that fails creates no record
  and leaves the question sets, the assignments and the access rows as they were; it
  leaves the whole database as it was when every submitted key is a question id of the
  project's form. For a project whose stored custom questions carry ids, a failed call
  never takes a question out of the custom block (each stored question is still there,
  id and text unchanged), and what the loop over the unknown keys has committed stays:
  once the loop has resolved a first part \<open>ks1\<close> of the unknown keys, every label among
  them (a key that is not a UUID and not blank) names a question of the form stored in
  the database the failed call leaves behind, whether the failure comes later in the
  loop or from the completeness check.
\<close>

theorem failed_ingestion_effects:
  assumes "create_record e s u i payload n = Inl (err, s', n')"
  shows "records s' = records s \<and> question_sets s' = question_sets s
         \<and> project_question_sets s' = project_question_sets s \<and> accesses s' = accesses s
         \<and> (all_keys_known e s i payload n \<longrightarrow> s' = s)
         \<and> (project_has_ids s i \<longrightarrow>
              (\<forall>q\<in>set (stored_questions s i). \<exists>q'\<in>set (stored_questions s' i). kept e q q')
              \<and> (\<forall>ks1 ks2 st0 st1 k.
                    granted s u i \<and> loop_start e s i payload n = Some (ks1 @ ks2, st0)
                    \<and> resolve_unknown e i ks1 st0 = Inr st1
                    \<and> k \<in> set ks1 \<and> \<not> is_uuid e k \<and> strip k \<noteq> [] \<longrightarrow>
                    names e s' i k))"
proof (intro conjI impI allI)
  show "records s' = records s" "question_sets s' = question_sets s"
    "project_question_sets s' = project_question_sets s" "accesses s' = accesses s"
    using create_record_Inl_same_tables [OF assms] by (simp_all add: same_tables_def)
  show "s' = s" if "all_keys_known e s i payload n"
    using create_record_known_keys [OF assms that] .
  show "\<forall>q\<in>set (stored_questions s i). \<exists>q'\<in>set (stored_questions s' i). kept e q q'"
    if "project_has_ids s i"
    using failed_call_grows [OF assms that] by (rule grows_kept)
  show "names e s' i k"
    if "project_has_ids s i"
      and "granted s u i \<and> loop_start e s i payload n = Some (ks1 @ ks2, st0)
           \<and> resolve_unknown e i ks1 st0 = Inr st1
           \<and> k \<in> set ks1 \<and> \<not> is_uuid e k \<and> strip k \<noteq> []"
    for ks1 ks2 st0 st1 k
    using failed_call_names [OF assms that(1), of ks1 ks2 st0 st1 k] that(2) by blast
qed


theorem failed_ingestion_effects_witness:
  "create_record demo_env (demo_db (custom_doc [])) demo_user 7 [(''Mood'', JStr ''fine'')] 0
     = Inl (HTTPException 400 ''Missing required answers: Project name'', mood_db, 3)
   \<and> project_has_ids (demo_db (custom_doc [])) 7
   \<and> granted (demo_db (custom_doc [])) demo_user 7
   \<and> loop_start demo_env (demo_db (custom_doc [])) 7 [(''Mood'', JStr ''fine'')] 0
        = Some ([''Mood''] @ [], demo_ingest [(''Mood'', JStr ''fine'')])
   \<and> resolve_unknown demo_env 7 [''Mood''] (demo_ingest [(''Mood'', JStr ''fine'')]) = Inr mood_ingest
   \<and> \<not> is_uuid demo_env ''Mood'' \<and> strip ''Mood'' \<noteq> []
   \<and> \<not> names demo_env (demo_db (custom_doc [])) 7 ''Mood''
   \<and> names demo_env mood_db 7 ''Mood''
   \<and> records mood_db = records (demo_db (custom_doc []))
   \<and> stored_questions (demo_db (custom_doc [])) 7 = []
   \<and> stored_questions mood_db 7 = [mood_question]
   \<and> create_record demo_env (demo_db (custom_doc [])) demo_user 7 [] 0
        = Inl (HTTPException 400 ''Missing required answers: Project name'', demo_db (custom_doc []), 0)
   \<and> all_keys_known demo_env (demo_db (custom_doc [])) 7 [] 0"
proof -
  let ?s = "demo_db (custom_doc [])"
  have a: "create_record demo_env ?s demo_user 7 [(''Mood'', JStr ''fine'')] 0
             = Inl (HTTPException 400 ''Missing required answers: Project name'', mood_db, 3)"
    by code_simp
  have h: "project_has_ids ?s 7" "granted ?s demo_user 7"
    "loop_start demo_env ?s 7 [(''Mood'', JStr ''fine'')] 0
       = Some ([''Mood''] @ [], demo_ingest [(''Mood'', JStr ''fine'')])"
    "resolve_unknown demo_env 7 [''Mood''] (demo_ingest [(''Mood'', JStr ''fine'')]) = Inr mood_ingest"
    "\<not> is_uuid demo_env ''Mood''" "strip ''Mood'' \<noteq> []"
    by code_simp+
  have before: "\<not> names demo_env ?s 7 ''Mood''" "stored_questions ?s 7 = []"
    "stored_questions mood_db 7 = [mood_question]"
    by code_simp+
  have b: "create_record demo_env ?s demo_user 7 [] 0
             = Inl (HTTPException 400 ''Missing required answers: Project name'', ?s, 0)"
    by code_simp
  have c: "all_keys_known demo_env ?s 7 [] 0" by code_simp
  have k: "''Mood'' \<in> set [''Mood'']" by simp
  from failed_ingestion_effects [OF a] h k
  have "names demo_env mood_db 7 ''Mood''" by blast
  moreover from failed_ingestion_effects [OF a] have "records mood_db = records ?s" by blast
  moreover from failed_ingestion_effects [OF b] c have "?s = ?s" by blast
  ultimately show ?thesis using a b c h before by simp
qed

text \<open>
  C2 as stated fails: the labelled answer "Mood" is submitted without the required
  project name. The completeness check rejects the submission, and the project's custom
  block, empty before the call, holds the synthesized question "Mood" after it.
\<close>

theorem failed_ingestion_keeps_synthesized_question:
  "create_record demo_env (demo_db (custom_doc [])) demo_user 7 [(''Mood'', JStr ''fine'')] 0
     = Inl (HTTPException 400 ''Missing required answers: Project name'',
            demo_db (custom_doc [mood_section ''Auto-created''
               [(''id'', JStr ''uuid-0''), (''text'', JStr ''Mood''), (''required'', JBool False),
                (''type'', JStr ''short_text'')]]),
            3)
   \<and> custom_block (demo_db (custom_doc [])) 7 = [(''title'', JStr ''Custom''), (''sections'', JList [])]
   \<and> custom_block (demo_db (custom_doc [mood_section ''Auto-created''
               [(''id'', JStr ''uuid-0''), (''text'', JStr ''Mood''), (''required'', JBool False),
                (''type'', JStr ''short_text'')]])) 7
       = [(''title'', JStr ''Custom''),
          (''sections'', JList [mood_section ''Auto-created''
               [(''id'', JStr ''uuid-0''), (''text'', JStr ''Mood''), (''required'', JBool False),
                (''type'', JStr ''short_text'')]])]"
  by code_simp


section \<open>Label dedup\<close>













end
